theory Spec2Isabelle
  imports Complex_Main "HOL-Library.Log_Nat"
begin

section \<open>Data model of the pose-analysis hook\<close>

text \<open>
  The repetition engine lives in the React hook \<open>usePoseAnalysis\<close>. Its mutable cells
  (\<open>useRef\<close>) and the React state it sets become one record that every operation takes
  and returns. JavaScript numbers are modelled as real numbers, and as IEEE 754 doubles
  in the section on double-precision arithmetic, where the rounding and the overflow
  decide a claim; \<open>Date.now()\<close> is an integer number of milliseconds and is passed in
  as the parameter \<open>now\<close>.
\<close>

datatype RepState = UP | DOWN | TRANSITIONING

datatype Phase = eccentric | concentric | isometric | rest

text \<open>The fields \<open>quality\<close> and \<open>confidence\<close> of \<open>RepData\<close> carry the prefix \<open>rep\<close>,
  since \<open>BiomechanicalAnalysis\<close> has fields of the same names.\<close>

record RepData =
  count :: int
  duration :: real
  repQuality :: real
  timestamp :: int
  repConfidence :: real

record SmoothingBuffer =
  vals :: "real list"
  weights :: "real list"

record BiomechanicalAnalysis =
  feedback :: "string list"
  metrics :: "string \<rightharpoonup> real"
  phase :: Phase
  isValid :: bool
  quality :: real
  confidence :: real

record Thresholds =
  up :: real
  down :: real
  hysteresis :: real

record Session =
  repState :: RepState
  repStartTime :: int
  lastRepTime :: int
  repHistory :: "RepData list"
  qualitySum :: real
  confidenceSum :: real
  repCountRef :: int
  metricBuffer :: SmoothingBuffer
  repCount :: int
  lastRepDuration :: real
  currentPhase :: Phase
  avgQuality :: real
  avgConfidence :: real

definition MIN_CONFIDENCE_THRESHOLD :: real where
  "MIN_CONFIDENCE_THRESHOLD = 0.5"

definition BUFFER_SIZE :: nat where
  "BUFFER_SIZE = 5"

text \<open>The initial values of the cells, as the \<open>useRef\<close> and \<open>useState\<close> calls give them.\<close>

definition initialSession :: Session where
  "initialSession =
     \<lparr>repState = UP, repStartTime = 0, lastRepTime = 0, repHistory = [],
      qualitySum = 0, confidenceSum = 0, repCountRef = 0,
      metricBuffer = \<lparr>vals = [], weights = []\<rparr>,
      repCount = 0, lastRepDuration = 0, currentPhase = rest,
      avgQuality = 0, avgConfidence = 0\<rparr>"

section \<open>Strings: lower case and substring test\<close>

text \<open>
  Exercise names are strings of Latin-1 code units (every key of the tables is one), a
  \<open>char\<close> each. \<open>toLowerCase\<close> maps A-Z and the accented capitals of Latin-1 to their
  lower-case letters, which is the code unit plus 32, that is bit 5 set;
  \<open>includesStr\<close> is the substring test of \<open>String.prototype.includes\<close>.
\<close>

fun toLowerChar :: "char \<Rightarrow> char" where
  "toLowerChar (Char b0 b1 b2 b3 b4 b5 b6 b7) =
     (let n = (of_char (Char b0 b1 b2 b3 b4 b5 b6 b7) :: nat)
      in if (65 \<le> n \<and> n \<le> 90) \<or> (192 \<le> n \<and> n \<le> 222 \<and> n \<noteq> 215)
         then Char b0 b1 b2 b3 b4 True b6 b7
         else Char b0 b1 b2 b3 b4 b5 b6 b7)"

definition toLowerCase :: "string \<Rightarrow> string" where
  "toLowerCase s = map toLowerChar s"

fun startsWith :: "string \<Rightarrow> string \<Rightarrow> bool" where
  "startsWith s [] = True"
| "startsWith [] (k # ks) = False"
| "startsWith (c # cs) (k # ks) = (c = k \<and> startsWith cs ks)"

fun includesStr :: "string \<Rightarrow> string \<Rightarrow> bool" where
  "includesStr [] key = (key = [])"
| "includesStr (c # cs) key = (startsWith (c # cs) key \<or> includesStr cs key)"

text \<open>The operator \<open>??\<close> on an optional number.\<close>

definition orElse :: "real option \<Rightarrow> real \<Rightarrow> real" where
  "orElse m d = (case m of Some v \<Rightarrow> v | None \<Rightarrow> d)"

section \<open>Geometry primitives\<close>

text \<open>
  A landmark: the coordinates \<open>x\<close>, \<open>y\<close>, the optional \<open>z\<close> and the optional
  \<open>visibility\<close>. The coordinate fields carry the prefix \<open>p\<close>, those of \<open>Vector3D\<close> the
  prefix \<open>v\<close>. A frame is the array of landmarks; an index beyond its length reads
  \<open>undefined\<close>, here \<open>None\<close>.
\<close>

record Point =
  px :: real
  py :: real
  pz :: "real option"
  visibility :: "real option"

record Vector3D =
  vx :: real
  vy :: real
  vz :: real

definition landmarkAt :: "Point list \<Rightarrow> nat \<Rightarrow> Point option" where
  "landmarkAt landmarks i = (if i < length landmarks then Some (landmarks ! i) else None)"

text \<open>
  The result of a JavaScript division: a finite number, an infinity or NaN. A division
  by zero does not raise; it yields an infinity, or NaN for \<open>0 / 0\<close>. \<open>Math.min\<close>,
  \<open>Math.max\<close>, \<open>Math.acos\<close> and the product with a finite number are given on these
  values as the language defines them.
\<close>

datatype jsnum = Fin real | PosInf | NegInf | NaN

definition jsDiv :: "real \<Rightarrow> real \<Rightarrow> jsnum" where
  "jsDiv a b =
     (if b \<noteq> 0 then Fin (a / b)
      else if a > 0 then PosInf else if a < 0 then NegInf else NaN)"

fun jsMin :: "real \<Rightarrow> jsnum \<Rightarrow> jsnum" where
  "jsMin m (Fin r) = Fin (min m r)"
| "jsMin m PosInf = Fin m"
| "jsMin m NegInf = NegInf"
| "jsMin m NaN = NaN"

fun jsMax :: "real \<Rightarrow> jsnum \<Rightarrow> jsnum" where
  "jsMax m (Fin r) = Fin (max m r)"
| "jsMax m PosInf = PosInf"
| "jsMax m NegInf = Fin m"
| "jsMax m NaN = NaN"

fun jsAcos :: "jsnum \<Rightarrow> jsnum" where
  "jsAcos (Fin r) = (if - 1 \<le> r \<and> r \<le> 1 then Fin (arccos r) else NaN)"
| "jsAcos PosInf = NaN"
| "jsAcos NegInf = NaN"
| "jsAcos NaN = NaN"

fun jsTimes :: "jsnum \<Rightarrow> real \<Rightarrow> jsnum" where
  "jsTimes (Fin r) k = Fin (r * k)"
| "jsTimes PosInf k = (if k > 0 then PosInf else if k < 0 then NegInf else NaN)"
| "jsTimes NegInf k = (if k > 0 then NegInf else if k < 0 then PosInf else NaN)"
| "jsTimes NaN k = NaN"

definition toVector3D :: "Point \<Rightarrow> Vector3D" where
  "toVector3D p = \<lparr>vx = px p, vy = py p, vz = orElse (pz p) 0\<rparr>"

definition subtractVectors :: "Vector3D \<Rightarrow> Vector3D \<Rightarrow> Vector3D" where
  "subtractVectors a b = \<lparr>vx = vx a - vx b, vy = vy a - vy b, vz = vz a - vz b\<rparr>"

definition dotProduct :: "Vector3D \<Rightarrow> Vector3D \<Rightarrow> real" where
  "dotProduct a b = vx a * vx b + vy a * vy b + vz a * vz b"

definition magnitude :: "Vector3D \<Rightarrow> real" where
  "magnitude v = sqrt (vx v * vx v + vy v * vy v + vz v * vz v)"

definition crossProduct :: "Vector3D \<Rightarrow> Vector3D \<Rightarrow> Vector3D" where
  "crossProduct a b =
     \<lparr>vx = vy a * vz b - vz a * vy b,
      vy = vz a * vx b - vx a * vz b,
      vz = vx a * vy b - vy a * vx b\<rparr>"

definition calculateAngle :: "Point \<Rightarrow> Point \<Rightarrow> Point \<Rightarrow> jsnum" where
  "calculateAngle a b c =
     (let va = toVector3D a; vb = toVector3D b; vc = toVector3D c;
          ba = subtractVectors va vb; bc = subtractVectors vc vb;
          dot = dotProduct ba bc; magBA = magnitude ba; magBC = magnitude bc
      in if magBA = 0 \<or> magBC = 0 then Fin 0
         else (let cosAngle = jsMax (- 1) (jsMin 1 (jsDiv dot (magBA * magBC)))
               in jsTimes (jsAcos cosAngle) (180 / pi)))"

text \<open>\<open>Math.atan2\<close> on real arguments.\<close>

definition atan2 :: "real \<Rightarrow> real \<Rightarrow> real" where
  "atan2 y x =
     (if x > 0 then arctan (y / x)
      else if x < 0 then (if y \<ge> 0 then arctan (y / x) + pi else arctan (y / x) - pi)
      else if y > 0 then pi / 2 else if y < 0 then - (pi / 2) else 0)"

definition calculateAngle2D :: "Point \<Rightarrow> Point \<Rightarrow> Point \<Rightarrow> real" where
  "calculateAngle2D a b c =
     (let radians = atan2 (py c - py b) (px c - px b) - atan2 (py a - py b) (px a - px b);
          angle = \<bar>(radians * 180) / pi\<bar>
      in if angle > 180 then 360 - angle else angle)"

definition calculateDistance :: "Point \<Rightarrow> Point \<Rightarrow> real" where
  "calculateDistance a b =
     (let dx = px a - px b; dy = py a - py b; dz = orElse (pz a) 0 - orElse (pz b) 0
      in sqrt (dx * dx + dy * dy + dz * dz))"

definition calculateDistance2D :: "Point \<Rightarrow> Point \<Rightarrow> real" where
  "calculateDistance2D a b =
     (let dx = px a - px b; dy = py a - py b in sqrt (dx * dx + dy * dy))"

text \<open>\<open>filter\<close> keeps the indices inside the frame, so \<open>reduce\<close> reads only those.\<close>

definition getAverageConfidence :: "Point list \<Rightarrow> nat list \<Rightarrow> real" where
  "getAverageConfidence landmarks indices =
     (let validPoints = filter (\<lambda>i. landmarkAt landmarks i \<noteq> None) indices
      in if length validPoints = 0 then 0
         else (let total = foldl (\<lambda>acc i. acc + orElse (visibility (landmarks ! i)) 1) 0 validPoints
               in total / real (length validPoints)))"

definition calculateWeightedAngle :: "Point \<Rightarrow> Point \<Rightarrow> Point \<Rightarrow> jsnum \<times> real" where
  "calculateWeightedAngle a b c =
     (calculateAngle a b c,
      min (orElse (visibility a) 1) (min (orElse (visibility b) 1) (orElse (visibility c) 1)))"

definition isVisible :: "Point \<Rightarrow> real \<Rightarrow> bool" where
  "isVisible point threshold = (orElse (visibility point) 1 \<ge> threshold)"

definition validateLandmarks :: "Point list \<Rightarrow> nat list \<Rightarrow> bool" where
  "validateLandmarks landmarks indices =
     list_all (\<lambda>i. case landmarkAt landmarks i of None \<Rightarrow> False
                    | Some point \<Rightarrow> isVisible point 0.5) indices"

definition clamp :: "real \<Rightarrow> real \<Rightarrow> real \<Rightarrow> real" where
  "clamp v lo hi = max lo (min hi v)"

definition lerp :: "real \<Rightarrow> real \<Rightarrow> real \<Rightarrow> real" where
  "lerp a b t = a + (b - a) * clamp t 0 1"

definition pointToLineDistance :: "Point \<Rightarrow> Point \<Rightarrow> Point \<Rightarrow> jsnum" where
  "pointToLineDistance p a b =
     (let va = toVector3D a; vb = toVector3D b; vp = toVector3D p;
          ab = subtractVectors vb va; ap = subtractVectors vp va;
          cross = crossProduct ab ap; crossMag = magnitude cross; abMag = magnitude ab
      in if abMag = 0 then Fin (magnitude ap) else jsDiv crossMag abMag)"

text \<open>\<open>Math.round\<close>: the nearest integer, a half rounded up.\<close>

definition jsRound :: "real \<Rightarrow> real" where
  "jsRound v = of_int \<lfloor>v + 1 / 2\<rfloor>"

section \<open>Exercise analyzers\<close>

text \<open>
  An analyzer reads landmarks by index and then their fields; on an index outside the
  frame the field access raises a \<open>TypeError\<close>. \<open>withLandmark\<close> is that read.
  \<open>withFinite\<close> hands a finite result of a geometry primitive to the rest of the
  analyzer; on an infinity or NaN the model stops with \<open>NotFinite\<close> instead of computing
  on with that value. Both are values of the result, so that their absence is a theorem.
\<close>

datatype error = TypeError | NotFinite

definition withLandmark :: "Point list \<Rightarrow> nat \<Rightarrow> (Point \<Rightarrow> error + 'a) \<Rightarrow> error + 'a" where
  "withLandmark landmarks i k =
     (case landmarkAt landmarks i of None \<Rightarrow> Inl TypeError | Some point \<Rightarrow> k point)"

definition withFinite :: "jsnum \<Rightarrow> (real \<Rightarrow> error + 'a) \<Rightarrow> error + 'a" where
  "withFinite q k =
     (case q of Fin r \<Rightarrow> k r | PosInf \<Rightarrow> Inl NotFinite | NegInf \<Rightarrow> Inl NotFinite
      | NaN \<Rightarrow> Inl NotFinite)"

text \<open>The record every analyzer returns when a required landmark is missing or not
  visible, with its one positioning instruction.\<close>

definition notEvaluable :: "string \<Rightarrow> BiomechanicalAnalysis" where
  "notEvaluable instruction =
     \<lparr>feedback = [instruction], metrics = Map.empty, phase = rest, isValid = False,
      quality = 0, confidence = 0\<rparr>"

definition sidewaysInstruction :: string where
  "sidewaysInstruction = ''Posicione-se de lado para a c'' @ [CHR 0xE2] @ ''mera''"

definition frontInstruction :: string where
  "frontInstruction =
     ''Posicione-se de frente ou de costas para a c'' @ [CHR 0xE2] @ ''mera''"

definition backRowRequired :: "nat list" where
  "backRowRequired = [11, 13, 15, 23, 27, 12]"

definition squatRequired :: "nat list" where
  "squatRequired = [11, 23, 24, 25, 26, 27, 28]"

definition pushUpRequired :: "nat list" where
  "pushUpRequired = [11, 13, 15, 23, 25, 27]"

text \<open>The feedback messages, in the Latin-1 code units of the source's strings.\<close>

definition msgInclineForward :: string where
  "msgInclineForward = ''Incline o tronco para frente (~45'' @ [CHR 0xB0] @ '')''"

definition msgProtectLumbar :: string where
  "msgProtectLumbar = ''N'' @ [CHR 0xE3] @ ''o incline demais - proteja a lombar''"

definition msgTorsoPerfect :: string where
  "msgTorsoPerfect = ''Inclina'' @ [CHR 0xE7, CHR 0xE3] @ ''o do tronco perfeita''"

definition msgShouldersAligned :: string where
  "msgShouldersAligned = ''Mantenha os ombros alinhados - sem rota'' @ [CHR 0xE7, CHR 0xE3]
     @ ''o''"

definition msgArmExtended :: string where
  "msgArmExtended = ''Bra'' @ [CHR 0xE7] @ ''o estendido - inicie a puxada''"

definition msgPullTooShort :: string where
  "msgPullTooShort = ''Puxada muito curta - estenda mais o bra'' @ [CHR 0xE7] @ ''o''"

definition msgElbowClose :: string where
  "msgElbowClose = ''Mantenha o cotovelo pr'' @ [CHR 0xF3] @ ''ximo ao corpo''"

definition msgStartPosition :: string where
  "msgStartPosition = ''Posi'' @ [CHR 0xE7, CHR 0xE3] @ ''o inicial - des'' @ [CHR 0xE7]
     @ ''a controladamente''"

definition msgFullDepthSquat :: string where
  "msgFullDepthSquat = ''Profundidade completa! Excelente''"

definition msgParallel :: string where
  "msgParallel = ''Boa profundidade - paralelo atingido''"

definition msgGoDeeper :: string where
  "msgGoDeeper = ''Des'' @ [CHR 0xE7] @ ''a um pouco mais para profundidade ideal''"

definition msgChestUp :: string where
  "msgChestUp = ''Mantenha o peito erguido - costas muito inclinadas''"

definition msgLeaningBack :: string where
  "msgLeaningBack = ''N'' @ [CHR 0xE3] @ ''o incline para tr'' @ [CHR 0xE1] @ ''s demais''"

definition msgKneeOverToe :: string where
  "msgKneeOverToe = ''Joelho ultrapassando a ponta do p'' @ [CHR 0xE9]"

definition msgDistributeWeight :: string where
  "msgDistributeWeight = ''Distribua o peso uniformemente entre as pernas''"

definition msgHipCentered :: string where
  "msgHipCentered = ''Mantenha o quadril centralizado''"

definition msgFullDepthPushUp :: string where
  "msgFullDepthPushUp = ''Profundidade completa! '' @ [CHR 0xD3] @ ''tima execu''
     @ [CHR 0xE7, CHR 0xE3] @ ''o''"

definition msgGoodDepth :: string where
  "msgGoodDepth = ''Boa profundidade - continue''"

definition msgUseFullRange :: string where
  "msgUseFullRange = ''Des'' @ [CHR 0xE7] @ ''a mais para aproveitar o movimento completo''"

definition msgHipTooHigh :: string where
  "msgHipTooHigh = ''Quadril muito alto - mantenha o corpo reto''"

definition msgHipSagging :: string where
  "msgHipSagging = ''Quadril ca'' @ [CHR 0xED] @ ''do - ative o core''"

definition msgBodyAligned :: string where
  "msgBodyAligned = ''Alinhamento corporal perfeito''"

definition msgElbowsFlared :: string where
  "msgElbowsFlared = ''Cotovelos muito abertos - aproxime do corpo''"

definition msgUnrecognized :: string where
  "msgUnrecognized = ''Exerc'' @ [CHR 0xED] @ ''cio n'' @ [CHR 0xE3] @ ''o reconhecido''"

text \<open>
  The body of \<open>analyzeBackRow\<close> after the landmarks are read and the elbow angle is
  known. The variables \<open>feedback\<close> and \<open>quality\<close> of the source are updated rule by
  rule; the numbered names are their successive values.
\<close>

definition backRowForm ::
  "Point \<Rightarrow> Point \<Rightarrow> Point \<Rightarrow> Point \<Rightarrow> Point \<Rightarrow> Point \<Rightarrow> real \<Rightarrow> real \<Rightarrow> real
     \<Rightarrow> BiomechanicalAnalysis" where
  "backRowForm shoulder elbow wrist hip ankle shoulderR conf elbowAngle elbowConfidence =
     (let torsoAngle = calculateAngle2D shoulder hip ankle;
          (feedback1, quality1) =
            (if torsoAngle > 160
             then ([msgInclineForward], 100 - 15)
             else if torsoAngle < 100
             then ([msgProtectLumbar], 100 - 20)
             else if torsoAngle \<ge> 120 \<and> torsoAngle \<le> 150
             then ([msgTorsoPerfect], 100)
             else ([], 100 :: real));
          shoulderYDist = \<bar>py shoulder - py shoulderR\<bar>;
          shoulderZDist = \<bar>orElse (pz shoulder) 0 - orElse (pz shoulderR) 0\<bar>;
          (feedback2, quality2) =
            (if shoulderYDist > 0.05 \<or> shoulderZDist > 0.1
             then (feedback1 @ [msgShouldersAligned], quality1 - 15)
             else (feedback1, quality1));
          (feedback3, quality3) =
            (if elbowAngle > 160
             then (feedback2 @ [msgArmExtended],
                   quality2)
             else if elbowAngle < 60
             then (feedback2 @ [msgPullTooShort], quality2 - 10)
             else (feedback2, quality2));
          elbowTorsoDistance = calculateDistance2D elbow hip;
          (feedback4, quality4) =
            (if elbowTorsoDistance > 0.15
             then (feedback3 @ [msgElbowClose],
                   quality3 - 10)
             else (feedback3, quality3));
          phase' = (if elbowAngle > 150 then eccentric
                    else if elbowAngle < 90 then concentric else isometric)
      in \<lparr>feedback = feedback4,
          metrics = [''elbowAngle'' \<mapsto> elbowAngle, ''elbowConfidence'' \<mapsto> elbowConfidence,
                     ''torsoAngle'' \<mapsto> torsoAngle, ''shoulderAlignment'' \<mapsto> shoulderYDist,
                     ''shoulderRotation'' \<mapsto> shoulderZDist,
                     ''elbowProximity'' \<mapsto> elbowTorsoDistance],
          phase = phase', isValid = True,
          quality = max 0 (jsRound quality4), confidence = conf\<rparr>)"

definition analyzeBackRow :: "Point list \<Rightarrow> error + BiomechanicalAnalysis" where
  "analyzeBackRow landmarks =
     (let requiredPoints = backRowRequired
      in if \<not> validateLandmarks landmarks requiredPoints
         then Inr (notEvaluable sidewaysInstruction)
         else
           withLandmark landmarks 11 (\<lambda>shoulder.
           withLandmark landmarks 13 (\<lambda>elbow.
           withLandmark landmarks 15 (\<lambda>wrist.
           withLandmark landmarks 23 (\<lambda>hip.
           withLandmark landmarks 27 (\<lambda>ankle.
           withLandmark landmarks 12 (\<lambda>shoulderR.
             (let conf = getAverageConfidence landmarks requiredPoints;
                  elbowResult = calculateWeightedAngle shoulder elbow wrist
              in withFinite (fst elbowResult) (\<lambda>elbowAngle.
                   Inr (backRowForm shoulder elbow wrist hip ankle shoulderR conf
                          elbowAngle (snd elbowResult)))))))))))"

text \<open>The body of \<open>analyzeSquat\<close>, given the landmarks and the three angles.\<close>

definition squatForm ::
  "Point \<Rightarrow> Point \<Rightarrow> Point \<Rightarrow> Point \<Rightarrow> Point \<Rightarrow> Point \<Rightarrow> Point \<Rightarrow> real \<Rightarrow> real \<Rightarrow> real
     \<Rightarrow> real \<Rightarrow> real \<Rightarrow> BiomechanicalAnalysis" where
  "squatForm shoulder hipL hipR kneeL kneeR ankleL ankleR conf kneeAngle kneeConfidence
     torsoAngle kneeAngleR =
     (let (feedback1, quality1) =
            (if kneeAngle > 160
             then ([msgStartPosition], 100)
             else if kneeAngle < 90
             then ([msgFullDepthSquat], 100)
             else if kneeAngle < 120
             then ([msgParallel], 100)
             else if kneeAngle < 140
             then ([msgGoDeeper],
                   100 - 10)
             else ([], 100 :: real));
          (feedback2, quality2) =
            (if torsoAngle < 140
             then (feedback1 @ [msgChestUp],
                   quality1 - 15)
             else if torsoAngle > 180
             then (feedback1 @ [msgLeaningBack], quality1 - 10)
             else (feedback1, quality1));
          kneeAnkleDist = calculateDistance2D kneeL ankleL;
          kneeForwardRatio = (px kneeL - px ankleL) / max kneeAnkleDist 0.01;
          (feedback3, quality3) =
            (if \<bar>kneeForwardRatio\<bar> > 0.3
             then (feedback2 @ [msgKneeOverToe],
                   quality2 - 15)
             else (feedback2, quality2));
          asymmetry = \<bar>kneeAngle - kneeAngleR\<bar>;
          (feedback4, quality4) =
            (if asymmetry > 15
             then (feedback3 @ [msgDistributeWeight],
                   quality3 - min 20 (jsRound (asymmetry * 0.5)))
             else (feedback3, quality3));
          hipCenterX = (px hipL + px hipR) / 2;
          ankleCenterX = (px ankleL + px ankleR) / 2;
          lateralShift = \<bar>hipCenterX - ankleCenterX\<bar>;
          (feedback5, quality5) =
            (if lateralShift > 0.08
             then (feedback4 @ [msgHipCentered], quality4 - 10)
             else (feedback4, quality4));
          phase' = (if kneeAngle > 150 then rest
                    else if kneeAngle < 110 then concentric else eccentric)
      in \<lparr>feedback = feedback5,
          metrics = [''kneeAngle'' \<mapsto> kneeAngle, ''kneeConfidence'' \<mapsto> kneeConfidence,
                     ''torsoAngle'' \<mapsto> torsoAngle, ''kneeForwardRatio'' \<mapsto> kneeForwardRatio,
                     ''legAsymmetry'' \<mapsto> asymmetry, ''lateralShift'' \<mapsto> lateralShift],
          phase = phase', isValid = True,
          quality = max 0 (jsRound quality5), confidence = conf\<rparr>)"

definition analyzeSquat :: "Point list \<Rightarrow> error + BiomechanicalAnalysis" where
  "analyzeSquat landmarks =
     (let requiredPoints = squatRequired
      in if \<not> validateLandmarks landmarks requiredPoints
         then Inr (notEvaluable frontInstruction)
         else
           withLandmark landmarks 11 (\<lambda>shoulder.
           withLandmark landmarks 23 (\<lambda>hipL.
           withLandmark landmarks 24 (\<lambda>hipR.
           withLandmark landmarks 25 (\<lambda>kneeL.
           withLandmark landmarks 26 (\<lambda>kneeR.
           withLandmark landmarks 27 (\<lambda>ankleL.
           withLandmark landmarks 28 (\<lambda>ankleR.
             (let conf = getAverageConfidence landmarks requiredPoints;
                  kneeResult = calculateWeightedAngle hipL kneeL ankleL
              in withFinite (fst kneeResult) (\<lambda>kneeAngle.
                 withFinite (calculateAngle shoulder hipL kneeL) (\<lambda>torsoAngle.
                 withFinite (calculateAngle hipR kneeR ankleR) (\<lambda>kneeAngleR.
                   Inr (squatForm shoulder hipL hipR kneeL kneeR ankleL ankleR conf
                          kneeAngle (snd kneeResult) torsoAngle kneeAngleR)))))))))))))"

text \<open>The body of \<open>analyzePushUp\<close>, given the landmarks, the elbow angle and the
  distance of the hip from the line through shoulder and ankle.\<close>

definition pushUpForm ::
  "Point \<Rightarrow> Point \<Rightarrow> Point \<Rightarrow> Point \<Rightarrow> Point \<Rightarrow> real \<Rightarrow> real \<Rightarrow> real \<Rightarrow> real
     \<Rightarrow> BiomechanicalAnalysis" where
  "pushUpForm shoulder elbow wrist hip ankle conf elbowAngle elbowConfidence
     hipLineDeviation =
     (let (feedback1, quality1) =
            (if elbowAngle > 160
             then ([msgStartPosition], 100 :: real)
             else if elbowAngle < 90
             then ([msgFullDepthPushUp], 100)
             else if elbowAngle < 120
             then ([msgGoodDepth], 100)
             else ([msgUseFullRange],
                   100 - 15));
          bodyAngle = calculateAngle2D shoulder hip ankle;
          (feedback2, quality2) =
            (if hipLineDeviation > 0.05 \<or> bodyAngle < 160
             then (feedback1 @ [msgHipTooHigh],
                   quality1 - 20)
             else if bodyAngle > 190
             then (feedback1 @ [msgHipSagging],
                   quality1 - 20)
             else (feedback1 @ [msgBodyAligned], quality1));
          elbowShoulderDist = calculateDistance elbow shoulder;
          elbowFlare = \<bar>px elbow - px shoulder\<bar>;
          (feedback3, quality3) =
            (if elbowFlare > 0.15
             then (feedback2 @ [msgElbowsFlared],
                   quality2 - 10)
             else (feedback2, quality2));
          elbowDepthDiff = orElse (pz elbow) 0 - orElse (pz shoulder) 0;
          phase' = (if elbowAngle > 150 then rest
                    else if elbowAngle < 110 then concentric else eccentric)
      in \<lparr>feedback = feedback3,
          metrics = [''elbowAngle'' \<mapsto> elbowAngle, ''elbowConfidence'' \<mapsto> elbowConfidence,
                     ''hipDeviation'' \<mapsto> hipLineDeviation, ''bodyAlignment'' \<mapsto> bodyAngle,
                     ''elbowFlare'' \<mapsto> elbowFlare, ''elbowShoulderDist'' \<mapsto> elbowShoulderDist,
                     ''elbowDepth'' \<mapsto> elbowDepthDiff],
          phase = phase', isValid = True,
          quality = max 0 (jsRound quality3), confidence = conf\<rparr>)"

definition analyzePushUp :: "Point list \<Rightarrow> error + BiomechanicalAnalysis" where
  "analyzePushUp landmarks =
     (let requiredPoints = pushUpRequired
      in if \<not> validateLandmarks landmarks requiredPoints
         then Inr (notEvaluable sidewaysInstruction)
         else
           withLandmark landmarks 11 (\<lambda>shoulder.
           withLandmark landmarks 13 (\<lambda>elbow.
           withLandmark landmarks 15 (\<lambda>wrist.
           withLandmark landmarks 23 (\<lambda>hip.
           withLandmark landmarks 27 (\<lambda>ankle.
             (let conf = getAverageConfidence landmarks requiredPoints;
                  elbowResult = calculateWeightedAngle shoulder elbow wrist
              in withFinite (fst elbowResult) (\<lambda>elbowAngle.
                 withFinite (pointToLineDistance hip shoulder ankle) (\<lambda>hipLineDeviation.
                   Inr (pushUpForm shoulder elbow wrist hip ankle conf elbowAngle
                          (snd elbowResult) hipLineDeviation))))))))))"

definition analyzeExercise :: "string \<Rightarrow> Point list \<Rightarrow> error + BiomechanicalAnalysis" where
  "analyzeExercise exercise landmarks =
     (let exerciseLower = toLowerCase exercise
      in if includesStr exerciseLower ''remada'' \<or> includesStr exerciseLower ''row''
         then analyzeBackRow landmarks
         else if includesStr exerciseLower ''agachamento'' \<or> includesStr exerciseLower ''squat''
         then analyzeSquat landmarks
         else if includesStr exerciseLower (''flex'' @ [CHR 0xE3] @ ''o'')
                 \<or> includesStr exerciseLower ''push'' \<or> includesStr exerciseLower ''pushup''
         then analyzePushUp landmarks
         else Inr \<lparr>feedback = [msgUnrecognized],
                    metrics = Map.empty, phase = rest, isValid = False, quality = 0,
                    confidence = 0\<rparr>)"

text \<open>A required landmark is missing: it is absent from the frame, or its visibility
  is given and below 0.5.\<close>

definition absentOrHidden :: "Point list \<Rightarrow> nat \<Rightarrow> bool" where
  "absentOrHidden landmarks i =
     (case landmarkAt landmarks i of
        None \<Rightarrow> True
      | Some point \<Rightarrow> (case visibility point of None \<Rightarrow> False | Some v \<Rightarrow> v < 0.5))"

text \<open>
  A frame of 29 fully visible landmarks of a person standing upright, facing the camera:
  the left leg is straight, the right shin is turned outwards by about 15 degrees.
  \<open>hiddenKneeFrame\<close> is the same frame with the left knee at visibility 0.3.
\<close>

definition landmark :: "real \<Rightarrow> real \<Rightarrow> Point" where
  "landmark xc yc = \<lparr>px = xc, py = yc, pz = Some 0, visibility = Some 1\<rparr>"

definition unevenSquatFrame :: "Point list" where
  "unevenSquatFrame =
     (replicate 29 (landmark 0.5 0.1))
       [11 := landmark 0.4 0.2, 23 := landmark 0.4 0.5, 24 := landmark 0.6 0.5,
        25 := landmark 0.4 0.7, 26 := landmark 0.6 0.7, 27 := landmark 0.4 0.9,
        28 := landmark 0.66 0.921]"

definition hiddenKneeFrame :: "Point list" where
  "hiddenKneeFrame = unevenSquatFrame [25 := (landmark 0.4 0.7)\<lparr>visibility := Some 0.3\<rparr>]"

section \<open>Temporal smoother\<close>

definition decay :: real where
  "decay = 0.8"

text \<open>The \<open>for\<close> loop of \<open>smoothMetric\<close>: \<open>i\<close> runs over the buffer and the two
  accumulators are threaded through.\<close>

function smoothLoop :: "SmoothingBuffer \<Rightarrow> nat \<Rightarrow> real \<Rightarrow> real \<Rightarrow> real \<times> real" where
  "smoothLoop buffer i weightedSum totalWeight =
     (if i < length (vals buffer)
      then (let recency = decay ^ (length (vals buffer) - 1 - i);
                weight = (weights buffer ! i) * recency
            in smoothLoop buffer (i + 1)
                 (weightedSum + (vals buffer ! i) * weight) (totalWeight + weight))
      else (weightedSum, totalWeight))"
  by pat_completeness auto
termination
  by (relation "measure (\<lambda>(buffer, i, ws, tw). length (vals buffer) - i)") auto

declare smoothLoop.simps [simp del]

text \<open>\<open>push\<close> on both arrays, then one \<open>shift\<close> on both when the values are more than
  \<open>BUFFER_SIZE\<close>.\<close>

definition pushBuffer :: "SmoothingBuffer \<Rightarrow> real \<Rightarrow> real \<Rightarrow> SmoothingBuffer" where
  "pushBuffer buffer v c =
     (let pushed = \<lparr>vals = vals buffer @ [v], weights = weights buffer @ [c]\<rparr>
      in if length (vals pushed) > BUFFER_SIZE
         then \<lparr>vals = tl (vals pushed), weights = tl (weights pushed)\<rparr>
         else pushed)"

definition smoothMetric :: "SmoothingBuffer \<Rightarrow> real \<Rightarrow> real \<Rightarrow> SmoothingBuffer \<times> real" where
  "smoothMetric buffer0 v c =
     (let buffer = pushBuffer buffer0 v c;
          (weightedSum, totalWeight) = smoothLoop buffer 0 0 0
      in (buffer, if totalWeight > 0 then weightedSum / totalWeight else v))"

text \<open>The buffer as the hook creates it and as a change of exercise resets it.\<close>

definition emptyBuffer :: SmoothingBuffer where
  "emptyBuffer = \<lparr>vals = [], weights = []\<rparr>"

text \<open>A sequence of calls of \<open>smoothMetric\<close>: the buffer after the last one.\<close>

fun pushAll :: "SmoothingBuffer \<Rightarrow> (real \<times> real) list \<Rightarrow> SmoothingBuffer" where
  "pushAll buffer [] = buffer"
| "pushAll buffer ((v, c) # ps) = pushAll (fst (smoothMetric buffer v c)) ps"




definition lastN :: "nat \<Rightarrow> 'a list \<Rightarrow> 'a list" where
  "lastN n xs = drop (length xs - n) xs"

section \<open>Repetition state machine\<close>

definition thresholds :: "(string \<times> Thresholds) list" where
  "thresholds =
     [(''remada'', \<lparr>up = 150, down = 80, hysteresis = 10\<rparr>),
      (''agachamento'', \<lparr>up = 150, down = 100, hysteresis = 10\<rparr>),
      (''flex'' @ [CHR 0xE3] @ ''o'', \<lparr>up = 150, down = 90, hysteresis = 8\<rparr>),
      (''levantamento terra'', \<lparr>up = 160, down = 120, hysteresis = 10\<rparr>),
      (''supino'', \<lparr>up = 160, down = 80, hysteresis = 8\<rparr>),
      (''default'', \<lparr>up = 150, down = 90, hysteresis = 10\<rparr>)]"

definition defaultThresholds :: Thresholds where
  "defaultThresholds = \<lparr>up = 150, down = 90, hysteresis = 10\<rparr>"

definition getThresholds :: "string \<Rightarrow> Thresholds" where
  "getThresholds selectedExercise =
     (let exerciseLower = toLowerCase selectedExercise
      in case find (\<lambda>(key, value). includesStr exerciseLower key) thresholds of
           Some (key, value) \<Rightarrow> value
         | None \<Rightarrow> defaultThresholds)"

definition getPrimaryAngle :: "string \<Rightarrow> BiomechanicalAnalysis \<Rightarrow> real \<times> real" where
  "getPrimaryAngle selectedExercise analysis =
     (let exerciseLower = toLowerCase selectedExercise; m = metrics analysis
      in if includesStr exerciseLower ''remada''
            \<or> includesStr exerciseLower (''flex'' @ [CHR 0xE3] @ ''o'')
            \<or> includesStr exerciseLower ''supino''
         then (orElse (m ''elbowAngle'') 180, orElse (m ''elbowConfidence'') (confidence analysis))
         else if includesStr exerciseLower ''agachamento''
         then (orElse (m ''kneeAngle'') 180, orElse (m ''kneeConfidence'') (confidence analysis))
         else if includesStr exerciseLower ''terra''
         then (orElse (m ''hipAngle'') 180, confidence analysis)
         else (orElse (m ''elbowAngle'') (orElse (m ''kneeAngle'') 180), confidence analysis))"

text \<open>
  The chain of \<open>if\<close>/\<open>else if\<close> of \<open>detectRep\<close> on the smoothed angle, with the
  thresholds and the clock reading already taken. The result is the session after the
  step and the value \<open>detectRep\<close> returns.
\<close>

definition repStateMachine ::
  "Thresholds \<Rightarrow> real \<Rightarrow> int \<Rightarrow> BiomechanicalAnalysis \<Rightarrow> Session \<Rightarrow> Session \<times> bool" where
  "repStateMachine th smoothed now analysis s =
     (if repState s = UP \<and> smoothed < down th - hysteresis th
      then (s\<lparr>repState := TRANSITIONING, repStartTime := now\<rparr>, False)
      else if repState s = TRANSITIONING \<and> smoothed > up th + hysteresis th
      then (let dur = real_of_int (now - repStartTime s) / 1000
            in if now - lastRepTime s < 500 then (s, False)
               else if dur < 0.3 \<or> dur > 10 then (s\<lparr>repState := UP\<rparr>, False)
               else (let repData = \<lparr>count = repCountRef s + 1, duration = dur,
                                     repQuality = quality analysis, timestamp = now,
                                     repConfidence = confidence analysis\<rparr>;
                         history = repHistory s @ [repData];
                         qs = qualitySum s + quality analysis;
                         cs = confidenceSum s + confidence analysis
                     in (s\<lparr>repState := UP, lastRepTime := now, repHistory := history,
                           qualitySum := qs, confidenceSum := cs,
                           lastRepDuration := dur,
                           avgQuality := qs / real (length history),
                           avgConfidence := cs / real (length history)\<rparr>, True)))
      else if repState s = DOWN \<and> smoothed > up th + hysteresis th
      then (s\<lparr>repState := UP\<rparr>, False)
      else if repState s = TRANSITIONING \<and> smoothed < down th - hysteresis th * 2
      then (s\<lparr>repState := DOWN\<rparr>, False)
      else (s, False))"

text \<open>\<open>detectRep\<close>: the guards, the smoothing of the primary angle and the state
  machine. The field \<open>metrics\<close> of an analysis is always an object, so the test
  \<open>!analysis.metrics\<close> of the first guard is never true.\<close>

definition detectRep ::
  "string \<Rightarrow> int \<Rightarrow> BiomechanicalAnalysis \<Rightarrow> Session \<Rightarrow> Session \<times> bool" where
  "detectRep selectedExercise now analysis s =
     (if \<not> isValid analysis then (s, False)
      else if confidence analysis < MIN_CONFIDENCE_THRESHOLD then (s, False)
      else (let (primaryAngle, conf) = getPrimaryAngle selectedExercise analysis;
                (buffer, smoothed) = smoothMetric (metricBuffer s) primaryAngle conf
            in repStateMachine (getThresholds selectedExercise) smoothed now analysis
                 (s\<lparr>metricBuffer := buffer\<rparr>)))"

text \<open>The part of \<open>analyze\<close> that follows the call of the analyzer: the phase is
  published, \<open>detectRep\<close> runs, and a detected repetition increments the counter
  (\<open>countRep\<close>).\<close>

definition countRep :: "Session \<times> bool \<Rightarrow> Session" where
  "countRep r =
     (case r of (s, repDetected) \<Rightarrow>
        if repDetected
        then s\<lparr>repCountRef := repCountRef s + 1, repCount := repCountRef s + 1\<rparr>
        else s)"

definition analyzeStep ::
  "string \<Rightarrow> int \<Rightarrow> BiomechanicalAnalysis \<Rightarrow> Session \<Rightarrow> Session" where
  "analyzeStep selectedExercise now analysis s =
     (if isValid analysis
      then countRep (detectRep selectedExercise now analysis (s\<lparr>currentPhase := phase analysis\<rparr>))
      else s)"

text \<open>The caller's loop: \<open>analyze\<close> runs once per frame, here on a list of clock readings
  and analyses.\<close>

fun runFrames :: "string \<Rightarrow> (int \<times> BiomechanicalAnalysis) list \<Rightarrow> Session \<Rightarrow> Session" where
  "runFrames selectedExercise [] s = s"
| "runFrames selectedExercise ((now, analysis) # frames) s =
     runFrames selectedExercise frames (analyzeStep selectedExercise now analysis s)"

text \<open>The state machine driven directly by smoothed angles, each with its clock reading,
  counting the repetitions as \<open>analyze\<close> does.\<close>

fun feedSmoothed ::
  "Thresholds \<Rightarrow> BiomechanicalAnalysis \<Rightarrow> (int \<times> real) list \<Rightarrow> Session \<Rightarrow> Session" where
  "feedSmoothed th analysis [] s = s"
| "feedSmoothed th analysis ((now, smoothed) # samples) s =
     feedSmoothed th analysis samples (countRep (repStateMachine th smoothed now analysis s))"

text \<open>A valid squat analysis that carries the knee angle \<open>a\<close> with confidence 1.\<close>

definition kneeSample :: "real \<Rightarrow> BiomechanicalAnalysis" where
  "kneeSample a =
     \<lparr>feedback = [], metrics = [''kneeAngle'' \<mapsto> a, ''kneeConfidence'' \<mapsto> 1],
      phase = rest, isValid = True, quality = 100, confidence = 1\<rparr>"

text \<open>
  Frames of a squat session at about 25 Hz around two quick repetitions: the knee angle
  drops to 80, returns to 180, drops to 10 and returns to 180.
\<close>

definition debounceFrames :: "(int \<times> BiomechanicalAnalysis) list" where
  "debounceFrames =
     [(1000000, kneeSample 80), (1000100, kneeSample 180), (1000200, kneeSample 180),
      (1000400, kneeSample 180), (1000440, kneeSample 10), (1000480, kneeSample 10),
      (1000520, kneeSample 180), (1000560, kneeSample 180), (1000600, kneeSample 180),
      (1000640, kneeSample 180)]"

section \<open>Double-precision arithmetic\<close>

text \<open>
  The sections above compute with exact real numbers. The numbers of the program are
  IEEE 754 binary64 values: every operation returns its exact result rounded to the
  nearest double, a tie to the even significand, and a result beyond the largest double
  is an infinity. This section gives that arithmetic, and with it the angle function and
  the smoother, whose results depend on the rounding and on the overflow.

  \<open>roundEven\<close> rounds to the nearest integer, a tie to the even one. \<open>expo x\<close> is the
  exponent of the binade of \<open>x\<close>, not below \<open>-1022\<close>, the exponent of the subnormal
  numbers; \<open>ulp x\<close> is the spacing of the doubles in that binade; \<open>rd x\<close> is the double
  nearest to \<open>x\<close> when the exponent has no upper bound; \<open>fl x\<close> is the result of an
  operation whose exact value is \<open>x\<close>, an infinity when \<open>rd x\<close> reaches \<open>2 ^ 1024\<close>.
  The sign of a zero is not recorded: \<open>Fin 0\<close> stands for both zeros.
\<close>

definition roundEven :: "real \<Rightarrow> int" where
  "roundEven q =
     (let f = \<lfloor>q\<rfloor>
      in if q - of_int f < 1 / 2 then f
         else if q - of_int f > 1 / 2 then f + 1
         else if even f then f else f + 1)"

definition expo :: "real \<Rightarrow> int" where
  "expo x = max (- 1022) (bitlen \<lfloor>\<bar>x\<bar> * 2 ^ 1074\<rfloor> - 1075)"

definition ulp :: "real \<Rightarrow> real" where
  "ulp x = 2 powi (expo x - 52)"

definition rd :: "real \<Rightarrow> real" where
  "rd x = of_int (roundEven (x / ulp x)) * ulp x"

definition fl :: "real \<Rightarrow> jsnum" where
  "fl x =
     (let r = rd x
      in if 2 powi 1024 \<le> r then PosInf
         else if r \<le> - (2 powi 1024) then NegInf
         else Fin r)"

text \<open>
  The operators \<open>+\<close>, \<open>*\<close> and \<open>/\<close> on numbers that may be infinite or NaN, as the
  standard gives them. A quotient by zero takes the sign of its dividend: the divisors in
  the two functions below are a product of square roots and a positive total weight, never
  a negative zero. \<open>Math.sqrt\<close> is correctly rounded; \<open>Math.acos\<close> and \<open>Math.pow\<close> are
  taken as correctly rounded as well. \<open>jsGreater a y\<close> is the comparison \<open>a > y\<close>, false
  for NaN. \<open>MathPI\<close> is \<open>Math.PI\<close>, the double nearest to \<open>\<pi>\<close>.
\<close>

fun flAdd :: "jsnum \<Rightarrow> jsnum \<Rightarrow> jsnum" where
  "flAdd (Fin x) (Fin y) = fl (x + y)"
| "flAdd (Fin x) PosInf = PosInf"
| "flAdd (Fin x) NegInf = NegInf"
| "flAdd PosInf (Fin y) = PosInf"
| "flAdd PosInf PosInf = PosInf"
| "flAdd PosInf NegInf = NaN"
| "flAdd NegInf (Fin y) = NegInf"
| "flAdd NegInf PosInf = NaN"
| "flAdd NegInf NegInf = NegInf"
| "flAdd NaN b = NaN"
| "flAdd a NaN = NaN"

fun flMul :: "jsnum \<Rightarrow> jsnum \<Rightarrow> jsnum" where
  "flMul (Fin x) (Fin y) = fl (x * y)"
| "flMul (Fin x) PosInf = (if 0 < x then PosInf else if x < 0 then NegInf else NaN)"
| "flMul (Fin x) NegInf = (if 0 < x then NegInf else if x < 0 then PosInf else NaN)"
| "flMul PosInf (Fin y) = (if 0 < y then PosInf else if y < 0 then NegInf else NaN)"
| "flMul NegInf (Fin y) = (if 0 < y then NegInf else if y < 0 then PosInf else NaN)"
| "flMul PosInf PosInf = PosInf"
| "flMul PosInf NegInf = NegInf"
| "flMul NegInf PosInf = NegInf"
| "flMul NegInf NegInf = PosInf"
| "flMul NaN b = NaN"
| "flMul a NaN = NaN"

fun flDiv :: "jsnum \<Rightarrow> jsnum \<Rightarrow> jsnum" where
  "flDiv (Fin x) (Fin y) =
     (if y \<noteq> 0 then fl (x / y)
      else if 0 < x then PosInf else if x < 0 then NegInf else NaN)"
| "flDiv (Fin x) PosInf = Fin 0"
| "flDiv (Fin x) NegInf = Fin 0"
| "flDiv PosInf (Fin y) = (if 0 \<le> y then PosInf else NegInf)"
| "flDiv NegInf (Fin y) = (if 0 \<le> y then NegInf else PosInf)"
| "flDiv PosInf PosInf = NaN"
| "flDiv PosInf NegInf = NaN"
| "flDiv NegInf PosInf = NaN"
| "flDiv NegInf NegInf = NaN"
| "flDiv NaN b = NaN"
| "flDiv a NaN = NaN"

fun flSqrt :: "jsnum \<Rightarrow> jsnum" where
  "flSqrt (Fin x) = (if 0 \<le> x then fl (sqrt x) else NaN)"
| "flSqrt PosInf = PosInf"
| "flSqrt NegInf = NaN"
| "flSqrt NaN = NaN"

fun flAcos :: "jsnum \<Rightarrow> jsnum" where
  "flAcos (Fin x) = (if - 1 \<le> x \<and> x \<le> 1 then fl (arccos x) else NaN)"
| "flAcos PosInf = NaN"
| "flAcos NegInf = NaN"
| "flAcos NaN = NaN"

definition flPow :: "real \<Rightarrow> nat \<Rightarrow> jsnum" where
  "flPow x n = fl (x ^ n)"

fun jsGreater :: "jsnum \<Rightarrow> real \<Rightarrow> bool" where
  "jsGreater (Fin x) y = (y < x)"
| "jsGreater PosInf y = True"
| "jsGreater NegInf y = False"
| "jsGreater NaN y = False"

definition MathPI :: real where
  "MathPI = 884279719003555 / 281474976710656"

text \<open>
  \<open>calculateAngle\<close> in double precision. The coordinates of the landmarks are finite;
  the differences, the products, the sums, the square roots and the quotient are rounded,
  and each of them may be an infinity or NaN. The test \<open>magBA === 0\<close> holds for a zero and
  for no other number.
\<close>

record VectorFl =
  wx :: jsnum
  wy :: jsnum
  wz :: jsnum

definition subtractVectorsFl :: "Vector3D \<Rightarrow> Vector3D \<Rightarrow> VectorFl" where
  "subtractVectorsFl a b =
     \<lparr>wx = fl (vx a - vx b), wy = fl (vy a - vy b), wz = fl (vz a - vz b)\<rparr>"

definition dotProductFl :: "VectorFl \<Rightarrow> VectorFl \<Rightarrow> jsnum" where
  "dotProductFl a b =
     flAdd (flAdd (flMul (wx a) (wx b)) (flMul (wy a) (wy b))) (flMul (wz a) (wz b))"

definition magnitudeFl :: "VectorFl \<Rightarrow> jsnum" where
  "magnitudeFl v =
     flSqrt (flAdd (flAdd (flMul (wx v) (wx v)) (flMul (wy v) (wy v))) (flMul (wz v) (wz v)))"

definition calculateAngleFl :: "Point \<Rightarrow> Point \<Rightarrow> Point \<Rightarrow> jsnum" where
  "calculateAngleFl a b c =
     (let va = toVector3D a; vb = toVector3D b; vc = toVector3D c;
          ba = subtractVectorsFl va vb; bc = subtractVectorsFl vc vb;
          dot = dotProductFl ba bc; magBA = magnitudeFl ba; magBC = magnitudeFl bc
      in if magBA = Fin 0 \<or> magBC = Fin 0 then Fin 0
         else (let cosAngle = jsMax (- 1) (jsMin 1 (flDiv dot (flMul magBA magBC)))
               in flMul (flAcos cosAngle) (flDiv (Fin 180) (Fin MathPI))))"

text \<open>
  A landmark of moderate size has its three coordinates at most \<open>2 ^ 500\<close> in absolute
  value. \<open>point3\<close> is the landmark with the given coordinates.
\<close>

definition moderate :: "Point \<Rightarrow> bool" where
  "moderate p =
     (\<bar>px p\<bar> \<le> 2 powi 500 \<and> \<bar>py p\<bar> \<le> 2 powi 500 \<and> \<bar>orElse (pz p) 0\<bar> \<le> 2 powi 500)"

definition point3 :: "real \<Rightarrow> real \<Rightarrow> real \<Rightarrow> Point" where
  "point3 x y z = \<lparr>px = x, py = y, pz = Some z, visibility = None\<rparr>"

text \<open>
  \<open>smoothMetric\<close> in double precision. The buffer is handled as above; the literal \<open>0.8\<close>
  is the double \<open>rd decay\<close>, and the weight, the product and the two accumulators are
  rounded at every step of the loop.
\<close>

function smoothLoopFl :: "SmoothingBuffer \<Rightarrow> nat \<Rightarrow> jsnum \<Rightarrow> jsnum \<Rightarrow> jsnum \<times> jsnum" where
  "smoothLoopFl buffer i weightedSum totalWeight =
     (if i < length (vals buffer)
      then (let recency = flPow (rd decay) (length (vals buffer) - 1 - i);
                weight = flMul (Fin (weights buffer ! i)) recency
            in smoothLoopFl buffer (i + 1)
                 (flAdd weightedSum (flMul (Fin (vals buffer ! i)) weight))
                 (flAdd totalWeight weight))
      else (weightedSum, totalWeight))"
  by pat_completeness auto
termination
  by (relation "measure (\<lambda>(buffer, i, ws, tw). length (vals buffer) - i)") auto

declare smoothLoopFl.simps [simp del]

definition smoothMetricFl :: "SmoothingBuffer \<Rightarrow> real \<Rightarrow> real \<Rightarrow> SmoothingBuffer \<times> jsnum" where
  "smoothMetricFl buffer0 v c =
     (let buffer = pushBuffer buffer0 v c;
          (weightedSum, totalWeight) = smoothLoopFl buffer 0 (Fin 0) (Fin 0)
      in (buffer, if jsGreater totalWeight 0 then flDiv weightedSum totalWeight else Fin v))"

fun pushAllFl :: "SmoothingBuffer \<Rightarrow> (real \<times> real) list \<Rightarrow> SmoothingBuffer" where
  "pushAllFl buffer [] = buffer"
| "pushAllFl buffer ((v, c) # ps) = pushAllFl (fst (smoothMetricFl buffer v c)) ps"

section \<open>The geometry primitives\<close>

lemma magnitude_nonneg: "0 \<le> magnitude v"
  by (simp add: magnitude_def)

text \<open>With a divisor that is not zero the clamped quotient lies in \<open>[-1, 1]\<close>, its arc
  cosine in \<open>[0, \<pi>]\<close>, and the angle in degrees in \<open>[0, 180]\<close>.\<close>

lemma clamped_angle:
  assumes "d \<noteq> 0"
  shows "\<exists>r. jsTimes (jsAcos (jsMax (- 1) (jsMin 1 (jsDiv n d)))) (180 / pi) = Fin r
             \<and> 0 \<le> r \<and> r \<le> 180"
proof -
  let ?q = "max (- 1) (min 1 (n / d))"
  have range: "- 1 \<le> ?q" "?q \<le> 1" by simp_all
  have eq: "jsTimes (jsAcos (jsMax (- 1) (jsMin 1 (jsDiv n d)))) (180 / pi)
      = Fin (arccos ?q * (180 / pi))"
    using assms range by (simp add: jsDiv_def)
  have "0 \<le> arccos ?q" "arccos ?q \<le> pi"
    using range by (simp_all add: arccos_lbound arccos_ubound)
  then have "0 \<le> arccos ?q * (180 / pi)" "arccos ?q * (180 / pi) \<le> 180"
    by (simp_all add: field_simps)
  with eq show ?thesis by blast
qed

lemma calculateAngle_finite:
  "\<exists>r. calculateAngle a b c = Fin r \<and> 0 \<le> r \<and> r \<le> 180"
proof -
  let ?ba = "subtractVectors (toVector3D a) (toVector3D b)"
  let ?bc = "subtractVectors (toVector3D c) (toVector3D b)"
  show ?thesis
  proof (cases "magnitude ?ba = 0 \<or> magnitude ?bc = 0")
    case True
    then show ?thesis by (auto simp: calculateAngle_def Let_def)
  next
    case False
    then have "magnitude ?ba * magnitude ?bc \<noteq> 0" by simp
    from clamped_angle [OF this, of "dotProduct ?ba ?bc"] False
    show ?thesis by (simp add: calculateAngle_def Let_def)
  qed
qed

lemma pointToLineDistance_finite: "\<exists>r. pointToLineDistance p a b = Fin r \<and> 0 \<le> r"
  by (auto simp: pointToLineDistance_def Let_def jsDiv_def magnitude_nonneg)

text \<open>
  C9. When either vector from the vertex has magnitude zero, the 3D angle function
  returns 0; when \<open>a\<close> and \<open>b\<close> have the same coordinates, \<open>pointToLineDistance p a b\<close>
  returns the distance from \<open>p\<close> to \<open>a\<close>; the quotient of the angle function is taken
  only with a divisor that is not zero and is finite, and \<open>pointToLineDistance\<close> returns
  a finite number that is not negative on every input.
\<close>

theorem degenerate_geometry_defined:
  "(magnitude (subtractVectors (toVector3D a) (toVector3D b)) = 0
      \<or> magnitude (subtractVectors (toVector3D c) (toVector3D b)) = 0
     \<longrightarrow> calculateAngle a b c = Fin 0)
   \<and> (toVector3D a = toVector3D b
     \<longrightarrow> pointToLineDistance p a b = Fin (calculateDistance p a))
   \<and> (magnitude (subtractVectors (toVector3D a) (toVector3D b)) \<noteq> 0
      \<and> magnitude (subtractVectors (toVector3D c) (toVector3D b)) \<noteq> 0
     \<longrightarrow> magnitude (subtractVectors (toVector3D a) (toVector3D b))
           * magnitude (subtractVectors (toVector3D c) (toVector3D b)) \<noteq> 0
         \<and> jsDiv (dotProduct (subtractVectors (toVector3D a) (toVector3D b))
                            (subtractVectors (toVector3D c) (toVector3D b)))
               (magnitude (subtractVectors (toVector3D a) (toVector3D b))
                 * magnitude (subtractVectors (toVector3D c) (toVector3D b)))
         = Fin (dotProduct (subtractVectors (toVector3D a) (toVector3D b))
                            (subtractVectors (toVector3D c) (toVector3D b))
                / (magnitude (subtractVectors (toVector3D a) (toVector3D b))
                    * magnitude (subtractVectors (toVector3D c) (toVector3D b)))))
   \<and> (\<exists>r. pointToLineDistance p a b = Fin r \<and> 0 \<le> r)"
proof (intro conjI impI)
  assume "magnitude (subtractVectors (toVector3D a) (toVector3D b)) = 0
      \<or> magnitude (subtractVectors (toVector3D c) (toVector3D b)) = 0"
  then show "calculateAngle a b c = Fin 0"
    by (auto simp: calculateAngle_def Let_def)
next
  assume same: "toVector3D a = toVector3D b"
  have "magnitude (subtractVectors (toVector3D b) (toVector3D a)) = 0"
    by (simp add: same magnitude_def subtractVectors_def)
  moreover have "magnitude (subtractVectors (toVector3D p) (toVector3D a))
      = calculateDistance p a"
    by (simp add: magnitude_def subtractVectors_def toVector3D_def calculateDistance_def
        Let_def)
  ultimately show "pointToLineDistance p a b = Fin (calculateDistance p a)"
    by (simp add: pointToLineDistance_def Let_def)
next
  assume nz: "magnitude (subtractVectors (toVector3D a) (toVector3D b)) \<noteq> 0
      \<and> magnitude (subtractVectors (toVector3D c) (toVector3D b)) \<noteq> 0"
  then show "magnitude (subtractVectors (toVector3D a) (toVector3D b))
           * magnitude (subtractVectors (toVector3D c) (toVector3D b)) \<noteq> 0"
    by simp
  from nz show "jsDiv (dotProduct (subtractVectors (toVector3D a) (toVector3D b))
                            (subtractVectors (toVector3D c) (toVector3D b)))
               (magnitude (subtractVectors (toVector3D a) (toVector3D b))
                 * magnitude (subtractVectors (toVector3D c) (toVector3D b)))
         = Fin (dotProduct (subtractVectors (toVector3D a) (toVector3D b))
                            (subtractVectors (toVector3D c) (toVector3D b))
                / (magnitude (subtractVectors (toVector3D a) (toVector3D b))
                    * magnitude (subtractVectors (toVector3D c) (toVector3D b))))"
    by (simp add: jsDiv_def)
next
  show "\<exists>r. pointToLineDistance p a b = Fin r \<and> 0 \<le> r"
    by (rule pointToLineDistance_finite)
qed

theorem degenerate_geometry_defined_witness:
  "calculateAngle (landmark 0.4 0.7) (landmark 0.4 0.7) (landmark 0.4 0.9) = Fin 0
   \<and> pointToLineDistance (landmark 0.4 0.5) (landmark 0.4 0.7) (landmark 0.4 0.7)
       = Fin (calculateDistance (landmark 0.4 0.5) (landmark 0.4 0.7))"
  using degenerate_geometry_defined [of "landmark 0.4 0.7" "landmark 0.4 0.7"
      "landmark 0.4 0.9" "landmark 0.4 0.5"]
  by (simp add: magnitude_def subtractVectors_def)

section \<open>The exercise analyzers\<close>

subsection \<open>The quality score as a chain of subtractions\<close>

lemma snd_if: "snd (if c then p else q) = (if c then snd p else snd q)"
  by simp

lemma squatForm_quality:
  "quality (squatForm shoulder hipL hipR kneeL kneeR ankleL ankleR conf kneeAngle kc torsoAngle kneeAngleR)
   = (let q1 = (if kneeAngle > 160 then 100 else if kneeAngle < 90 then 100
                else if kneeAngle < 120 then 100 else if kneeAngle < 140 then 100 - 10 else 100);
          q2 = (if torsoAngle < 140 then q1 - 15 else if torsoAngle > 180 then q1 - 10 else q1);
          q3 = (if \<bar>(px kneeL - px ankleL) / max (calculateDistance2D kneeL ankleL) 0.01\<bar> > 0.3
                then q2 - 15 else q2);
          q4 = (if \<bar>kneeAngle - kneeAngleR\<bar> > 15
                then q3 - min 20 (jsRound (\<bar>kneeAngle - kneeAngleR\<bar> * 0.5)) else q3);
          q5 = (if \<bar>(px hipL + px hipR) / 2 - (px ankleL + px ankleR) / 2\<bar> > 0.08
                then q4 - 10 else q4)
      in max 0 (jsRound q5))"
  unfolding squatForm_def Let_def case_prod_beta snd_if snd_conv
  by (simp split del: if_split cong: if_cong)

lemma backRowForm_quality:
  "quality (backRowForm shoulder elbow wrist hip ankle shoulderR conf elbowAngle ec)
   = (let q1 = (if calculateAngle2D shoulder hip ankle > 160 then 100 - 15
                else if calculateAngle2D shoulder hip ankle < 100 then 100 - 20
                else if calculateAngle2D shoulder hip ankle \<ge> 120 \<and> calculateAngle2D shoulder hip ankle \<le> 150
                then 100 else 100);
          q2 = (if \<bar>py shoulder - py shoulderR\<bar> > 0.05
                   \<or> \<bar>orElse (pz shoulder) 0 - orElse (pz shoulderR) 0\<bar> > 0.1
                then q1 - 15 else q1);
          q3 = (if elbowAngle > 160 then q2 else if elbowAngle < 60 then q2 - 10 else q2);
          q4 = (if calculateDistance2D elbow hip > 0.15 then q3 - 10 else q3)
      in max 0 (jsRound q4))"
  unfolding backRowForm_def Let_def case_prod_beta snd_if snd_conv
  by (simp split del: if_split cong: if_cong)

lemma pushUpForm_quality:
  "quality (pushUpForm shoulder elbow wrist hip ankle conf elbowAngle ec hipLineDeviation)
   = (let q1 = (if elbowAngle > 160 then 100 else if elbowAngle < 90 then 100
                else if elbowAngle < 120 then 100 else 100 - 15);
          q2 = (if hipLineDeviation > 0.05 \<or> calculateAngle2D shoulder hip ankle < 160 then q1 - 20
                else if calculateAngle2D shoulder hip ankle > 190 then q1 - 20 else q1);
          q3 = (if \<bar>px elbow - px shoulder\<bar> > 0.15 then q2 - 10 else q2)
      in max 0 (jsRound q3))"
  unfolding pushUpForm_def Let_def case_prod_beta snd_if snd_conv
  by (simp split del: if_split cong: if_cong)

lemma form_confidence:
  "confidence (squatForm shoulder hipL hipR kneeL kneeR ankleL ankleR conf ka kc ta kaR) = conf"
  "confidence (backRowForm shoulder elbow wrist hip ankle shoulderR conf ea ec) = conf"
  "confidence (pushUpForm shoulder elbow wrist hip ankle conf ea ec dev) = conf"
  unfolding squatForm_def backRowForm_def pushUpForm_def Let_def case_prod_beta
  by (simp_all split del: if_split cong: if_cong)



lemma notEvaluable_fields:
  "quality (notEvaluable m) = 0" "confidence (notEvaluable m) = 0"
  by (simp_all add: notEvaluable_def)

lemma jsRound_of_int: "jsRound (of_int n) = of_int n"
  by (simp add: jsRound_def)

lemma jsRound_Ints: "v \<in> \<int> \<Longrightarrow> jsRound v = v"
  by (auto simp: Ints_def jsRound_of_int)

lemma jsRound_in_Ints: "jsRound v \<in> \<int>"
  by (simp add: jsRound_def)

lemma jsRound_ge: "of_int n - 1 / 2 \<le> v \<Longrightarrow> of_int n \<le> jsRound v"
  unfolding jsRound_def by (simp add: le_floor_iff)

lemma clamp_round_Ints:
  assumes "v \<in> \<int>" and "0 \<le> v"
  shows "max 0 (jsRound v) = v"
  using assms by (simp add: jsRound_Ints)

lemma min_round_Ints: "min 20 (jsRound v) \<in> \<int>"
  by (simp add: min_def jsRound_in_Ints)

lemma squat_chain:
  "(let q1 = (if a1 then 100 else if a2 then 100 else if a3 then 100
              else if a4 then 100 - 10 else (100::real));
        q2 = (if b1 then q1 - 15 else if b2 then q1 - 10 else q1);
        q3 = (if c then q2 - 15 else q2);
        q4 = (if d then q3 - k else q3);
        q5 = (if e then q4 - 10 else q4)
    in f q5)
   = f (100 - ((if a1 \<or> a2 \<or> a3 then 0 else if a4 then 10 else 0)
             + (if b1 then 15 else if b2 then 10 else 0)
             + (if c then 15 else 0) + (if d then k else 0) + (if e then 10 else 0)))"
  by (simp add: Let_def)

lemma squatForm_penalties:
  "\<exists>p1 p2 p3 p4 p5.
     quality (squatForm shoulder hipL hipR kneeL kneeR ankleL ankleR conf kneeAngle kc
                torsoAngle kneeAngleR) = 100 - (p1 + p2 + p3 + p4 + p5)
     \<and> p1 \<in> {0, 10} \<and> p2 \<in> {0, 10, 15} \<and> p3 \<in> {0, 15}
     \<and> (p4 = 0 \<or> (15 < \<bar>kneeAngle - kneeAngleR\<bar>
                    \<and> p4 = min 20 (jsRound (\<bar>kneeAngle - kneeAngleR\<bar> * 0.5))
                    \<and> 8 \<le> p4 \<and> p4 \<le> 20))
     \<and> p5 \<in> {0, 10}"
proof -
  define asym where "asym = \<bar>kneeAngle - kneeAngleR\<bar>"
  define p1 :: real where "p1 = (if kneeAngle > 160 \<or> kneeAngle < 90 \<or> kneeAngle < 120 then 0
                         else if kneeAngle < 140 then 10 else 0)"
  define p2 :: real where "p2 = (if torsoAngle < 140 then 15 else if torsoAngle > 180 then 10 else 0)"
  define p3 :: real where
    "p3 = (if \<bar>(px kneeL - px ankleL) / max (calculateDistance2D kneeL ankleL) 0.01\<bar> > 0.3
           then 15 else 0)"
  define p4 :: real where "p4 = (if asym > 15 then min 20 (jsRound (asym * 0.5)) else 0)"
  define p5 :: real where
    "p5 = (if \<bar>(px hipL + px hipR) / 2 - (px ankleL + px ankleR) / 2\<bar> > 0.08 then 10 else 0)"
  have eq: "quality (squatForm shoulder hipL hipR kneeL kneeR ankleL ankleR conf kneeAngle kc
                torsoAngle kneeAngleR) = max 0 (jsRound (100 - (p1 + p2 + p3 + p4 + p5)))"
    unfolding squatForm_quality squat_chain p1_def p2_def p3_def p4_def p5_def asym_def ..
  have m1: "p1 \<in> {0, 10}" and m2: "p2 \<in> {0, 10, 15}" and m3: "p3 \<in> {0, 15}"
    and m5: "p5 \<in> {0, 10}"
    by (simp_all add: p1_def p2_def p3_def p5_def)
  have r: "8 \<le> jsRound (asym * 0.5)" if "15 < asym"
    using that jsRound_ge [of 8 "asym * 0.5"] by simp
  have m4: "p4 = 0 \<or> (15 < asym \<and> p4 = min 20 (jsRound (asym * 0.5)) \<and> 8 \<le> p4 \<and> p4 \<le> 20)"
    using r by (auto simp: p4_def)
  have i4: "p4 \<in> \<int>"
    by (simp add: p4_def min_round_Ints)
  have ints: "100 - (p1 + p2 + p3 + p4 + p5) \<in> \<int>"
    using m1 m2 m3 m5 i4 by (intro Ints_diff Ints_add) auto
  have "0 \<le> p4" "p4 \<le> 20" using m4 by auto
  then have pos: "0 \<le> 100 - (p1 + p2 + p3 + p4 + p5)"
    using m1 m2 m3 m5 by auto
  have "quality (squatForm shoulder hipL hipR kneeL kneeR ankleL ankleR conf kneeAngle kc
                torsoAngle kneeAngleR) = 100 - (p1 + p2 + p3 + p4 + p5)"
    using eq clamp_round_Ints [OF ints pos] by simp
  with m1 m2 m3 m4 m5 show ?thesis
    unfolding asym_def by blast
qed

lemma backRow_chain:
  "(let q1 = (if a1 then 100 - 15 else if a2 then 100 - 20 else if a3 then 100 else (100::real));
        q2 = (if b then q1 - 15 else q1);
        q3 = (if c1 then q2 else if c2 then q2 - 10 else q2);
        q4 = (if d then q3 - 10 else q3)
    in f q4)
   = f (100 - ((if a1 then 15 else if a2 then 20 else 0) + (if b then 15 else 0)
             + (if c1 then 0 else if c2 then 10 else 0) + (if d then 10 else 0)))"
  by (simp add: Let_def)

lemma backRowForm_penalties:
  "\<exists>p1 p2 p3 p4.
     quality (backRowForm shoulder elbow wrist hip ankle shoulderR conf elbowAngle ec)
       = 100 - (p1 + p2 + p3 + p4)
     \<and> p1 \<in> {0, 15, 20} \<and> p2 \<in> {0, 15} \<and> p3 \<in> {0, 10} \<and> p4 \<in> {0, 10}"
proof -
  define p1 :: real where "p1 = (if calculateAngle2D shoulder hip ankle > 160 then 15
                         else if calculateAngle2D shoulder hip ankle < 100 then 20 else 0)"
  define p2 :: real where "p2 = (if \<bar>py shoulder - py shoulderR\<bar> > 0.05
                   \<or> \<bar>orElse (pz shoulder) 0 - orElse (pz shoulderR) 0\<bar> > 0.1
                then 15 else 0)"
  define p3 :: real where "p3 = (if elbowAngle > 160 then 0 else if elbowAngle < 60 then 10 else 0)"
  define p4 :: real where "p4 = (if calculateDistance2D elbow hip > 0.15 then 10 else 0)"
  have eq: "quality (backRowForm shoulder elbow wrist hip ankle shoulderR conf elbowAngle ec)
      = max 0 (jsRound (100 - (p1 + p2 + p3 + p4)))"
    unfolding backRowForm_quality backRow_chain p1_def p2_def p3_def p4_def ..
  have m: "p1 \<in> {0, 15, 20}" "p2 \<in> {0, 15}" "p3 \<in> {0, 10}" "p4 \<in> {0, 10}"
    by (simp_all add: p1_def p2_def p3_def p4_def)
  have ints: "100 - (p1 + p2 + p3 + p4) \<in> \<int>"
    using m by (intro Ints_diff Ints_add) auto
  have pos: "0 \<le> 100 - (p1 + p2 + p3 + p4)"
    using m by auto
  have "quality (backRowForm shoulder elbow wrist hip ankle shoulderR conf elbowAngle ec)
      = 100 - (p1 + p2 + p3 + p4)"
    using eq clamp_round_Ints [OF ints pos] by simp
  with m show ?thesis by blast
qed

lemma pushUp_chain:
  "(let q1 = (if a1 then 100 else if a2 then 100 else if a3 then 100 else 100 - (15::real));
        q2 = (if b1 then q1 - 20 else if b2 then q1 - 20 else q1);
        q3 = (if c then q2 - 10 else q2)
    in f q3)
   = f (100 - ((if a1 \<or> a2 \<or> a3 then 0 else 15) + (if b1 \<or> b2 then 20 else 0)
             + (if c then 10 else 0)))"
  by (simp add: Let_def)

lemma pushUpForm_penalties:
  "\<exists>p1 p2 p3.
     quality (pushUpForm shoulder elbow wrist hip ankle conf elbowAngle ec dev)
       = 100 - (p1 + p2 + p3)
     \<and> p1 \<in> {0, 15} \<and> p2 \<in> {0, 20} \<and> p3 \<in> {0, 10}"
proof -
  define p1 :: real where
    "p1 = (if elbowAngle > 160 \<or> elbowAngle < 90 \<or> elbowAngle < 120 then 0 else 15)"
  define p2 :: real where
    "p2 = (if (dev > 0.05 \<or> calculateAngle2D shoulder hip ankle < 160)
              \<or> calculateAngle2D shoulder hip ankle > 190 then 20 else 0)"
  define p3 :: real where "p3 = (if \<bar>px elbow - px shoulder\<bar> > 0.15 then 10 else 0)"
  have eq: "quality (pushUpForm shoulder elbow wrist hip ankle conf elbowAngle ec dev)
      = max 0 (jsRound (100 - (p1 + p2 + p3)))"
    unfolding pushUpForm_quality pushUp_chain p1_def p2_def p3_def ..
  have m: "p1 \<in> {0, 15}" "p2 \<in> {0, 20}" "p3 \<in> {0, 10}"
    by (simp_all add: p1_def p2_def p3_def)
  have ints: "100 - (p1 + p2 + p3) \<in> \<int>"
    using m by (intro Ints_diff Ints_add) auto
  have pos: "0 \<le> 100 - (p1 + p2 + p3)"
    using m by auto
  have "quality (pushUpForm shoulder elbow wrist hip ankle conf elbowAngle ec dev)
      = 100 - (p1 + p2 + p3)"
    using eq clamp_round_Ints [OF ints pos] by simp
  with m show ?thesis by blast
qed

subsection \<open>A validated frame reaches the body of its analyzer\<close>

lemma validated_landmark:
  assumes "validateLandmarks landmarks indices" and "i \<in> set indices"
  shows "\<exists>point. landmarkAt landmarks i = Some point \<and> 0.5 \<le> orElse (visibility point) 1"
  using assms
  by (auto simp: validateLandmarks_def list_all_iff isVisible_def split: option.splits)

lemma withLandmark_Some: "landmarkAt landmarks i = Some point \<Longrightarrow> withLandmark landmarks i k = k point"
  by (simp add: withLandmark_def)

lemma withFinite_Fin: "withFinite (Fin r) k = k r"
  by (simp add: withFinite_def)

lemma analyzeSquat_valid:
  assumes "validateLandmarks landmarks squatRequired"
  shows "\<exists>shoulder hipL hipR kneeL kneeR ankleL ankleR kneeAngle kc torsoAngle kneeAngleR.
           analyzeSquat landmarks
             = Inr (squatForm shoulder hipL hipR kneeL kneeR ankleL ankleR
                      (getAverageConfidence landmarks squatRequired) kneeAngle kc torsoAngle kneeAngleR)"
proof -
  obtain shoulder where p11: "landmarkAt landmarks 11 = Some shoulder"
    using validated_landmark [OF assms, of 11] by (auto simp: squatRequired_def)
  obtain hipL where p23: "landmarkAt landmarks 23 = Some hipL"
    using validated_landmark [OF assms, of 23] by (auto simp: squatRequired_def)
  obtain hipR where p24: "landmarkAt landmarks 24 = Some hipR"
    using validated_landmark [OF assms, of 24] by (auto simp: squatRequired_def)
  obtain kneeL where p25: "landmarkAt landmarks 25 = Some kneeL"
    using validated_landmark [OF assms, of 25] by (auto simp: squatRequired_def)
  obtain kneeR where p26: "landmarkAt landmarks 26 = Some kneeR"
    using validated_landmark [OF assms, of 26] by (auto simp: squatRequired_def)
  obtain ankleL where p27: "landmarkAt landmarks 27 = Some ankleL"
    using validated_landmark [OF assms, of 27] by (auto simp: squatRequired_def)
  obtain ankleR where p28: "landmarkAt landmarks 28 = Some ankleR"
    using validated_landmark [OF assms, of 28] by (auto simp: squatRequired_def)
  obtain kneeAngle where a1: "calculateAngle hipL kneeL ankleL = Fin kneeAngle"
    using calculateAngle_finite by blast
  obtain torsoAngle where a2: "calculateAngle shoulder hipL kneeL = Fin torsoAngle"
    using calculateAngle_finite by blast
  obtain kneeAngleR where a3: "calculateAngle hipR kneeR ankleR = Fin kneeAngleR"
    using calculateAngle_finite by blast
  have "analyzeSquat landmarks
      = Inr (squatForm shoulder hipL hipR kneeL kneeR ankleL ankleR
               (getAverageConfidence landmarks squatRequired) kneeAngle
               (snd (calculateWeightedAngle hipL kneeL ankleL)) torsoAngle kneeAngleR)"
    unfolding analyzeSquat_def Let_def
    by (simp only: assms not_True_eq_False if_False withLandmark_Some p11 p23 p24 p25 p26 p27 p28
        calculateWeightedAngle_def fst_conv a1 a2 a3 withFinite_Fin)
  then show ?thesis by blast
qed

lemma analyzeBackRow_valid:
  assumes "validateLandmarks landmarks backRowRequired"
  shows "\<exists>shoulder elbow wrist hip ankle shoulderR elbowAngle ec.
           analyzeBackRow landmarks
             = Inr (backRowForm shoulder elbow wrist hip ankle shoulderR
                      (getAverageConfidence landmarks backRowRequired) elbowAngle ec)"
proof -
  obtain shoulder where p11: "landmarkAt landmarks 11 = Some shoulder"
    using validated_landmark [OF assms, of 11] by (auto simp: backRowRequired_def)
  obtain elbow where p13: "landmarkAt landmarks 13 = Some elbow"
    using validated_landmark [OF assms, of 13] by (auto simp: backRowRequired_def)
  obtain wrist where p15: "landmarkAt landmarks 15 = Some wrist"
    using validated_landmark [OF assms, of 15] by (auto simp: backRowRequired_def)
  obtain hip where p23: "landmarkAt landmarks 23 = Some hip"
    using validated_landmark [OF assms, of 23] by (auto simp: backRowRequired_def)
  obtain ankle where p27: "landmarkAt landmarks 27 = Some ankle"
    using validated_landmark [OF assms, of 27] by (auto simp: backRowRequired_def)
  obtain shoulderR where p12: "landmarkAt landmarks 12 = Some shoulderR"
    using validated_landmark [OF assms, of 12] by (auto simp: backRowRequired_def)
  obtain elbowAngle where a1: "calculateAngle shoulder elbow wrist = Fin elbowAngle"
    using calculateAngle_finite by blast
  have "analyzeBackRow landmarks
      = Inr (backRowForm shoulder elbow wrist hip ankle shoulderR
               (getAverageConfidence landmarks backRowRequired) elbowAngle
               (snd (calculateWeightedAngle shoulder elbow wrist)))"
    unfolding analyzeBackRow_def Let_def
    by (simp only: assms not_True_eq_False if_False withLandmark_Some p11 p13 p15 p23 p27 p12
        calculateWeightedAngle_def fst_conv a1 withFinite_Fin)
  then show ?thesis by blast
qed

lemma analyzePushUp_valid:
  assumes "validateLandmarks landmarks pushUpRequired"
  shows "\<exists>shoulder elbow wrist hip ankle elbowAngle ec dev.
           analyzePushUp landmarks
             = Inr (pushUpForm shoulder elbow wrist hip ankle
                      (getAverageConfidence landmarks pushUpRequired) elbowAngle ec dev)"
proof -
  obtain shoulder where p11: "landmarkAt landmarks 11 = Some shoulder"
    using validated_landmark [OF assms, of 11] by (auto simp: pushUpRequired_def)
  obtain elbow where p13: "landmarkAt landmarks 13 = Some elbow"
    using validated_landmark [OF assms, of 13] by (auto simp: pushUpRequired_def)
  obtain wrist where p15: "landmarkAt landmarks 15 = Some wrist"
    using validated_landmark [OF assms, of 15] by (auto simp: pushUpRequired_def)
  obtain hip where p23: "landmarkAt landmarks 23 = Some hip"
    using validated_landmark [OF assms, of 23] by (auto simp: pushUpRequired_def)
  obtain ankle where p27: "landmarkAt landmarks 27 = Some ankle"
    using validated_landmark [OF assms, of 27] by (auto simp: pushUpRequired_def)
  obtain elbowAngle where a1: "calculateAngle shoulder elbow wrist = Fin elbowAngle"
    using calculateAngle_finite by blast
  obtain dev where a2: "pointToLineDistance hip shoulder ankle = Fin dev"
    using pointToLineDistance_finite by blast
  have "analyzePushUp landmarks
      = Inr (pushUpForm shoulder elbow wrist hip ankle
               (getAverageConfidence landmarks pushUpRequired) elbowAngle
               (snd (calculateWeightedAngle shoulder elbow wrist)) dev)"
    unfolding analyzePushUp_def Let_def
    by (simp only: assms not_True_eq_False if_False withLandmark_Some p11 p13 p15 p23 p27
        calculateWeightedAngle_def fst_conv a1 a2 withFinite_Fin)
  then show ?thesis by blast
qed

lemma absentOrHidden_invalid:
  assumes "i \<in> set indices" and "absentOrHidden landmarks i"
  shows "\<not> validateLandmarks landmarks indices"
proof
  assume v: "validateLandmarks landmarks indices"
  from validated_landmark [OF v assms(1)]
  obtain point where "landmarkAt landmarks i = Some point" "0.5 \<le> orElse (visibility point) 1"
    by blast
  with assms(2) show False
    by (auto simp: absentOrHidden_def orElse_def split: option.splits)
qed

subsection \<open>The mean visibility\<close>

lemma foldl_add_sum_list:
  fixes f :: "'a \<Rightarrow> real"
  shows "foldl (\<lambda>acc i. acc + f i) a xs = a + sum_list (map f xs)"
  by (induction xs arbitrary: a) (simp_all add: add.assoc)

lemma sum_list_unit_bounds:
  fixes f :: "'a \<Rightarrow> real"
  assumes "\<forall>x \<in> set xs. 0 \<le> f x \<and> f x \<le> 1"
  shows "0 \<le> sum_list (map f xs) \<and> sum_list (map f xs) \<le> real (length xs)"
  using assms by (induction xs) auto

lemma getAverageConfidence_range:
  assumes vis: "\<forall>p \<in> set landmarks. \<forall>v. visibility p = Some v \<longrightarrow> 0 \<le> v \<and> v \<le> 1"
  shows "0 \<le> getAverageConfidence landmarks indices
       \<and> getAverageConfidence landmarks indices \<le> 1"
proof -
  define validPoints where "validPoints = filter (\<lambda>i. landmarkAt landmarks i \<noteq> None) indices"
  define f where "f = (\<lambda>i. orElse (visibility (landmarks ! i)) 1)"
  have "0 \<le> f i \<and> f i \<le> 1" if "i \<in> set validPoints" for i
  proof -
    from that have "i < length landmarks"
      by (auto simp: validPoints_def landmarkAt_def split: if_splits)
    then have "landmarks ! i \<in> set landmarks" by simp
    with vis show ?thesis
      by (cases "visibility (landmarks ! i)") (auto simp: f_def orElse_def)
  qed
  then have b: "0 \<le> sum_list (map f validPoints)"
    "sum_list (map f validPoints) \<le> real (length validPoints)"
    using sum_list_unit_bounds [of validPoints f] by auto
  have eq: "getAverageConfidence landmarks indices
      = (if length validPoints = 0 then 0
         else sum_list (map f validPoints) / real (length validPoints))"
    unfolding getAverageConfidence_def Let_def validPoints_def f_def foldl_add_sum_list
    by simp
  show ?thesis
  proof (cases "length validPoints = 0")
    case True
    then show ?thesis by (simp add: eq)
  next
    case False
    then have "0 < real (length validPoints)" by simp
    with b show ?thesis
      by (simp add: eq False divide_le_eq)
  qed
qed

lemma analyzeSquat_range:
  assumes vis: "\<forall>p \<in> set landmarks. \<forall>v. visibility p = Some v \<longrightarrow> 0 \<le> v \<and> v \<le> 1"
  shows "\<exists>r. analyzeSquat landmarks = Inr r \<and> 0 \<le> quality r \<and> quality r \<le> 100
             \<and> 0 \<le> confidence r \<and> confidence r \<le> 1"
proof (cases "validateLandmarks landmarks squatRequired")
  case False
  then show ?thesis
    by (simp add: analyzeSquat_def Let_def notEvaluable_fields)
next
  case True
  from analyzeSquat_valid [OF True]
  obtain shoulder hipL hipR kneeL kneeR ankleL ankleR kneeAngle kc torsoAngle kneeAngleR
    where r: "analyzeSquat landmarks
      = Inr (squatForm shoulder hipL hipR kneeL kneeR ankleL ankleR
               (getAverageConfidence landmarks squatRequired) kneeAngle kc torsoAngle kneeAngleR)"
    by blast
  from squatForm_penalties [of shoulder hipL hipR kneeL kneeR ankleL ankleR
      "getAverageConfidence landmarks squatRequired" kneeAngle kc torsoAngle kneeAngleR]
  have "0 \<le> quality (squatForm shoulder hipL hipR kneeL kneeR ankleL ankleR
               (getAverageConfidence landmarks squatRequired) kneeAngle kc torsoAngle kneeAngleR)
      \<and> quality (squatForm shoulder hipL hipR kneeL kneeR ankleL ankleR
               (getAverageConfidence landmarks squatRequired) kneeAngle kc torsoAngle kneeAngleR)
          \<le> 100"
    by auto
  with r getAverageConfidence_range [OF vis, of squatRequired] show ?thesis
    by (simp add: form_confidence)
qed

lemma analyzeBackRow_range:
  assumes vis: "\<forall>p \<in> set landmarks. \<forall>v. visibility p = Some v \<longrightarrow> 0 \<le> v \<and> v \<le> 1"
  shows "\<exists>r. analyzeBackRow landmarks = Inr r \<and> 0 \<le> quality r \<and> quality r \<le> 100
             \<and> 0 \<le> confidence r \<and> confidence r \<le> 1"
proof (cases "validateLandmarks landmarks backRowRequired")
  case False
  then show ?thesis
    by (simp add: analyzeBackRow_def Let_def notEvaluable_fields)
next
  case True
  from analyzeBackRow_valid [OF True]
  obtain shoulder elbow wrist hip ankle shoulderR elbowAngle ec
    where r: "analyzeBackRow landmarks
      = Inr (backRowForm shoulder elbow wrist hip ankle shoulderR
               (getAverageConfidence landmarks backRowRequired) elbowAngle ec)"
    by blast
  from backRowForm_penalties [of shoulder elbow wrist hip ankle shoulderR
      "getAverageConfidence landmarks backRowRequired" elbowAngle ec]
  have "0 \<le> quality (backRowForm shoulder elbow wrist hip ankle shoulderR
               (getAverageConfidence landmarks backRowRequired) elbowAngle ec)
      \<and> quality (backRowForm shoulder elbow wrist hip ankle shoulderR
               (getAverageConfidence landmarks backRowRequired) elbowAngle ec) \<le> 100"
    by auto
  with r getAverageConfidence_range [OF vis, of backRowRequired] show ?thesis
    by (simp add: form_confidence)
qed

lemma analyzePushUp_range:
  assumes vis: "\<forall>p \<in> set landmarks. \<forall>v. visibility p = Some v \<longrightarrow> 0 \<le> v \<and> v \<le> 1"
  shows "\<exists>r. analyzePushUp landmarks = Inr r \<and> 0 \<le> quality r \<and> quality r \<le> 100
             \<and> 0 \<le> confidence r \<and> confidence r \<le> 1"
proof (cases "validateLandmarks landmarks pushUpRequired")
  case False
  then show ?thesis
    by (simp add: analyzePushUp_def Let_def notEvaluable_fields)
next
  case True
  from analyzePushUp_valid [OF True]
  obtain shoulder elbow wrist hip ankle elbowAngle ec dev
    where r: "analyzePushUp landmarks
      = Inr (pushUpForm shoulder elbow wrist hip ankle
               (getAverageConfidence landmarks pushUpRequired) elbowAngle ec dev)"
    by blast
  from pushUpForm_penalties [of shoulder elbow wrist hip ankle
      "getAverageConfidence landmarks pushUpRequired" elbowAngle ec dev]
  have "0 \<le> quality (pushUpForm shoulder elbow wrist hip ankle
               (getAverageConfidence landmarks pushUpRequired) elbowAngle ec dev)
      \<and> quality (pushUpForm shoulder elbow wrist hip ankle
               (getAverageConfidence landmarks pushUpRequired) elbowAngle ec dev) \<le> 100"
    by auto
  with r getAverageConfidence_range [OF vis, of pushUpRequired] show ?thesis
    by (simp add: form_confidence)
qed

subsection \<open>The frame \<open>unevenSquatFrame\<close>\<close>


















lemma hidden_knee: "absentOrHidden hiddenKneeFrame 25"
  by (simp add: absentOrHidden_def landmarkAt_def hiddenKneeFrame_def unevenSquatFrame_def
      landmark_def)

lemma in_set_updateD: "p \<in> set (xs[i := v]) \<Longrightarrow> p = v \<or> p \<in> set xs"
  using set_update_subset_insert [of xs i v] by auto

lemma frame_visibilities:
  assumes "p \<in> set unevenSquatFrame"
  shows "visibility p = Some 1"
  using assms unfolding unevenSquatFrame_def
  by (auto dest!: in_set_updateD simp: landmark_def)

subsection \<open>The claims on the analyzers\<close>




text \<open>
  C6. When a required landmark of an analyzer is absent from the frame or has a
  visibility below 0.5, the analyzer returns, without an error, the record with
  \<open>isValid = False\<close>, quality 0, confidence 0, no metrics and its one positioning
  instruction.
\<close>

theorem missing_landmark_not_evaluable:
  "((\<exists>i \<in> set backRowRequired. absentOrHidden landmarks i) \<longrightarrow>
      analyzeBackRow landmarks
        = Inr \<lparr>feedback = [sidewaysInstruction], metrics = Map.empty, phase = rest,
               isValid = False, quality = 0, confidence = 0\<rparr>)
   \<and> ((\<exists>i \<in> set squatRequired. absentOrHidden landmarks i) \<longrightarrow>
      analyzeSquat landmarks
        = Inr \<lparr>feedback = [frontInstruction], metrics = Map.empty, phase = rest,
               isValid = False, quality = 0, confidence = 0\<rparr>)
   \<and> ((\<exists>i \<in> set pushUpRequired. absentOrHidden landmarks i) \<longrightarrow>
      analyzePushUp landmarks
        = Inr \<lparr>feedback = [sidewaysInstruction], metrics = Map.empty, phase = rest,
               isValid = False, quality = 0, confidence = 0\<rparr>)"
  using absentOrHidden_invalid [of _ _ landmarks]
  by (auto simp: analyzeBackRow_def analyzeSquat_def analyzePushUp_def Let_def notEvaluable_def)

theorem missing_landmark_not_evaluable_witness:
  "absentOrHidden hiddenKneeFrame 25
   \<and> analyzeSquat hiddenKneeFrame
        = Inr \<lparr>feedback = [frontInstruction], metrics = Map.empty, phase = rest,
               isValid = False, quality = 0, confidence = 0\<rparr>
   \<and> analyzePushUp hiddenKneeFrame
        = Inr \<lparr>feedback = [sidewaysInstruction], metrics = Map.empty, phase = rest,
               isValid = False, quality = 0, confidence = 0\<rparr>"
  using missing_landmark_not_evaluable [of hiddenKneeFrame] hidden_knee
  by (simp add: squatRequired_def pushUpRequired_def)

text \<open>
  C7. For every exercise name and every frame whose visibilities, where given, lie in
  \<open>[0, 1]\<close>, the dispatcher returns an analysis, not an error, with quality in
  \<open>[0, 100]\<close> and confidence in \<open>[0, 1]\<close>.
\<close>

theorem analysis_in_range:
  assumes vis: "\<forall>p \<in> set landmarks. \<forall>v. visibility p = Some v \<longrightarrow> 0 \<le> v \<and> v \<le> 1"
  shows "\<exists>r. analyzeExercise exercise landmarks = Inr r \<and> 0 \<le> quality r \<and> quality r \<le> 100
             \<and> 0 \<le> confidence r \<and> confidence r \<le> 1"
  using analyzeBackRow_range [OF vis] analyzeSquat_range [OF vis] analyzePushUp_range [OF vis]
  by (simp add: analyzeExercise_def Let_def)

theorem analysis_in_range_witness:
  "\<exists>r. analyzeExercise ''Agachamento livre'' unevenSquatFrame = Inr r
       \<and> 0 \<le> quality r \<and> quality r \<le> 100 \<and> 0 \<le> confidence r \<and> confidence r \<le> 1"
  using analysis_in_range [of unevenSquatFrame "''Agachamento livre''"] frame_visibilities
  by auto


section \<open>Evaluation of the engine on concrete inputs\<close>

lemmas machine_defs = analyzeStep_def countRep_def detectRep_def repStateMachine_def
  getThresholds_def thresholds_def toLowerCase_def getPrimaryAngle_def orElse_def
  smoothMetric_def pushBuffer_def BUFFER_SIZE_def smoothLoop.simps decay_def Let_def
  MIN_CONFIDENCE_THRESHOLD_def kneeSample_def initialSession_def

section \<open>The temporal smoother\<close>



lemma shift_lastN:
  assumes "length xs \<le> 5"
  shows "(if 5 < length (xs @ [v]) then tl (xs @ [v]) else xs @ [v]) = lastN 5 (xs @ [v])"
proof (cases "length xs = 5")
  case True
  then have "length xs - 4 = Suc 0" by simp
  with True show ?thesis by (cases xs) (simp_all add: lastN_def)
next
  case False
  with assms have "length xs \<le> 4" by simp
  then show ?thesis by (simp add: lastN_def)
qed

lemma pushBuffer_vals:
  "length (vals b) \<le> 5 \<Longrightarrow> vals (pushBuffer b v c) = lastN 5 (vals b @ [v])"
  using shift_lastN [of "vals b" v]
  by (auto simp: pushBuffer_def Let_def BUFFER_SIZE_def split: if_splits)

lemma pushBuffer_weights:
  "length (vals b) = length (weights b) \<Longrightarrow> length (vals b) \<le> 5 \<Longrightarrow>
   weights (pushBuffer b v c) = lastN 5 (weights b @ [c])"
  using shift_lastN [of "weights b" c]
  by (auto simp: pushBuffer_def Let_def BUFFER_SIZE_def split: if_splits)

lemma lastN_snoc: "lastN n (lastN n xs @ [x]) = lastN n (xs @ [x])"
proof (cases "n \<le> length xs")
  case True
  then have "Suc (length xs) - n = Suc (length xs - n)" by simp
  with True show ?thesis by (simp add: lastN_def)
next
  case False
  then show ?thesis by (simp add: lastN_def)
qed

lemma fst_smoothMetric: "fst (smoothMetric b v c) = pushBuffer b v c"
  by (simp add: smoothMetric_def Let_def split: prod.splits)

lemma pushAll_snoc: "pushAll b (ps @ [(v, c)]) = pushBuffer (pushAll b ps) v c"
  by (induction b ps rule: pushAll.induct) (simp_all add: fst_smoothMetric)

lemma pushAll_append: "pushAll b (ps @ qs) = pushAll (pushAll b ps) qs"
  by (induction b ps rule: pushAll.induct) simp_all

text \<open>From the empty buffer, the two arrays hold the last five values and the last five
  confidences pushed: they have equal length, at most 5.\<close>

lemma pushAll_shape:
  "vals (pushAll emptyBuffer ps) = lastN 5 (map fst ps) \<and>
   weights (pushAll emptyBuffer ps) = lastN 5 (map snd ps)"
proof (induction ps rule: rev_induct)
  case Nil
  then show ?case by (simp add: emptyBuffer_def lastN_def)
next
  case (snoc p ps)
  obtain v c where p: "p = (v, c)" by (cases p)
  have len: "length (vals (pushAll emptyBuffer ps)) = length (weights (pushAll emptyBuffer ps))"
    "length (vals (pushAll emptyBuffer ps)) \<le> 5"
    using snoc by (simp_all add: lastN_def)
  show ?case
    using snoc len
    by (simp add: p pushAll_snoc pushBuffer_vals pushBuffer_weights lastN_snoc)
qed





lemma lastN_replicate: "lastN n (xs @ replicate n y) = replicate n y"
  by (simp add: lastN_def)

section \<open>The repetition state machine\<close>

text \<open>
  C1. A step taken in state TRANSITIONING with a smoothed angle above
  \<open>up + hysteresis\<close> should leave the machine in UP, also when the repetition is not
  counted. Evaluated on \<open>debounceFrames\<close>: the first repetition is accepted at 1000400; the
  next frame, at 1000680, finds the machine in TRANSITIONING with the smoothed angle 180,
  above 160, less than 500 ms after the accepted repetition, and the machine stays in
  TRANSITIONING; the frame after it, at 1000950, then counts the second repetition.
\<close>

theorem debounce_return_stays_TRANSITIONING:
  "repState (runFrames ''agachamento'' debounceFrames initialSession) = TRANSITIONING
   \<and> lastRepTime (runFrames ''agachamento'' debounceFrames initialSession) = 1000400
   \<and> up (getThresholds ''agachamento'') + hysteresis (getThresholds ''agachamento'')
       < snd (smoothMetric
           (metricBuffer (runFrames ''agachamento'' debounceFrames initialSession)) 180 1)
   \<and> repState (analyzeStep ''agachamento'' 1000680 (kneeSample 180)
        (runFrames ''agachamento'' debounceFrames initialSession)) = TRANSITIONING
   \<and> repCountRef (runFrames ''agachamento''
        (debounceFrames @ [(1000680, kneeSample 180), (1000950, kneeSample 180)])
        initialSession) = 2"
  by (simp add: machine_defs debounceFrames_def)

text \<open>
  C2, as stated. With the squat thresholds the sequence of angles
  \<open>[170, 170, 85, 85, 85, 160]\<close>, sampled 500 ms apart, yields no repetition: fed to the
  state machine as smoothed angles, the last one is not above \<open>up + hysteresis = 160\<close>;
  fed to \<open>analyze\<close> as raw knee angles with confidence 1, the smoothed angle never falls
  below 90. Sampled 4 s apart, which is at least 500 ms, the sequence yields no
  repetition even with a last angle of 170: 12 s lie between the third and the sixth
  sample, more than the 10 s a repetition may last.
\<close>

theorem squat_sequence_160_no_repetition:
  "repHistory (feedSmoothed (getThresholds ''agachamento'') (kneeSample 160)
      [(1000000, 170), (1000500, 170), (1001000, 85), (1001500, 85), (1002000, 85),
       (1002500, 160)]
      initialSession) = []
  \<and> repCountRef (feedSmoothed (getThresholds ''agachamento'') (kneeSample 160)
      [(1000000, 170), (1000500, 170), (1001000, 85), (1001500, 85), (1002000, 85),
       (1002500, 160)]
      initialSession) = 0
  \<and> repHistory (runFrames ''agachamento''
      [(1000000, kneeSample 170), (1000500, kneeSample 170), (1001000, kneeSample 85),
       (1001500, kneeSample 85), (1002000, kneeSample 85), (1002500, kneeSample 160)]
      initialSession) = []
  \<and> repCountRef (runFrames ''agachamento''
      [(1000000, kneeSample 170), (1000500, kneeSample 170), (1001000, kneeSample 85),
       (1001500, kneeSample 85), (1002000, kneeSample 85), (1002500, kneeSample 160)]
      initialSession) = 0
  \<and> repHistory (feedSmoothed (getThresholds ''agachamento'') (kneeSample 170)
      [(1000000, 170), (1004000, 170), (1008000, 85), (1012000, 85), (1016000, 85),
       (1020000, 170)]
      initialSession) = []"
  by (simp add: machine_defs)

text \<open>
  C2, amended. With the squat thresholds, the smoothed angles
  \<open>[170, 170, 85, 85, 85, s6]\<close> with \<open>s6\<close> above 160, sampled at least 500 ms apart with
  at most 10 s between the third and the sixth, at clock readings that are not
  negative, fed to the state machine from the initial state, yield exactly one accepted
  repetition, whose duration is the time between the third and the sixth sample, in
  seconds; the machine ends in UP.
\<close>

theorem squat_sequence_one_repetition:
  assumes s6: "160 < s6"
    and t1: "0 \<le> t1"
    and gaps: "t1 + 500 \<le> t2" "t2 + 500 \<le> t3" "t3 + 500 \<le> t4" "t4 + 500 \<le> t5"
      "t5 + 500 \<le> t6"
    and span: "t6 - t3 \<le> 10000"
  shows "repHistory (feedSmoothed (getThresholds ''agachamento'') a
            [(t1, 170), (t2, 170), (t3, 85), (t4, 85), (t5, 85), (t6, s6)] initialSession)
         = [\<lparr>count = 1, duration = real_of_int (t6 - t3) / 1000, repQuality = quality a,
             timestamp = t6, repConfidence = confidence a\<rparr>]
       \<and> repCountRef (feedSmoothed (getThresholds ''agachamento'') a
            [(t1, 170), (t2, 170), (t3, 85), (t4, 85), (t5, 85), (t6, s6)] initialSession) = 1
       \<and> repState (feedSmoothed (getThresholds ''agachamento'') a
            [(t1, 170), (t2, 170), (t3, 85), (t4, 85), (t5, 85), (t6, s6)] initialSession) = UP"
  using assms
  by (simp add: machine_defs)

theorem squat_sequence_one_repetition_witness:
  "(160::real) < 161 \<and> (0::int) \<le> 1000000 \<and> (1000000::int) + 500 \<le> 1000500
   \<and> (1000500::int) + 500 \<le> 1001000 \<and> (1001000::int) + 500 \<le> 1001500
   \<and> (1001500::int) + 500 \<le> 1002000 \<and> (1002000::int) + 500 \<le> 1002500
   \<and> (1002500::int) - 1001000 \<le> 10000
   \<and> repHistory (feedSmoothed (getThresholds ''agachamento'') (kneeSample 161)
        [(1000000, 170), (1000500, 170), (1001000, 85), (1001500, 85), (1002000, 85),
         (1002500, 161)] initialSession)
       = [\<lparr>count = 1, duration = 3 / 2, repQuality = 100, timestamp = 1002500,
           repConfidence = 1\<rparr>]"
  using squat_sequence_one_repetition [of 161 1000000 1000500 1001000 1001500 1002000 1002500
      "kneeSample 161"]
  by (simp add: kneeSample_def)

text \<open>
  C3. When a valid analysis arrives in state TRANSITIONING and the smoothed angle is
  above \<open>up + hysteresis\<close>, the repetition is counted if and only if the confidence of
  the analysis is at least 0.5, at least 500 ms have passed since \<open>lastRepTime\<close>, and
  the duration \<open>(now - repStartTime) / 1000\<close> lies in \<open>[0.3, 10]\<close>. When it is counted,
  the counter grows by one, one record is appended to the history, the two sums grow by
  the quality and the confidence, and \<open>lastRepTime\<close> becomes \<open>now\<close>; when it is not,
  all of these keep their values. Below the confidence floor \<open>detectRep\<close> leaves the whole
  session as it is; from the floor on, the angle is pushed into the smoothing buffer.
\<close>

theorem repetition_counted_iff:
  assumes valid: "isValid a"
    and st: "repState s = TRANSITIONING"
    and cross: "up (getThresholds ex) + hysteresis (getThresholds ex)
        < snd (smoothMetric (metricBuffer s) (fst (getPrimaryAngle ex a))
                 (snd (getPrimaryAngle ex a)))"
  shows "snd (detectRep ex now a s)
          = (0.5 \<le> confidence a \<and> 500 \<le> now - lastRepTime s
             \<and> 0.3 \<le> real_of_int (now - repStartTime s) / 1000
             \<and> real_of_int (now - repStartTime s) / 1000 \<le> 10)
       \<and> (if confidence a < 0.5 then fst (detectRep ex now a s) = s
          else metricBuffer (fst (detectRep ex now a s))
                 = fst (smoothMetric (metricBuffer s) (fst (getPrimaryAngle ex a))
                          (snd (getPrimaryAngle ex a))))
       \<and> (if snd (detectRep ex now a s)
          then repCountRef (analyzeStep ex now a s) = repCountRef s + 1
             \<and> repHistory (analyzeStep ex now a s)
                 = repHistory s @ [\<lparr>count = repCountRef s + 1,
                                     duration = real_of_int (now - repStartTime s) / 1000,
                                     repQuality = quality a, timestamp = now,
                                     repConfidence = confidence a\<rparr>]
             \<and> qualitySum (analyzeStep ex now a s) = qualitySum s + quality a
             \<and> confidenceSum (analyzeStep ex now a s) = confidenceSum s + confidence a
             \<and> lastRepTime (analyzeStep ex now a s) = now
          else repCountRef (analyzeStep ex now a s) = repCountRef s
             \<and> repHistory (analyzeStep ex now a s) = repHistory s
             \<and> qualitySum (analyzeStep ex now a s) = qualitySum s
             \<and> confidenceSum (analyzeStep ex now a s) = confidenceSum s
             \<and> lastRepTime (analyzeStep ex now a s) = lastRepTime s)"
  using assms
  by (auto simp: analyzeStep_def countRep_def detectRep_def repStateMachine_def Let_def
      MIN_CONFIDENCE_THRESHOLD_def split: prod.splits if_splits)

theorem repetition_counted_iff_witness:
  "isValid (kneeSample 170)
   \<and> repState (initialSession\<lparr>repState := TRANSITIONING, repStartTime := 1000000\<rparr>)
       = TRANSITIONING
   \<and> up (getThresholds ''agachamento'') + hysteresis (getThresholds ''agachamento'')
       < snd (smoothMetric
           (metricBuffer (initialSession\<lparr>repState := TRANSITIONING, repStartTime := 1000000\<rparr>))
           (fst (getPrimaryAngle ''agachamento'' (kneeSample 170)))
           (snd (getPrimaryAngle ''agachamento'' (kneeSample 170))))
   \<and> snd (detectRep ''agachamento'' 1001000 (kneeSample 170)
        (initialSession\<lparr>repState := TRANSITIONING, repStartTime := 1000000\<rparr>))
   \<and> repCountRef (analyzeStep ''agachamento'' 1001000 (kneeSample 170)
        (initialSession\<lparr>repState := TRANSITIONING, repStartTime := 1000000\<rparr>)) = 1
   \<and> lastRepTime (analyzeStep ''agachamento'' 1001000 (kneeSample 170)
        (initialSession\<lparr>repState := TRANSITIONING, repStartTime := 1000000\<rparr>)) = 1001000"
  using repetition_counted_iff [of "kneeSample 170"
      "initialSession\<lparr>repState := TRANSITIONING, repStartTime := 1000000\<rparr>"
      "''agachamento''" 1001000]
  by (simp add: machine_defs)

section \<open>Rounding to the nearest double\<close>

subsection \<open>The integer grid\<close>

lemma roundEven_near: "\<bar>of_int (roundEven q) - q\<bar> \<le> 1 / 2"
  unfolding roundEven_def Let_def by (auto simp: abs_le_iff)

lemma roundEven_of_int [simp]: "roundEven (of_int n) = n"
  by (simp add: roundEven_def)

lemma roundEven_bounds: "\<lfloor>q\<rfloor> \<le> roundEven q" "roundEven q \<le> \<lfloor>q\<rfloor> + 1"
  unfolding roundEven_def Let_def by auto

lemma roundEven_mono:
  assumes "q \<le> q'"
  shows "roundEven q \<le> roundEven q'"
proof (cases "\<lfloor>q\<rfloor> = \<lfloor>q'\<rfloor>")
  case True
  with assms show ?thesis
    unfolding roundEven_def Let_def by auto
next
  case False
  with assms have "\<lfloor>q\<rfloor> < \<lfloor>q'\<rfloor>"
    using floor_mono [of q q'] by linarith
  then have "roundEven q \<le> \<lfloor>q'\<rfloor>"
    using roundEven_bounds(2) [of q] by linarith
  with roundEven_bounds(1) [of q'] show ?thesis by linarith
qed

lemma roundEven_minus: "roundEven (- q) = - roundEven q"
proof (cases "q \<in> \<int>")
  case True
  then obtain n where "q = of_int n" by (auto simp: Ints_def)
  then have "- q = of_int (- n)" by simp
  then show ?thesis unfolding \<open>q = of_int n\<close> by (simp only: roundEven_of_int)
next
  case False
  then have ne: "q \<noteq> of_int \<lfloor>q\<rfloor>"
    by (metis Ints_of_int)
  have fl: "\<lfloor>- q\<rfloor> = - \<lfloor>q\<rfloor> - 1"
  proof (rule floor_unique)
    show "of_int (- \<lfloor>q\<rfloor> - 1) \<le> - q" by simp linarith
    have "of_int \<lfloor>q\<rfloor> < q" using ne of_int_floor_le [of q] by linarith
    then show "- q < of_int (- \<lfloor>q\<rfloor> - 1) + 1" by simp
  qed
  have frac: "- q - of_int (- \<lfloor>q\<rfloor> - 1) = 1 - (q - of_int \<lfloor>q\<rfloor>)" by simp
  show ?thesis
    unfolding roundEven_def Let_def fl frac
    by auto
qed

subsection \<open>Powers of two and the exponent of a number\<close>

lemma pow2_pos [simp]: "0 < (2::real) powi e"
  by (simp add: zero_less_power_int)

lemma pow2_mono: "e \<le> e' \<Longrightarrow> (2::real) powi e \<le> 2 powi e'"
  by (rule power_int_increasing) simp_all

lemma pow2_strict_mono: "e < e' \<Longrightarrow> (2::real) powi e < 2 powi e'"
  by (rule power_int_strict_increasing) simp_all

lemma pow2_less_cancel: "(2::real) powi e < 2 powi e' \<Longrightarrow> e < e'"
  using pow2_mono [of e' e] by (cases "e < e'") auto

lemma pow2_Suc: "(2::real) powi (e + 1) = 2 * 2 powi e"
  by (simp add: power_int_add)

lemma pow2_split: "(2::real) powi (a - b) = 2 powi a / 2 powi b"
  by (simp add: power_int_diff)

lemma pow2_add: "(2::real) powi a * 2 powi b = 2 powi (a + b)"
  by (simp add: power_int_add)

lemma scale_1074: "(2::real) powi (- 1022) * 2 ^ 1074 = 2 ^ 52"
proof -
  have "(2::real) powi (- 1022) * 2 powi 1074 = 2 powi (- 1022 + 1074)" by (rule pow2_add)
  also have "- 1022 + 1074 = (52::int)" by simp
  finally show ?thesis by (simp only: power_int_numeral)
qed

lemma of_int_pow2_le: "(2::int) ^ n \<le> m \<Longrightarrow> (2::real) ^ n \<le> of_int m"
proof -
  assume "(2::int) ^ n \<le> m"
  then have "(of_int (2 ^ n) :: real) \<le> of_int m" by (simp only: of_int_le_iff)
  then show ?thesis by (simp only: of_int_power of_int_numeral)
qed

lemma of_int_le_pow2: "m \<le> (2::int) ^ n \<Longrightarrow> of_int m \<le> (2::real) ^ n"
proof -
  assume "m \<le> (2::int) ^ n"
  then have "(of_int m :: real) \<le> of_int (2 ^ n)" by (simp only: of_int_le_iff)
  then show ?thesis by (simp only: of_int_power of_int_numeral)
qed

lemma expo_normal:
  assumes "2 powi (- 1022) \<le> \<bar>x\<bar>"
  shows "2 powi (expo x) \<le> \<bar>x\<bar>" and "\<bar>x\<bar> < 2 powi (expo x + 1)" and "- 1022 \<le> expo x"
proof -
  define N where "N = \<lfloor>\<bar>x\<bar> * 2 ^ 1074\<rfloor>"
  define b where "b = bitlen N"
  have "(2::real) powi (- 1022) * 2 ^ 1074 = 2 ^ 52"
    by (rule scale_1074)
  moreover have "2 powi (- 1022) * 2 ^ 1074 \<le> \<bar>x\<bar> * 2 ^ 1074"
    using assms by (intro mult_right_mono) simp_all
  ultimately have scaled: "2 ^ 52 \<le> \<bar>x\<bar> * 2 ^ 1074" by simp
  have "of_int (2 ^ 52) \<le> \<bar>x\<bar> * 2 ^ 1074" using scaled by simp
  then have N52: "2 ^ 52 \<le> N" unfolding N_def by (simp only: le_floor_iff)
  moreover have "(0::int) < 2 ^ 52" by simp
  ultimately have Npos: "0 < N" by linarith
  from bitlen_bounds [OF Npos]
  have lo: "2 ^ nat (b - 1) \<le> N" and hi: "N < 2 ^ nat b" by (simp_all add: b_def)
  from N52 hi have "(2::int) ^ 52 < 2 ^ nat b" by linarith
  then have "52 < nat b" by (simp only: power_strict_increasing_iff)
  then have b53: "53 \<le> b" by linarith
  have e: "expo x = b - 1075"
    unfolding expo_def N_def [symmetric] b_def [symmetric] using b53 by simp
  show "- 1022 \<le> expo x" using e b53 by simp
  have Nle: "of_int N \<le> \<bar>x\<bar> * 2 ^ 1074" and Ngt: "\<bar>x\<bar> * 2 ^ 1074 < of_int N + 1"
    unfolding N_def by linarith+
  have p1: "(2::real) powi (b - 1075) = 2 ^ nat (b - 1) / 2 ^ 1074"
  proof -
    have "b - 1075 = int (nat (b - 1)) - 1074" using b53 by simp
    then have "(2::real) powi (b - 1075) = 2 powi (int (nat (b - 1)) - 1074)"
      by (rule arg_cong)
    also have "\<dots> = 2 powi int (nat (b - 1)) / 2 powi 1074" by (rule pow2_split)
    finally show ?thesis by (simp only: power_int_of_nat power_int_numeral)
  qed
  have p2: "(2::real) powi (b - 1075 + 1) = 2 ^ nat b / 2 ^ 1074"
  proof -
    have "b - 1075 + 1 = int (nat b) - 1074" using b53 by simp
    then have "(2::real) powi (b - 1075 + 1) = 2 powi (int (nat b) - 1074)"
      by (rule arg_cong)
    also have "\<dots> = 2 powi int (nat b) / 2 powi 1074" by (rule pow2_split)
    finally show ?thesis by (simp only: power_int_of_nat power_int_numeral)
  qed
  have "(2::real) ^ nat (b - 1) \<le> of_int N"
    using lo by (rule of_int_pow2_le)
  with Nle have "(2::real) ^ nat (b - 1) \<le> \<bar>x\<bar> * 2 ^ 1074" by linarith
  then show "2 powi (expo x) \<le> \<bar>x\<bar>"
    unfolding e p1 by (simp add: field_simps)
  have "N + 1 \<le> 2 ^ nat b" using hi by simp
  then have "of_int (N + 1) \<le> (2::real) ^ nat b"
    by (rule of_int_le_pow2)
  then have "of_int N + 1 \<le> (2::real) ^ nat b" by simp
  with Ngt have "\<bar>x\<bar> * 2 ^ 1074 < 2 ^ nat b" by linarith
  then show "\<bar>x\<bar> < 2 powi (expo x + 1)"
    unfolding e p2 by (simp add: field_simps)
qed

lemma expo_subnormal:
  assumes "\<bar>x\<bar> < 2 powi (- 1022)"
  shows "expo x = - 1022"
proof -
  define N where "N = \<lfloor>\<bar>x\<bar> * 2 ^ 1074\<rfloor>"
  have "(2::real) powi (- 1022) * 2 ^ 1074 = 2 ^ 52"
    by (rule scale_1074)
  moreover have "\<bar>x\<bar> * 2 ^ 1074 < 2 powi (- 1022) * 2 ^ 1074"
    using assms by (intro mult_strict_right_mono) simp_all
  ultimately have "\<bar>x\<bar> * 2 ^ 1074 < of_int (2 ^ 52)" by simp
  then have N52: "N < 2 ^ 52" unfolding N_def by (simp only: floor_less_iff)
  have "bitlen N \<le> 52"
  proof (cases "0 < N")
    case True
    from bitlen_bounds [OF True] N52 have "(2::int) ^ nat (bitlen N - 1) < 2 ^ 52" by linarith
    then have "nat (bitlen N - 1) < 52" by (simp only: power_strict_increasing_iff)
    then show ?thesis by linarith
  next
    case False
    then have "bitlen N = 0" by (simp add: bitlen_eq_zero_iff)
    then show ?thesis by simp
  qed
  then show ?thesis
    unfolding expo_def N_def [symmetric] by simp
qed

lemma expo_eqI:
  assumes "2 powi e \<le> \<bar>x\<bar>" and "\<bar>x\<bar> < 2 powi (e + 1)" and "- 1022 \<le> e"
  shows "expo x = e"
proof -
  have "(2::real) powi (- 1022) \<le> 2 powi e" using assms(3) by (rule pow2_mono)
  with assms(1) have n: "2 powi (- 1022) \<le> \<bar>x\<bar>" by linarith
  from expo_normal [OF n] assms
  have "(2::real) powi (expo x) < 2 powi (e + 1)" "(2::real) powi e < 2 powi (expo x + 1)"
    by linarith+
  then have "expo x < e + 1" "e < expo x + 1" by (auto dest: pow2_less_cancel)
  then show ?thesis by linarith
qed

lemma expo_minus [simp]: "expo (- x) = expo x"
  by (simp add: expo_def)

lemma ulp_minus [simp]: "ulp (- x) = ulp x"
  by (simp add: ulp_def)

lemma ulp_pos [simp]: "0 < ulp x"
  by (simp add: ulp_def)

lemma ulp_nonneg [simp]: "0 \<le> ulp x"
  using ulp_pos [of x] by linarith

lemma ulp_nonzero [simp]: "ulp x \<noteq> 0"
  using ulp_pos [of x] by linarith

lemma abs_ulp [simp]: "\<bar>ulp x\<bar> = ulp x"
  by simp

subsection \<open>The rounding is odd, monotone and exact on the powers of two\<close>

lemma rd_minus: "rd (- x) = - rd x"
  by (simp add: rd_def roundEven_minus)

lemma roundEven_zero [simp]: "roundEven 0 = 0"
  using roundEven_of_int [of 0] by simp

lemma rd_zero [simp]: "rd 0 = 0"
  by (simp add: rd_def)


lemma rd_eqI:
  assumes "2 powi e \<le> \<bar>x\<bar>" and "\<bar>x\<bar> < 2 powi (e + 1)" and "- 1022 \<le> e"
  shows "rd x = of_int (roundEven (x / 2 powi (e - 52))) * 2 powi (e - 52)"
  using expo_eqI [OF assms] by (simp add: rd_def ulp_def)

lemma rd_eqI_subnormal:
  assumes "\<bar>x\<bar> < 2 powi (- 1022)"
  shows "rd x = of_int (roundEven (x / 2 powi (- 1074))) * 2 powi (- 1074)"
  using expo_subnormal [OF assms] by (simp add: rd_def ulp_def)

lemma rd_nonneg: "0 \<le> x \<Longrightarrow> 0 \<le> rd x"
proof -
  assume "0 \<le> x"
  then have "0 \<le> x / ulp x" by (intro divide_nonneg_nonneg) simp_all
  then have "0 \<le> \<lfloor>x / ulp x\<rfloor>" by simp
  with roundEven_bounds(1) [of "x / ulp x"] have "0 \<le> roundEven (x / ulp x)" by linarith
  then show ?thesis by (simp add: rd_def)
qed

lemma rd_normal_bounds:
  assumes "2 powi (- 1022) \<le> x"
  shows "2 powi (expo x) \<le> rd x" and "rd x \<le> 2 powi (expo x + 1)"
proof -
  have x: "0 < x" using assms pow2_pos [of "- 1022"] by linarith
  then have ax: "\<bar>x\<bar> = x" by simp
  from expo_normal [of x] assms ax
  have lo: "2 powi (expo x) \<le> x" and hi: "x < 2 powi (expo x + 1)" by simp_all
  have u: "ulp x * 2 ^ 52 = 2 powi (expo x)"
  proof -
    have "(2::real) powi (expo x - 52) * 2 powi 52 = 2 powi (expo x - 52 + 52)"
      by (rule pow2_add)
    then show ?thesis by (simp add: ulp_def)
  qed
  have u2: "ulp x * 2 ^ 53 = 2 powi (expo x + 1)"
  proof -
    have "(2::real) powi (expo x - 52) * 2 powi 53 = 2 powi (expo x - 52 + 53)"
      by (rule pow2_add)
    moreover have "expo x - 52 + 53 = expo x + 1" by simp
    ultimately show ?thesis by (simp add: ulp_def add.commute)
  qed
  have "of_int (2 ^ 52) \<le> x / ulp x"
    using lo u by (simp add: field_simps)
  then have "2 ^ 52 \<le> \<lfloor>x / ulp x\<rfloor>" by (simp only: le_floor_iff)
  with roundEven_bounds(1) [of "x / ulp x"] have "2 ^ 52 \<le> roundEven (x / ulp x)" by linarith
  then have "(2::real) ^ 52 \<le> of_int (roundEven (x / ulp x))"
    by (rule of_int_pow2_le)
  then have "ulp x * 2 ^ 52 \<le> ulp x * of_int (roundEven (x / ulp x))"
    by (rule mult_left_mono) simp
  also have "\<dots> = rd x" unfolding rd_def by (rule mult.commute)
  finally show "2 powi (expo x) \<le> rd x" unfolding u .
  have "x / ulp x < of_int (2 ^ 53)"
    using hi u2 by (simp add: field_simps)
  then have "\<lfloor>x / ulp x\<rfloor> < 2 ^ 53" by (simp only: floor_less_iff)
  with roundEven_bounds(2) [of "x / ulp x"] have "roundEven (x / ulp x) \<le> 2 ^ 53" by linarith
  then have "of_int (roundEven (x / ulp x)) \<le> (2::real) ^ 53"
    by (rule of_int_le_pow2)
  then have "ulp x * of_int (roundEven (x / ulp x)) \<le> ulp x * 2 ^ 53"
    by (rule mult_left_mono) simp
  moreover have "ulp x * of_int (roundEven (x / ulp x)) = rd x"
    unfolding rd_def by (rule mult.commute)
  ultimately show "rd x \<le> 2 powi (expo x + 1)" unfolding u2 by simp
qed

lemma rd_subnormal_bound:
  assumes "0 \<le> x" and "x < 2 powi (- 1022)"
  shows "rd x \<le> 2 powi (- 1022)"
proof -
  have e: "expo x = - 1022" using assms by (intro expo_subnormal) simp
  have u: "ulp x = 2 powi (- 1074)" by (simp add: ulp_def e)
  have "(2::real) powi (- 1074) * 2 powi 52 = 2 powi (- 1074 + 52)"
    by (rule pow2_add)
  then have u2: "(2::real) powi (- 1074) * 2 ^ 52 = 2 powi (- 1022)" by simp
  have "x / 2 powi (- 1074) < of_int (2 ^ 52)"
    using assms(2) u2 by (simp add: field_simps)
  then have "\<lfloor>x / 2 powi (- 1074)\<rfloor> < 2 ^ 52" by (simp only: floor_less_iff)
  with roundEven_bounds(2) [of "x / 2 powi (- 1074)"]
  have "roundEven (x / 2 powi (- 1074)) \<le> 2 ^ 52" by linarith
  then have "of_int (roundEven (x / 2 powi (- 1074))) \<le> (2::real) ^ 52"
    by (rule of_int_le_pow2)
  then have "2 powi (- 1074) * of_int (roundEven (x / 2 powi (- 1074)))
      \<le> (2::real) powi (- 1074) * 2 ^ 52"
    by (rule mult_left_mono) simp
  moreover have "2 powi (- 1074) * of_int (roundEven (x / 2 powi (- 1074))) = rd x"
    unfolding rd_def u by (rule mult.commute)
  ultimately show ?thesis unfolding u2 by simp
qed

lemma expo_mono_nonneg:
  assumes "0 \<le> x" and "x \<le> y"
  shows "expo x \<le> expo y"
proof (cases "2 powi (- 1022) \<le> x")
  case False
  then have "expo x = - 1022" using assms(1) by (intro expo_subnormal) simp
  moreover have "- 1022 \<le> expo y" by (simp add: expo_def)
  ultimately show ?thesis by simp
next
  case True
  then have ny: "2 powi (- 1022) \<le> y" using assms by linarith
  have ax: "\<bar>x\<bar> = x" "\<bar>y\<bar> = y" using assms by simp_all
  from expo_normal(1) [of x] True ax have "2 powi (expo x) \<le> x" by simp
  moreover from expo_normal(2) [of y] ny ax have "y < 2 powi (expo y + 1)" by simp
  ultimately have "(2::real) powi (expo x) < 2 powi (expo y + 1)" using assms by linarith
  then have "expo x < expo y + 1" by (rule pow2_less_cancel)
  then show ?thesis by simp
qed

lemma rd_mono_nonneg:
  assumes "0 \<le> x" and "x \<le> y"
  shows "rd x \<le> rd y"
proof (cases "expo x = expo y")
  case True
  then have u: "ulp x = ulp y" by (simp add: ulp_def)
  have "x / ulp y \<le> y / ulp y" using assms(2) by (intro divide_right_mono) simp_all
  then have "roundEven (x / ulp y) \<le> roundEven (y / ulp y)" by (rule roundEven_mono)
  then have "of_int (roundEven (x / ulp y)) * ulp y \<le> of_int (roundEven (y / ulp y)) * ulp y"
    by (intro mult_right_mono) simp_all
  then show ?thesis by (simp add: rd_def u)
next
  case False
  with expo_mono_nonneg [OF assms] have lt: "expo x < expo y" by simp
  have "- 1022 \<le> expo x" by (simp add: expo_def)
  with lt have ey: "- 1022 < expo y" by simp
  have ny: "2 powi (- 1022) \<le> y"
  proof (rule ccontr)
    assume "\<not> 2 powi (- 1022) \<le> y"
    then have "\<bar>y\<bar> < 2 powi (- 1022)" using assms by simp
    then have "expo y = - 1022" by (rule expo_subnormal)
    with ey show False by simp
  qed
  have step: "(2::real) powi (expo x + 1) \<le> 2 powi (expo y)"
    using lt by (intro pow2_mono) simp
  have "rd x \<le> 2 powi (expo x + 1)"
  proof (cases "2 powi (- 1022) \<le> x")
    case True
    then show ?thesis by (rule rd_normal_bounds(2))
  next
    case False
    then have "x < 2 powi (- 1022)" by simp
    from rd_subnormal_bound [OF assms(1) this]
    have "rd x \<le> 2 powi (- 1022)" .
    moreover have "(2::real) powi (- 1022) \<le> 2 powi (expo x + 1)"
      using \<open>- 1022 \<le> expo x\<close> by (intro pow2_mono) simp
    ultimately show ?thesis by linarith
  qed
  also note step
  also have "2 powi (expo y) \<le> rd y" using ny by (rule rd_normal_bounds(1))
  finally show ?thesis .
qed

lemma rd_mono:
  assumes "x \<le> y"
  shows "rd x \<le> rd y"
proof (cases "0 \<le> x")
  case True
  then show ?thesis using assms by (rule rd_mono_nonneg)
next
  case False
  show ?thesis
  proof (cases "y \<le> 0")
    case True
    then have "rd (- y) \<le> rd (- x)" using assms by (intro rd_mono_nonneg) simp_all
    then show ?thesis by (simp add: rd_minus)
  next
    case False
    then have "0 \<le> rd y" by (intro rd_nonneg) simp
    moreover have "0 \<le> rd (- x)" using \<open>\<not> 0 \<le> x\<close> by (intro rd_nonneg) simp
    ultimately show ?thesis by (simp add: rd_minus)
  qed
qed

lemma rd_pow2:
  assumes "- 1074 \<le> k"
  shows "rd (2 powi k) = 2 powi k"
proof -
  have e: "- 1074 \<le> expo (2 powi k :: real) - 52" by (simp add: expo_def)
  have le: "expo (2 powi k :: real) \<le> max (- 1022) k"
  proof (cases "- 1022 \<le> k")
    case True
    have "expo (2 powi k :: real) = k"
      using True by (intro expo_eqI) (simp_all add: pow2_strict_mono)
    then show ?thesis by simp
  next
    case False
    then have "(2::real) powi k < 2 powi (- 1022)" by (intro pow2_strict_mono) simp
    then have "expo (2 powi k :: real) = - 1022" by (intro expo_subnormal) simp
    then show ?thesis by simp
  qed
  define j where "j = k - (expo (2 powi k :: real) - 52)"
  have j: "0 \<le> j" using le assms by (simp add: j_def max_def split: if_splits)
  have "(2::real) powi k / ulp (2 powi k) = 2 powi j"
    by (simp add: ulp_def j_def pow2_split)
  also have "\<dots> = of_int (2 ^ nat j)" using j by (simp add: power_int_nonneg_exp)
  finally have "roundEven (2 powi k / ulp (2 powi k)) = 2 ^ nat j"
    by (simp only: roundEven_of_int)
  then have "rd (2 powi k) = of_int (2 ^ nat j) * ulp (2 powi k)" by (simp add: rd_def)
  also have "of_int (2 ^ nat j) = (2::real) powi j" using j by (simp add: power_int_nonneg_exp)
  also have "2 powi j * ulp (2 powi k) = 2 powi (j + (expo (2 powi k :: real) - 52))"
    unfolding ulp_def by (rule pow2_add)
  also have "j + (expo (2 powi k :: real) - 52) = k" by (simp add: j_def)
  finally show ?thesis .
qed

lemma rd_one: "rd 1 = 1"
  using rd_pow2 [of 0] by simp

text \<open>A double that is not zero is at least the smallest subnormal number, and in the
  normal range the rounding has a relative error of at most \<open>2 ^ -53\<close>.\<close>

lemma rd_grid: "rd x = 0 \<or> 2 powi (- 1074) \<le> \<bar>rd x\<bar>"
proof (cases "roundEven (x / ulp x) = 0")
  case True
  then show ?thesis by (simp add: rd_def)
next
  case False
  then have "1 \<le> \<bar>roundEven (x / ulp x)\<bar>" by simp
  then have "1 \<le> \<bar>of_int (roundEven (x / ulp x)) :: real\<bar>"
    by (metis of_int_1_le_iff of_int_abs)
  moreover have "(2::real) powi (- 1074) \<le> ulp x"
    unfolding ulp_def by (intro pow2_mono) (simp add: expo_def)
  ultimately have "1 * 2 powi (- 1074) \<le> \<bar>of_int (roundEven (x / ulp x)) :: real\<bar> * ulp x"
    by (intro mult_mono) simp_all
  then have "2 powi (- 1074) \<le> \<bar>rd x\<bar>"
    unfolding rd_def abs_mult abs_ulp by (simp only: mult_1)
  then show ?thesis ..
qed

lemma rd_rel_error:
  assumes "2 powi (- 1022) \<le> \<bar>x\<bar>"
  shows "\<bar>rd x - x\<bar> \<le> 2 powi (- 53) * \<bar>x\<bar>"
proof -
  have "rd x - x = (of_int (roundEven (x / ulp x)) - x / ulp x) * ulp x"
    by (simp add: rd_def left_diff_distrib)
  then have "\<bar>rd x - x\<bar> = \<bar>of_int (roundEven (x / ulp x)) - x / ulp x\<bar> * ulp x"
    by (simp add: abs_mult)
  also have "\<dots> \<le> 1 / 2 * ulp x"
    using roundEven_near [of "x / ulp x"] by (intro mult_right_mono) simp_all
  also have "1 / 2 * ulp x = 2 powi (- 53) * 2 powi (expo x)"
  proof -
    have "(2::real) powi (- 53) * 2 powi (expo x) = 2 powi (- 53 + expo x)"
      by (rule pow2_add)
    also have "- 53 + expo x = (expo x - 52) - 1" by simp
    also have "(2::real) powi ((expo x - 52) - 1) = 2 powi (expo x - 52) / 2 powi 1"
      by (rule pow2_split)
    finally show ?thesis by (simp add: ulp_def)
  qed
  also have "\<dots> \<le> 2 powi (- 53) * \<bar>x\<bar>"
    using expo_normal(1) [OF assms] by (intro mult_left_mono) simp_all
  finally show ?thesis .
qed

lemma rd_rel:
  assumes "x = 0 \<or> 2 powi (- 1022) \<le> \<bar>x\<bar>"
  shows "\<exists>d. \<bar>d\<bar> \<le> 2 powi (- 53) \<and> rd x = x * (1 + d)"
proof (cases "x = 0")
  case True
  have "0 \<le> (2::real) powi (- 53)" using pow2_pos [of "- 53"] by linarith
  with True show ?thesis by (intro exI [of _ 0]) simp
next
  case False
  with assms have n: "2 powi (- 1022) \<le> \<bar>x\<bar>" by blast
  define d where "d = (rd x - x) / x"
  have "rd x = x * (1 + d)" using False by (simp add: d_def field_simps)
  moreover have "\<bar>d\<bar> \<le> 2 powi (- 53)"
  proof -
    have "\<bar>d\<bar> = \<bar>rd x - x\<bar> / \<bar>x\<bar>" by (simp add: d_def)
    also have "\<dots> \<le> (2 powi (- 53) * \<bar>x\<bar>) / \<bar>x\<bar>"
      using rd_rel_error [OF n] by (intro divide_right_mono) simp_all
    also have "\<dots> = 2 powi (- 53)" using False by simp
    finally show ?thesis .
  qed
  ultimately show ?thesis by blast
qed

subsection \<open>Operations whose result is finite\<close>

text \<open>A rounding is computed from the binade of its argument: \<open>e\<close> is the exponent and
  \<open>n\<close> the significand of the result, both checked by evaluation.\<close>

lemma rd_certificate:
  assumes "2 powi e \<le> \<bar>x\<bar>" and "\<bar>x\<bar> < 2 powi (e + 1)" and "- 1022 \<le> e"
    and "roundEven (x / 2 powi (e - 52)) = n" and "of_int n * 2 powi (e - 52) = r"
  shows "rd x = r"
  using rd_eqI [OF assms(1-3)] assms(4,5) by simp

lemma rd_abs_le:
  assumes "\<bar>x\<bar> \<le> 2 powi k" and "- 1074 \<le> k"
  shows "\<bar>rd x\<bar> \<le> 2 powi k"
proof -
  have "x \<le> 2 powi k" and "- (2 powi k) \<le> x" using assms(1) by linarith+
  then have "rd x \<le> rd (2 powi k)" and "rd (- (2 powi k)) \<le> rd x"
    by (auto intro: rd_mono)
  then show ?thesis
    unfolding rd_minus rd_pow2 [OF assms(2)] by linarith
qed

lemma rd_ge_pow2:
  assumes "2 powi k \<le> x" and "- 1074 \<le> k"
  shows "2 powi k \<le> rd x"
  using rd_mono [OF assms(1)] unfolding rd_pow2 [OF assms(2)] .

lemma fl_finite:
  assumes "\<bar>x\<bar> \<le> 2 powi k" and "- 1074 \<le> k" and "k < 1024"
  shows "fl x = Fin (rd x)"
proof -
  have "\<bar>rd x\<bar> \<le> 2 powi k" using assms(1,2) by (rule rd_abs_le)
  moreover have "(2::real) powi k < 2 powi 1024" using assms(3) by (rule pow2_strict_mono)
  ultimately have "\<not> 2 powi 1024 \<le> rd x" and "\<not> rd x \<le> - (2 powi 1024)" by linarith+
  then show ?thesis unfolding fl_def Let_def by (simp only: if_False)
qed

lemma fl_overflow:
  assumes "2 powi 1024 \<le> x"
  shows "fl x = PosInf"
proof -
  have "2 powi 1024 \<le> rd x" using assms by (rule rd_ge_pow2) simp
  then show ?thesis unfolding fl_def Let_def by (simp only: if_True)
qed

lemma fl_zero: "fl 0 = Fin 0"
  using fl_finite [of 0 0] by simp

lemma fl_cases: "fl x = Fin (rd x) \<or> fl x = PosInf \<or> fl x = NegInf"
  unfolding fl_def Let_def
  by (cases "2 powi 1024 \<le> rd x"; cases "rd x \<le> - (2 powi 1024)")
     (simp_all only: if_True if_False simp_thms)

lemma clamp_fl: "\<exists>t. jsMax (- 1) (jsMin 1 (fl x)) = Fin t \<and> - 1 \<le> t \<and> t \<le> 1"
  using fl_cases [of x] by (elim disjE) simp_all

lemma flMul_finite:
  assumes "\<bar>x\<bar> \<le> 2 powi j" and "\<bar>y\<bar> \<le> 2 powi k" and "j + k = l"
    and "- 1074 \<le> l" and "l < 1024"
  shows "flMul (Fin x) (Fin y) = Fin (rd (x * y))" and "\<bar>rd (x * y)\<bar> \<le> 2 powi l"
proof -
  have "\<bar>x\<bar> * \<bar>y\<bar> \<le> 2 powi j * 2 powi k"
    using assms(1,2) by (intro mult_mono) simp_all
  then have b: "\<bar>x * y\<bar> \<le> 2 powi l" by (simp only: abs_mult pow2_add assms(3))
  from fl_finite [OF b assms(4,5)] show "flMul (Fin x) (Fin y) = Fin (rd (x * y))"
    by (simp only: flMul.simps)
  from rd_abs_le [OF b assms(4)] show "\<bar>rd (x * y)\<bar> \<le> 2 powi l" .
qed

lemma flAdd_finite:
  assumes "\<bar>x\<bar> \<le> 2 powi k" and "\<bar>y\<bar> \<le> 2 powi k" and "k + 1 = l"
    and "- 1074 \<le> l" and "l < 1024"
  shows "flAdd (Fin x) (Fin y) = Fin (rd (x + y))" and "\<bar>rd (x + y)\<bar> \<le> 2 powi l"
proof -
  have "\<bar>x + y\<bar> \<le> 2 * 2 powi k" using assms(1,2) by linarith
  then have b: "\<bar>x + y\<bar> \<le> 2 powi l" by (simp only: pow2_Suc [symmetric] assms(3))
  from fl_finite [OF b assms(4,5)] show "flAdd (Fin x) (Fin y) = Fin (rd (x + y))"
    by (simp only: flAdd.simps)
  from rd_abs_le [OF b assms(4)] show "\<bar>rd (x + y)\<bar> \<le> 2 powi l" .
qed

lemma fl_certificate:
  assumes "2 powi e \<le> \<bar>x\<bar>" and "\<bar>x\<bar> < 2 powi (e + 1)" and "- 1022 \<le> e" and "e < 1023"
    and "roundEven (x / 2 powi (e - 52)) = n" and "of_int n * 2 powi (e - 52) = r"
  shows "fl x = Fin r"
proof -
  have "rd x = r" using assms(1,2,3,5,6) by (rule rd_certificate)
  moreover have "\<bar>x\<bar> \<le> 2 powi (e + 1)" using assms(2) by linarith
  then have "fl x = Fin (rd x)" by (rule fl_finite) (use assms(3,4) in simp_all)
  ultimately show ?thesis by simp
qed

section \<open>The angle function in double precision\<close>

lemma fl_difference:
  assumes "\<bar>x\<bar> \<le> 2 powi 500" and "\<bar>y\<bar> \<le> 2 powi 500"
  shows "fl (x - y) = Fin (rd (x - y))" and "\<bar>rd (x - y)\<bar> \<le> 2 powi 501"
proof -
  have e: "(500::int) + 1 = 501" by simp
  have "\<bar>x - y\<bar> \<le> 2 * 2 powi 500" using assms by linarith
  then have b: "\<bar>x - y\<bar> \<le> 2 powi 501" by (simp only: pow2_Suc [symmetric] e)
  show "fl (x - y) = Fin (rd (x - y))" using b by (rule fl_finite) simp_all
  show "\<bar>rd (x - y)\<bar> \<le> 2 powi 501" using b by (rule rd_abs_le) simp
qed

lemma sum_of_products_finite:
  assumes "\<bar>x1\<bar> \<le> 2 powi 501" and "\<bar>y1\<bar> \<le> 2 powi 501" and "\<bar>z1\<bar> \<le> 2 powi 501"
    and "\<bar>x2\<bar> \<le> 2 powi 501" and "\<bar>y2\<bar> \<le> 2 powi 501" and "\<bar>z2\<bar> \<le> 2 powi 501"
  shows "flAdd (flAdd (flMul (Fin x1) (Fin x2)) (flMul (Fin y1) (Fin y2))) (flMul (Fin z1) (Fin z2))
       = Fin (rd (rd (rd (x1 * x2) + rd (y1 * y2)) + rd (z1 * z2)))"
    and "\<bar>rd (rd (rd (x1 * x2) + rd (y1 * y2)) + rd (z1 * z2))\<bar> \<le> 2 powi 1004"
proof -
  have e: "(501::int) + 501 = 1002" "(1002::int) + 1 = 1003" "(1003::int) + 1 = 1004"
    "- 1074 \<le> (1002::int)" "(1002::int) < 1024" "- 1074 \<le> (1003::int)" "(1003::int) < 1024"
    "- 1074 \<le> (1004::int)" "(1004::int) < 1024"
    by simp_all
  note px = flMul_finite [OF assms(1) assms(4) e(1) e(4) e(5)]
  note py = flMul_finite [OF assms(2) assms(5) e(1) e(4) e(5)]
  note pz = flMul_finite [OF assms(3) assms(6) e(1) e(4) e(5)]
  note s1 = flAdd_finite [OF px(2) py(2) e(2) e(6) e(7)]
  have "(2::real) powi 1002 \<le> 2 powi 1003" by (rule pow2_mono) simp
  with pz(2) have pz': "\<bar>rd (z1 * z2)\<bar> \<le> 2 powi 1003" by linarith
  note s2 = flAdd_finite [OF s1(2) pz' e(3) e(8) e(9)]
  show "flAdd (flAdd (flMul (Fin x1) (Fin x2)) (flMul (Fin y1) (Fin y2))) (flMul (Fin z1) (Fin z2))
       = Fin (rd (rd (rd (x1 * x2) + rd (y1 * y2)) + rd (z1 * z2)))"
    by (simp only: px(1) py(1) pz(1) s1(1) s2(1))
  show "\<bar>rd (rd (rd (x1 * x2) + rd (y1 * y2)) + rd (z1 * z2))\<bar> \<le> 2 powi 1004"
    by (rule s2(2))
qed

lemma sqrt_pow2: "sqrt (2 powi (2 * k)) = 2 powi k"
proof (rule real_sqrt_unique)
  have "(2::real) powi k * 2 powi k = 2 powi (k + k)" by (rule pow2_add)
  then show "(2 powi k)\<^sup>2 = (2::real) powi (2 * k)" by (simp add: power2_eq_square)
  show "0 \<le> (2::real) powi k" using pow2_pos [of k] by linarith
qed

lemma magnitudeFl_finite:
  assumes "\<bar>x\<bar> \<le> 2 powi 501" and "\<bar>y\<bar> \<le> 2 powi 501" and "\<bar>z\<bar> \<le> 2 powi 501"
  shows "\<exists>m. magnitudeFl \<lparr>wx = Fin x, wy = Fin y, wz = Fin z\<rparr> = Fin m
           \<and> (m = 0 \<or> 2 powi (- 537) \<le> m) \<and> m \<le> 2 powi 502"
proof -
  define s where "s = rd (rd (rd (x * x) + rd (y * y)) + rd (z * z))"
  note sp = sum_of_products_finite [OF assms assms, folded s_def]
  have "0 \<le> rd (x * x)" "0 \<le> rd (y * y)" "0 \<le> rd (z * z)" by (simp_all add: rd_nonneg)
  then have "0 \<le> rd (x * x) + rd (y * y)" and z0: "0 \<le> rd (z * z)" by linarith+
  then have "0 \<le> rd (rd (x * x) + rd (y * y))" by (intro rd_nonneg)
  with z0 have "0 \<le> rd (rd (x * x) + rd (y * y)) + rd (z * z)" by linarith
  then have s0: "0 \<le> s" unfolding s_def by (rule rd_nonneg)
  have e: "(2::int) * 502 = 1004" "(2::int) * (- 537) = - 1074" by simp_all
  from sp(2) s0 have s1: "s \<le> 2 powi (2 * 502)" unfolding e by linarith
  have "sqrt s \<le> sqrt (2 powi (2 * 502))" using s1 by (simp only: real_sqrt_le_iff)
  then have q1: "sqrt s \<le> 2 powi 502" by (simp only: sqrt_pow2)
  have q0: "0 \<le> sqrt s" using s0 by simp
  from q0 q1 have qa: "\<bar>sqrt s\<bar> \<le> 2 powi 502" by linarith
  have "fl (sqrt s) = Fin (rd (sqrt s))" using qa by (rule fl_finite) simp_all
  then have "flSqrt (Fin s) = Fin (rd (sqrt s))" using s0 by simp
  moreover have "magnitudeFl \<lparr>wx = Fin x, wy = Fin y, wz = Fin z\<rparr> = flSqrt (Fin s)"
    unfolding magnitudeFl_def by (simp only: VectorFl.select_convs sp(1))
  ultimately have m: "magnitudeFl \<lparr>wx = Fin x, wy = Fin y, wz = Fin z\<rparr> = Fin (rd (sqrt s))"
    by simp
  have "\<bar>rd (sqrt s)\<bar> \<le> 2 powi 502" using qa by (rule rd_abs_le) simp
  then have up: "rd (sqrt s) \<le> 2 powi 502" by linarith
  have "s = 0 \<or> 2 powi (- 1074) \<le> \<bar>s\<bar>" unfolding s_def by (rule rd_grid)
  then have "rd (sqrt s) = 0 \<or> 2 powi (- 537) \<le> rd (sqrt s)"
  proof
    assume "s = 0"
    then show ?thesis by simp
  next
    assume "2 powi (- 1074) \<le> \<bar>s\<bar>"
    with s0 have "2 powi (2 * (- 537)) \<le> s" unfolding e by linarith
    then have "sqrt (2 powi (2 * (- 537))) \<le> sqrt s" by (simp only: real_sqrt_le_iff)
    then have "2 powi (- 537) \<le> sqrt s" by (simp only: sqrt_pow2)
    then have "2 powi (- 537) \<le> rd (sqrt s)" by (rule rd_ge_pow2) simp
    then show ?thesis ..
  qed
  with m up show ?thesis by blast
qed

subsection \<open>The constant \<open>Math.PI\<close>\<close>

text \<open>Machin's formula and the alternating series of the arc tangent bracket \<open>\<pi>\<close>
  between two decimals that round to the same double.\<close>

lemma arctan_series_bounds:
  fixes x :: real
  assumes "0 < x" and "x \<le> 1"
  shows "(\<Sum>k<2 * n. (- 1) ^ k * (1 / real (k * 2 + 1) * x ^ (k * 2 + 1))) \<le> arctan x"
    and "arctan x \<le> (\<Sum>k<2 * n + 1. (- 1) ^ k * (1 / real (k * 2 + 1) * x ^ (k * 2 + 1)))"
proof -
  have ax: "\<bar>x\<bar> \<le> 1" using assms by simp
  have pos: "0 < 1 / real (0 * 2 + 1) * x ^ (0 * 2 + 1)" using assms by simp
  from summable_Leibniz(2) [OF zeroseq_arctan_series [OF ax] monoseq_arctan_series [OF ax]] pos
  have "(\<Sum>k. (- 1) ^ k * (1 / real (k * 2 + 1) * x ^ (k * 2 + 1)))
      \<in> {\<Sum>k<2 * n. (- 1) ^ k * (1 / real (k * 2 + 1) * x ^ (k * 2 + 1)) ..
         \<Sum>k<2 * n + 1. (- 1) ^ k * (1 / real (k * 2 + 1) * x ^ (k * 2 + 1))}"
    by blast
  then show "(\<Sum>k<2 * n. (- 1) ^ k * (1 / real (k * 2 + 1) * x ^ (k * 2 + 1))) \<le> arctan x"
    and "arctan x \<le> (\<Sum>k<2 * n + 1. (- 1) ^ k * (1 / real (k * 2 + 1) * x ^ (k * 2 + 1)))"
    unfolding arctan_series [OF ax] by simp_all
qed

lemma pi_upper: "pi \<le> 31415926535897933 / 10000000000000000"
proof -
  have "pi = 16 * arctan (1 / 5) - 4 * arctan (1 / 239)"
    using machin by simp
  moreover have "arctan (1 / 5)
      \<le> (\<Sum>k<2 * 6 + 1. (- 1) ^ k * (1 / real (k * 2 + 1) * (1 / 5) ^ (k * 2 + 1)))"
    by (rule arctan_series_bounds(2)) simp_all
  moreover have "(\<Sum>k<2 * 2. (- 1) ^ k * (1 / real (k * 2 + 1) * (1 / 239) ^ (k * 2 + 1)))
      \<le> arctan (1 / 239)"
    by (rule arctan_series_bounds(1)) simp_all
  ultimately show ?thesis
    by (simp add: eval_nat_numeral)
qed

lemma rd_pi_upper: "rd (31415926535897933 / 10000000000000000) = MathPI"
  unfolding MathPI_def
  by (rule rd_certificate [where e = 1 and n = 7074237752028440])
     (simp_all add: roundEven_def power_int_minus)

lemma pi_lower: "31415926535897932 / 10000000000000000 \<le> pi"
proof -
  have "pi = 16 * arctan (1 / 5) - 4 * arctan (1 / 239)"
    using machin by simp
  moreover have "(\<Sum>k<2 * 6. (- 1) ^ k * (1 / real (k * 2 + 1) * (1 / 5) ^ (k * 2 + 1)))
      \<le> arctan (1 / 5)"
    by (rule arctan_series_bounds(1)) simp_all
  moreover have "arctan (1 / 239)
      \<le> (\<Sum>k<2 * 2 + 1. (- 1) ^ k * (1 / real (k * 2 + 1) * (1 / 239) ^ (k * 2 + 1)))"
    by (rule arctan_series_bounds(2)) simp_all
  ultimately show ?thesis
    by (simp add: eval_nat_numeral)
qed

lemma rd_pi_lower: "rd (31415926535897932 / 10000000000000000) = MathPI"
  unfolding MathPI_def
  by (rule rd_certificate [where e = 1 and n = 7074237752028440])
     (simp_all add: roundEven_def power_int_minus)

lemma rd_pi: "rd pi = MathPI"
  using rd_mono [OF pi_lower] rd_mono [OF pi_upper]
  unfolding rd_pi_lower rd_pi_upper by (rule antisym [rotated])

text \<open>\<open>180 / Math.PI\<close> is the double \<open>57.29577951308232\<close>, and its product with \<open>Math.PI\<close>
  rounds to 180.\<close>

lemma degrees_per_radian:
  "flDiv (Fin 180) (Fin MathPI) = Fin (1007958012753983 / 17592186044416)"
proof -
  have r: "rd (180 / MathPI) = 1007958012753983 / 17592186044416"
    unfolding MathPI_def
    by (rule rd_certificate [where e = 5 and n = 8063664102031864])
       (simp_all add: roundEven_def power_int_minus)
  have "\<bar>180 / MathPI\<bar> \<le> 2 powi 6" by (simp add: MathPI_def)
  from fl_finite [OF this] have "fl (180 / MathPI) = Fin (rd (180 / MathPI))" by simp
  moreover have "MathPI \<noteq> 0" by (simp add: MathPI_def)
  ultimately show ?thesis by (simp add: r)
qed

lemma straight_angle_rounded: "rd (MathPI * (1007958012753983 / 17592186044416)) = 180"
  unfolding MathPI_def
  by (rule rd_certificate [where e = 7 and n = 6333186975989760])
     (simp_all add: roundEven_def power_int_minus)

lemma flAcos_range:
  assumes "- 1 \<le> t" and "t \<le> 1"
  shows "\<exists>r. flAcos (Fin t) = Fin r \<and> 0 \<le> r \<and> r \<le> MathPI"
proof -
  have lo: "0 \<le> arccos t" using assms by (rule arccos_lbound)
  have "arccos t \<le> pi" using assms by (rule arccos_ubound)
  with pi_upper have up: "arccos t \<le> 31415926535897933 / 10000000000000000" by linarith
  from rd_mono [OF up] have r1: "rd (arccos t) \<le> MathPI" by (simp only: rd_pi_upper)
  have r0: "0 \<le> rd (arccos t)" using lo by (rule rd_nonneg)
  have "\<bar>arccos t\<bar> \<le> 2 powi 2" using lo up by simp
  from fl_finite [OF this] have "fl (arccos t) = Fin (rd (arccos t))" by simp
  then show ?thesis using assms r0 r1 by simp
qed

lemma degrees_range:
  assumes "0 \<le> r" and "r \<le> MathPI"
  shows "\<exists>d. flMul (Fin r) (Fin (1007958012753983 / 17592186044416)) = Fin d \<and> 0 \<le> d \<and> d \<le> 180"
proof -
  let ?K = "1007958012753983 / 17592186044416 :: real"
  have lo: "0 \<le> r * ?K" using assms(1) by simp
  have up: "r * ?K \<le> MathPI * ?K" using assms(2) by (intro mult_right_mono) simp_all
  from rd_mono [OF up] have d1: "rd (r * ?K) \<le> 180" by (simp only: straight_angle_rounded)
  have d0: "0 \<le> rd (r * ?K)" using lo by (rule rd_nonneg)
  have "MathPI * ?K \<le> 2 powi 8" by (simp add: MathPI_def)
  with lo up have "\<bar>r * ?K\<bar> \<le> 2 powi 8" by linarith
  from fl_finite [OF this] have "fl (r * ?K) = Fin (rd (r * ?K))" by simp
  then show ?thesis using d0 d1 by simp
qed

subsection \<open>The claim on the angle function\<close>

text \<open>
  C10 (counterexample). Finite coordinates do not suffice. For the points
  \<open>(2 ^ 600, 0, 0)\<close>, \<open>(0, 0, 0)\<close> and \<open>(2 ^ 600, 2 ^ 600, 0)\<close> the squares of the
  coordinates overflow: the dot product and both magnitudes are infinite, neither
  magnitude is zero, and the quotient of two infinities is NaN, which \<open>Math.min\<close>,
  \<open>Math.max\<close>, \<open>Math.acos\<close> and the product pass on. The angle function returns NaN.
\<close>

theorem calculateAngleFl_overflow:
  "calculateAngleFl (point3 (2 powi 600) 0 0) (point3 0 0 0) (point3 (2 powi 600) (2 powi 600) 0)
     = NaN"
proof -
  define P :: real where "P = 2 powi 600"
  have "\<bar>P\<bar> \<le> 2 powi 600" by (simp add: P_def)
  then have "fl P = Fin (rd P)" by (rule fl_finite) simp_all
  moreover have "rd P = P" unfolding P_def by (rule rd_pow2) simp
  ultimately have f: "fl P = Fin P" by simp
  have "(2::real) powi 1024 \<le> 2 powi 1200" by (rule pow2_mono) simp
  moreover have "P * P = 2 powi 1200" unfolding P_def using pow2_add [of 600 600] by simp
  ultimately have "2 powi 1024 \<le> P * P" by simp
  then have g: "fl (P * P) = PosInf" by (rule fl_overflow)
  show ?thesis
    unfolding P_def [symmetric]
    by (simp add: calculateAngleFl_def Let_def point3_def toVector3D_def orElse_def
        subtractVectorsFl_def dotProductFl_def magnitudeFl_def f g fl_zero)
qed

text \<open>
  C10 (amended). For all points \<open>a\<close>, \<open>b\<close>, \<open>c\<close> whose coordinates are at most \<open>2 ^ 500\<close>
  in absolute value, the 3D angle function returns a finite number between 0 and 180,
  never NaN. No intermediate result overflows; a magnitude that is not zero is at least
  \<open>2 ^ -537\<close>, so the product of the two magnitudes is not zero and the quotient is not
  \<open>0 / 0\<close>; the clamped quotient lies in \<open>[-1, 1]\<close>, its arc cosine is at most \<open>Math.PI\<close>,
  and the product with \<open>180 / Math.PI\<close> is at most 180.
\<close>

theorem calculateAngleFl_in_range:
  assumes "moderate a" and "moderate b" and "moderate c"
  shows "\<exists>r. calculateAngleFl a b c = Fin r \<and> 0 \<le> r \<and> r \<le> 180"
proof -
  define x1 where "x1 = rd (px a - px b)"
  define y1 where "y1 = rd (py a - py b)"
  define z1 where "z1 = rd (orElse (pz a) 0 - orElse (pz b) 0)"
  define x2 where "x2 = rd (px c - px b)"
  define y2 where "y2 = rd (py c - py b)"
  define z2 where "z2 = rd (orElse (pz c) 0 - orElse (pz b) 0)"
  from assms have ma: "\<bar>px a\<bar> \<le> 2 powi 500" "\<bar>py a\<bar> \<le> 2 powi 500"
      "\<bar>orElse (pz a) 0\<bar> \<le> 2 powi 500"
    and mb: "\<bar>px b\<bar> \<le> 2 powi 500" "\<bar>py b\<bar> \<le> 2 powi 500"
      "\<bar>orElse (pz b) 0\<bar> \<le> 2 powi 500"
    and mc: "\<bar>px c\<bar> \<le> 2 powi 500" "\<bar>py c\<bar> \<le> 2 powi 500"
      "\<bar>orElse (pz c) 0\<bar> \<le> 2 powi 500"
    unfolding moderate_def by blast+
  have ba: "subtractVectorsFl (toVector3D a) (toVector3D b) = \<lparr>wx = Fin x1, wy = Fin y1, wz = Fin z1\<rparr>"
    unfolding subtractVectorsFl_def toVector3D_def Vector3D.select_convs x1_def y1_def z1_def
    by (simp only: fl_difference(1) [OF ma(1) mb(1)] fl_difference(1) [OF ma(2) mb(2)]
        fl_difference(1) [OF ma(3) mb(3)])
  have bc: "subtractVectorsFl (toVector3D c) (toVector3D b) = \<lparr>wx = Fin x2, wy = Fin y2, wz = Fin z2\<rparr>"
    unfolding subtractVectorsFl_def toVector3D_def Vector3D.select_convs x2_def y2_def z2_def
    by (simp only: fl_difference(1) [OF mc(1) mb(1)] fl_difference(1) [OF mc(2) mb(2)]
        fl_difference(1) [OF mc(3) mb(3)])
  have b1: "\<bar>x1\<bar> \<le> 2 powi 501" "\<bar>y1\<bar> \<le> 2 powi 501" "\<bar>z1\<bar> \<le> 2 powi 501"
    unfolding x1_def y1_def z1_def
    by (rule fl_difference(2) [OF ma(1) mb(1)] fl_difference(2) [OF ma(2) mb(2)]
        fl_difference(2) [OF ma(3) mb(3)])+
  have b2: "\<bar>x2\<bar> \<le> 2 powi 501" "\<bar>y2\<bar> \<le> 2 powi 501" "\<bar>z2\<bar> \<le> 2 powi 501"
    unfolding x2_def y2_def z2_def
    by (rule fl_difference(2) [OF mc(1) mb(1)] fl_difference(2) [OF mc(2) mb(2)]
        fl_difference(2) [OF mc(3) mb(3)])+
  obtain d where dot: "dotProductFl \<lparr>wx = Fin x1, wy = Fin y1, wz = Fin z1\<rparr>
      \<lparr>wx = Fin x2, wy = Fin y2, wz = Fin z2\<rparr> = Fin d"
    unfolding dotProductFl_def VectorFl.select_convs
    using sum_of_products_finite(1) [OF b1 b2] by blast
  from magnitudeFl_finite [OF b1] obtain m1
    where m1: "magnitudeFl \<lparr>wx = Fin x1, wy = Fin y1, wz = Fin z1\<rparr> = Fin m1"
      "m1 = 0 \<or> 2 powi (- 537) \<le> m1" "m1 \<le> 2 powi 502" by blast
  from magnitudeFl_finite [OF b2] obtain m2
    where m2: "magnitudeFl \<lparr>wx = Fin x2, wy = Fin y2, wz = Fin z2\<rparr> = Fin m2"
      "m2 = 0 \<or> 2 powi (- 537) \<le> m2" "m2 \<le> 2 powi 502" by blast
  show ?thesis
  proof (cases "m1 = 0 \<or> m2 = 0")
    case True
    then have "calculateAngleFl a b c = Fin 0"
      unfolding calculateAngleFl_def Let_def ba bc m1(1) m2(1) by auto
    then show ?thesis by simp
  next
    case False
    with m1(2) m2(2) have lo1: "2 powi (- 537) \<le> m1" and lo2: "2 powi (- 537) \<le> m2" by blast+
    have p1: "0 < m1" "0 < m2"
      using lo1 lo2 pow2_pos [of "- 537"] by linarith+
    have h: "0 \<le> (2::real) powi (- 537)" using pow2_pos [of "- 537"] by linarith
    have "2 powi (- 537) * 2 powi (- 537) \<le> m1 * m2"
      using lo1 lo2 h by (intro mult_mono) linarith+
    moreover have "(- 537::int) + (- 537) = - 1074" by simp
    ultimately have plo: "2 powi (- 1074) \<le> m1 * m2" by (simp only: pow2_add)
    have am: "\<bar>m1\<bar> \<le> 2 powi 502" "\<bar>m2\<bar> \<le> 2 powi 502" using p1 m1(3) m2(3) by linarith+
    have prod: "flMul (Fin m1) (Fin m2) = Fin (rd (m1 * m2))"
      using am by (rule flMul_finite(1) [where l = 1004]) simp_all
    have "2 powi (- 1074) \<le> rd (m1 * m2)" using plo by (rule rd_ge_pow2) simp
    with pow2_pos [of "- 1074"] have nz: "rd (m1 * m2) \<noteq> 0" by linarith
    obtain t where t: "jsMax (- 1) (jsMin 1 (fl (d / rd (m1 * m2)))) = Fin t" "- 1 \<le> t" "t \<le> 1"
      using clamp_fl by blast
    from flAcos_range [OF t(2,3)] obtain r where r: "flAcos (Fin t) = Fin r" "0 \<le> r" "r \<le> MathPI"
      by blast
    from degrees_range [OF r(2,3)] obtain g
      where g: "flMul (Fin r) (Fin (1007958012753983 / 17592186044416)) = Fin g" "0 \<le> g" "g \<le> 180"
      by blast
    have z: "Fin m1 \<noteq> Fin 0" "Fin m2 \<noteq> Fin 0" using False by simp_all
    have "flDiv (Fin d) (Fin (rd (m1 * m2))) = fl (d / rd (m1 * m2))"
      using nz by simp
    then have "calculateAngleFl a b c = Fin g"
      unfolding calculateAngleFl_def Let_def ba bc m1(1) m2(1) dot prod degrees_per_radian
      using z by (simp only: t(1) r(1) g(1) simp_thms if_False)
    with g show ?thesis by blast
  qed
qed

theorem calculateAngleFl_in_range_witness:
  "moderate (point3 1 0 0) \<and> moderate (point3 0 0 0) \<and> moderate (point3 0 1 0)
   \<and> (\<exists>r. calculateAngleFl (point3 1 0 0) (point3 0 0 0) (point3 0 1 0) = Fin r
         \<and> 0 \<le> r \<and> r \<le> 180)"
  using calculateAngleFl_in_range [of "point3 1 0 0" "point3 0 0 0" "point3 0 1 0"]
  by (simp add: moderate_def point3_def orElse_def)

section \<open>The smoother in double precision\<close>

subsection \<open>The accumulated rounding error\<close>

text \<open>With \<open>u = 2 ^ -53\<close>: after \<open>m\<close> roundings a sum of positive terms lies between
  \<open>(1 - u) ^ m\<close> and \<open>(1 + u) ^ m\<close> times its exact value.\<close>

lemma unit_roundoff: "0 \<le> (2::real) powi (- 53)" "(2::real) powi (- 53) \<le> 1 / 2"
proof -
  show "0 \<le> (2::real) powi (- 53)" using pow2_pos [of "- 53"] by linarith
  have "(2::real) powi (- 53) \<le> 2 powi (- 1)" by (rule pow2_mono) simp
  then show "(2::real) powi (- 53) \<le> 1 / 2" by (simp add: power_int_minus)
qed

lemma pow_lower:
  assumes "m \<le> 6"
  shows "1 / 2 \<le> (1 - 2 powi (- 53) :: real) ^ m"
proof -
  have "(1 - 2 powi (- 53) :: real) ^ 6 \<le> (1 - 2 powi (- 53)) ^ m"
    using assms unit_roundoff by (intro power_decreasing) linarith+
  moreover have "1 / 2 \<le> (1 - 2 powi (- 53) :: real) ^ 6"
    by (simp add: power_int_minus power_divide)
  ultimately show ?thesis by linarith
qed

lemma pow_upper:
  assumes "m \<le> 6"
  shows "(1 + 2 powi (- 53) :: real) ^ m \<le> 2"
proof -
  have "(1 + 2 powi (- 53) :: real) ^ m \<le> (1 + 2 powi (- 53)) ^ 6"
    using assms unit_roundoff by (intro power_increasing) linarith+
  moreover have "(1 + 2 powi (- 53) :: real) ^ 6 \<le> 2"
    by (simp add: power_int_minus power_divide)
  ultimately show ?thesis by linarith
qed

lemma accumulate_bounds:
  fixes u w T L U A e h :: real
  assumes u: "0 \<le> u" "u \<le> 1"
    and w: "0 \<le> w" and T: "0 \<le> T"
    and L: "0 \<le> L" "L \<le> 1 - u" and U: "1 + u \<le> U"
    and A: "T * L \<le> A" "A \<le> T * U"
    and e: "\<bar>e\<bar> \<le> u" and h: "\<bar>h\<bar> \<le> u"
  shows "(T + w) * (L * (1 - u)) \<le> (A + w * (1 + e)) * (1 + h)"
    and "(A + w * (1 + e)) * (1 + h) \<le> (T + w) * (U * (1 + u))"
    and "(T + w) * L \<le> A + w * (1 + e)"
    and "A + w * (1 + e) \<le> (T + w) * U"
proof -
  have e1: "1 - u \<le> 1 + e" "1 + e \<le> 1 + u" using e by linarith+
  have h1: "1 - u \<le> 1 + h" "1 + h \<le> 1 + u" "0 \<le> 1 + h" using h u by linarith+
  have "w * L \<le> w * (1 - u)" using L(2) w by (rule mult_left_mono)
  also have "\<dots> \<le> w * (1 + e)" using e1(1) w by (rule mult_left_mono)
  finally have "T * L + w * L \<le> A + w * (1 + e)" using A(1) by linarith
  then show lo: "(T + w) * L \<le> A + w * (1 + e)" by (simp add: distrib_right)
  have "w * (1 + e) \<le> w * (1 + u)" using e1(2) w by (rule mult_left_mono)
  also have "\<dots> \<le> w * U" using U w by (rule mult_left_mono)
  finally have "A + w * (1 + e) \<le> T * U + w * U" using A(2) by linarith
  then show hi: "A + w * (1 + e) \<le> (T + w) * U" by (simp add: distrib_right)
  have TL: "0 \<le> (T + w) * L" using T w L(1) by simp
  with lo have F0: "0 \<le> A + w * (1 + e)" by linarith
  have "(T + w) * L * (1 - u) \<le> (A + w * (1 + e)) * (1 - u)"
    using lo u by (intro mult_right_mono) linarith+
  also have "\<dots> \<le> (A + w * (1 + e)) * (1 + h)"
    using h1(1) F0 by (rule mult_left_mono)
  finally show "(T + w) * (L * (1 - u)) \<le> (A + w * (1 + e)) * (1 + h)"
    by (simp add: mult.assoc)
  have "(A + w * (1 + e)) * (1 + h) \<le> (A + w * (1 + e)) * (1 + u)"
    using h1(2) F0 by (rule mult_left_mono)
  also have "\<dots> \<le> (T + w) * U * (1 + u)"
    using hi u by (intro mult_right_mono) linarith+
  finally show "(A + w * (1 + e)) * (1 + h) \<le> (T + w) * (U * (1 + u))"
    by (simp add: mult.assoc)
qed

lemma moderate_product:
  fixes v F :: real
  assumes "v = 0 \<or> 2 powi (- 200) \<le> \<bar>v\<bar>" and "\<bar>v\<bar> \<le> 2 powi 200"
    and "2 powi (- 300) \<le> F" and "F \<le> 2 powi 300"
  shows "v * F = 0 \<or> 2 powi (- 1022) \<le> \<bar>v * F\<bar>" and "\<bar>v * F\<bar> \<le> 2 powi 500"
proof -
  have F0: "0 < F" using assms(3) pow2_pos [of "- 300"] by linarith
  then have aF: "\<bar>F\<bar> = F" by simp
  have "\<bar>v\<bar> * \<bar>F\<bar> \<le> 2 powi 200 * 2 powi 300"
    using assms(2,4) aF by (intro mult_mono) simp_all
  moreover have "(200::int) + 300 = 500" by simp
  ultimately show "\<bar>v * F\<bar> \<le> 2 powi 500" by (simp only: abs_mult pow2_add)
  show "v * F = 0 \<or> 2 powi (- 1022) \<le> \<bar>v * F\<bar>"
  proof (cases "v = 0")
    case True
    then show ?thesis by simp
  next
    case False
    with assms(1) have "2 powi (- 200) \<le> \<bar>v\<bar>" by blast
    then have "2 powi (- 200) * 2 powi (- 300) \<le> \<bar>v\<bar> * \<bar>F\<bar>"
      using assms(3) aF by (intro mult_mono) simp_all
    moreover have "(- 200::int) + (- 300) = - 500" by simp
    ultimately have "2 powi (- 500) \<le> \<bar>v * F\<bar>" by (simp only: abs_mult pow2_add)
    moreover have "(2::real) powi (- 1022) \<le> 2 powi (- 500)" by (rule pow2_mono) simp
    ultimately show ?thesis by linarith
  qed
qed

lemma rd_decay_range: "2 powi (- 1) \<le> rd decay" "rd decay \<le> 1"
proof -
  have "2 powi (- 1) \<le> decay" by (simp add: decay_def power_int_minus)
  then show "2 powi (- 1) \<le> rd decay" by (rule rd_ge_pow2) simp
  have "decay \<le> 1" by (simp add: decay_def)
  from rd_mono [OF this] show "rd decay \<le> 1" by (simp only: rd_one)
qed

lemma recency_range:
  assumes "k \<le> 4"
  shows "flPow (rd decay) k = Fin (rd (rd decay ^ k))"
    and "2 powi (- 4) \<le> rd (rd decay ^ k)" and "rd (rd decay ^ k) \<le> 1"
proof -
  have half: "(2::real) powi (- 1) = 1 / 2" by (simp add: power_int_minus)
  have d0: "0 \<le> rd decay" using rd_decay_range(1) pow2_pos [of "- 1"] by linarith
  have up: "rd decay ^ k \<le> 1" using d0 rd_decay_range(2) by (rule power_le_one)
  have "(1 / 2 :: real) ^ 4 \<le> (1 / 2) ^ k" using assms by (intro power_decreasing) simp_all
  also have "\<dots> \<le> rd decay ^ k"
    using rd_decay_range(1) unfolding half by (intro power_mono) simp_all
  finally have "1 / 16 \<le> rd decay ^ k" by (simp add: power_divide)
  moreover have "(2::real) powi (- 4) = 1 / 16" by (simp add: power_int_minus)
  ultimately have lo: "2 powi (- 4) \<le> rd decay ^ k" by simp
  from lo show "2 powi (- 4) \<le> rd (rd decay ^ k)" by (rule rd_ge_pow2) simp
  from rd_mono [OF up] show "rd (rd decay ^ k) \<le> 1" by (simp only: rd_one)
  have "0 \<le> rd decay ^ k" using d0 by simp
  with up have "\<bar>rd decay ^ k\<bar> \<le> 2 powi 0" by simp
  then have "fl (rd decay ^ k) = Fin (rd (rd decay ^ k))" by (rule fl_finite) simp_all
  then show "flPow (rd decay) k = Fin (rd (rd decay ^ k))" by (simp add: flPow_def)
qed

lemma weight_range:
  assumes "2 powi (- 200) \<le> c" and "c \<le> 2 powi 200" and "k \<le> 4"
  shows "\<exists>w. flMul (Fin c) (flPow (rd decay) k) = Fin w \<and> 2 powi (- 204) \<le> w \<and> w \<le> 2 powi 200"
proof -
  define R where "R = rd (rd decay ^ k)"
  note r = recency_range [OF assms(3), folded R_def]
  have c0: "0 < c" using assms(1) pow2_pos [of "- 200"] by linarith
  have R0: "0 < R" using r(2) pow2_pos [of "- 4"] by linarith
  have "2 powi (- 200) * 2 powi (- 4) \<le> c * R"
    using assms(1) r(2) c0 by (intro mult_mono) simp_all
  moreover have "(- 200::int) + (- 4) = - 204" by simp
  ultimately have lo: "2 powi (- 204) \<le> c * R" by (simp only: pow2_add)
  have "c * R \<le> c * 1" using r(3) c0 by (intro mult_left_mono) simp_all
  with assms(2) have up: "c * R \<le> 2 powi 200" by simp
  have "0 \<le> c * R" using c0 R0 by simp
  with up have a: "\<bar>c * R\<bar> \<le> 2 powi 200" by simp
  have "fl (c * R) = Fin (rd (c * R))" using a by (rule fl_finite) simp_all
  then have "flMul (Fin c) (flPow (rd decay) k) = Fin (rd (c * R))" by (simp add: r(1))
  moreover have "2 powi (- 204) \<le> rd (c * R)" using lo by (rule rd_ge_pow2) simp
  moreover have "rd (c * R) \<le> 2 powi 200" using rd_abs_le [OF a] by simp
  ultimately show ?thesis by blast
qed

lemma accumulate_step:
  fixes v w T A t :: real
  assumes v: "v = 0 \<or> 2 powi (- 200) \<le> \<bar>v\<bar>" "\<bar>v\<bar> \<le> 2 powi 200"
    and w: "2 powi (- 204) \<le> w" "w \<le> 2 powi 200"
    and T: "0 \<le> T" "T \<le> 2 powi 203"
    and m: "1 \<le> m" "m \<le> 5" and n: "n = Suc m"
    and A: "T * (1 - 2 powi (- 53)) ^ m \<le> A" "A \<le> T * (1 + 2 powi (- 53)) ^ m"
    and t: "T * (1 - 2 powi (- 53)) ^ m \<le> t" "t \<le> T * (1 + 2 powi (- 53)) ^ m"
  shows "\<exists>A' t'. flAdd (Fin (v * A)) (flMul (Fin v) (Fin w)) = Fin (v * A')
      \<and> flAdd (Fin t) (Fin w) = Fin t'
      \<and> (T + w) * (1 - 2 powi (- 53)) ^ n \<le> A' \<and> A' \<le> (T + w) * (1 + 2 powi (- 53)) ^ n
      \<and> (T + w) * (1 - 2 powi (- 53)) ^ n \<le> t' \<and> t' \<le> (T + w) * (1 + 2 powi (- 53)) ^ n"
proof -
  define u :: real where "u = 2 powi (- 53)"
  define L where "L = (1 - u) ^ m"
  define U where "U = (1 + u) ^ m"
  note A' = A [folded u_def, folded L_def U_def]
  note t' = t [folded u_def, folded L_def U_def]
  have u: "0 \<le> u" "u \<le> 1 / 2" unfolding u_def by (rule unit_roundoff)+
  then have u1: "u \<le> 1" by linarith
  have m6: "m \<le> 6" using m by simp
  have L2: "1 / 2 \<le> L" unfolding L_def u_def using m6 by (rule pow_lower)
  then have L0: "0 \<le> L" by linarith
  have U2: "U \<le> 2" unfolding U_def u_def using m6 by (rule pow_upper)
  have "(1 - u) ^ m \<le> (1 - u) ^ 1" using m(1) u by (intro power_decreasing) linarith+
  then have L1: "L \<le> 1 - u" by (simp add: L_def)
  have "(1 + u) ^ 1 \<le> (1 + u) ^ m" using m(1) u by (intro power_increasing) linarith+
  then have U1: "1 + u \<le> U" by (simp add: U_def)
  have w0: "0 \<le> w" using w(1) pow2_pos [of "- 204"] by linarith
  have wlo: "2 powi (- 300) \<le> w"
  proof -
    have "(2::real) powi (- 300) \<le> 2 powi (- 204)" by (rule pow2_mono) simp
    with w(1) show ?thesis by linarith
  qed
  have whi: "w \<le> 2 powi 300"
  proof -
    have "(2::real) powi 200 \<le> 2 powi 300" by (rule pow2_mono) simp
    with w(2) show ?thesis by linarith
  qed
  have range: "2 powi (- 300) \<le> F \<and> F \<le> 2 powi 300"
    if "(T + w) * L \<le> F" and "F \<le> (T + w) * U" for F
  proof
    have "(2::real) powi (- 300) \<le> 2 powi (- 205)" by (rule pow2_mono) simp
    moreover have "(2::real) powi (- 204) = 2 * 2 powi (- 205)"
      using pow2_Suc [of "- 205"] by simp
    ultimately have "2 powi (- 300) \<le> w * (1 / 2)" using w(1) by linarith
    also have "\<dots> \<le> w * L" using L2 w0 by (rule mult_left_mono)
    also have "\<dots> \<le> (T + w) * L" using T(1) L0 by (intro mult_right_mono) linarith+
    finally show "2 powi (- 300) \<le> F" using that(1) by linarith
    have "(2::real) powi 204 = 2 * 2 powi 203" using pow2_Suc [of 203] by simp
    moreover have "(2::real) powi 200 \<le> 2 powi 203" by (rule pow2_mono) simp
    ultimately have "T + w \<le> 2 powi 204" using T(2) w(2) by linarith
    moreover have "0 \<le> T + w" using T(1) w0 by linarith
    ultimately have "(T + w) * U \<le> 2 powi 204 * 2" using U2 U1 u by (intro mult_mono) linarith+
    also have "\<dots> = 2 powi 205" using pow2_Suc [of 204] by simp
    also have "\<dots> \<le> 2 powi 300" by (rule pow2_mono) simp
    finally show "F \<le> 2 powi 300" using that(2) by linarith
  qed
  note vw = moderate_product [OF v wlo whi]
  have pm: "flMul (Fin v) (Fin w) = Fin (rd (v * w))"
    using fl_finite [OF vw(2)] by simp
  from rd_rel [OF vw(1)] obtain e where e: "\<bar>e\<bar> \<le> u" "rd (v * w) = v * w * (1 + e)"
    unfolding u_def by blast
  define F where "F = A + w * (1 + e)"
  have z: "\<bar>0::real\<bar> \<le> u" using u by simp
  note b = accumulate_bounds [OF u(1) u1 w0 T(1) L0 L1 U1 A' e(1)]
  have Fab: "(T + w) * L \<le> F" "F \<le> (T + w) * U"
    unfolding F_def by (rule b(3) [OF z] b(4) [OF z])+
  from range [OF Fab] have Fr: "2 powi (- 300) \<le> F" "F \<le> 2 powi 300" by blast+
  note vF = moderate_product [OF v Fr]
  have sum: "v * A + rd (v * w) = v * F" by (simp add: F_def e(2) algebra_simps)
  from rd_rel [OF vF(1)] obtain h where h: "\<bar>h\<bar> \<le> u" "rd (v * F) = v * F * (1 + h)"
    unfolding u_def by blast
  have "flAdd (Fin (v * A)) (flMul (Fin v) (Fin w)) = flAdd (Fin (v * A)) (Fin (rd (v * w)))"
    by (simp only: pm)
  also have "\<dots> = Fin (rd (v * F))"
    using fl_finite [OF vF(2)] by (simp add: sum)
  also have "rd (v * F) = v * (F * (1 + h))" by (simp add: h(2) mult.assoc)
  finally have s: "flAdd (Fin (v * A)) (flMul (Fin v) (Fin w)) = Fin (v * (F * (1 + h)))" .
  have sb: "(T + w) * (L * (1 - u)) \<le> F * (1 + h)" "F * (1 + h) \<le> (T + w) * (U * (1 + u))"
    unfolding F_def by (rule b(1) [OF h(1)] b(2) [OF h(1)])+
  note c = accumulate_bounds [OF u(1) u1 w0 T(1) L0 L1 U1 t' z]
  have Gab: "(T + w) * L \<le> t + w" "t + w \<le> (T + w) * U"
    using c(3) [OF z] c(4) [OF z] by simp_all
  from range [OF Gab] have Gr: "2 powi (- 300) \<le> t + w" "t + w \<le> 2 powi 300" by blast+
  have G0: "0 < t + w" using Gr(1) pow2_pos [of "- 300"] by linarith
  then have Ga: "\<bar>t + w\<bar> \<le> 2 powi 300" using Gr(2) by simp
  have "(2::real) powi (- 1022) \<le> 2 powi (- 300)" by (rule pow2_mono) simp
  then have Gn: "t + w = 0 \<or> 2 powi (- 1022) \<le> \<bar>t + w\<bar>" using Gr(1) G0 by simp
  have tw: "flAdd (Fin t) (Fin w) = Fin (rd (t + w))"
    using fl_finite [OF Ga] by simp
  from rd_rel [OF Gn] obtain g where g: "\<bar>g\<bar> \<le> u" "rd (t + w) = (t + w) * (1 + g)"
    unfolding u_def by blast
  have tb: "(T + w) * (L * (1 - u)) \<le> rd (t + w)" "rd (t + w) \<le> (T + w) * (U * (1 + u))"
    using c(1) [OF g(1)] c(2) [OF g(1)] by (simp_all add: g(2))
  have LS: "L * (1 - u) = (1 - 2 powi (- 53)) ^ n" and US: "U * (1 + u) = (1 + 2 powi (- 53)) ^ n"
    by (simp_all add: L_def U_def u_def n)
  from s tw sb tb show ?thesis unfolding LS US by blast
qed

lemma final_factors:
  "(1 + 2 powi (- 53)) ^ 6 * (1 + 2 powi (- 53)) \<le> (1 + 2 powi (- 49)) * (1 - 2 powi (- 53) :: real) ^ 6"
  "(1 - 2 powi (- 49)) * (1 + 2 powi (- 53)) ^ 6 \<le> (1 - 2 powi (- 53) :: real) ^ 6 * (1 - 2 powi (- 53))"
  by (simp_all add: power_int_minus power_divide)

lemma quotient_step:
  fixes v T A t :: real
  assumes v: "v = 0 \<or> 2 powi (- 200) \<le> \<bar>v\<bar>" "\<bar>v\<bar> \<le> 2 powi 200"
    and T: "0 < T"
    and A: "T * (1 - 2 powi (- 53)) ^ 6 \<le> A" "A \<le> T * (1 + 2 powi (- 53)) ^ 6"
    and t: "T * (1 - 2 powi (- 53)) ^ 6 \<le> t" "t \<le> T * (1 + 2 powi (- 53)) ^ 6"
  shows "0 < t"
    and "\<exists>r. flDiv (Fin (v * A)) (Fin t) = Fin r \<and> \<bar>r - v\<bar> \<le> 2 powi (- 49) * \<bar>v\<bar>"
proof -
  define u :: real where "u = 2 powi (- 53)"
  define y :: real where "y = 2 powi (- 49)"
  define L where "L = (1 - u) ^ 6"
  define U where "U = (1 + u) ^ 6"
  note A' = A [folded u_def, folded L_def U_def]
  note t' = t [folded u_def, folded L_def U_def]
  note ff = final_factors [folded u_def y_def, folded L_def U_def]
  have u: "0 \<le> u" "u \<le> 1 / 2" unfolding u_def by (rule unit_roundoff)+
  have y: "0 \<le> y" "y \<le> 1 / 2"
  proof -
    show "0 \<le> y" unfolding y_def using pow2_pos [of "- 49"] by linarith
    have "(2::real) powi (- 49) \<le> 2 powi (- 1)" by (rule pow2_mono) simp
    then show "y \<le> 1 / 2" by (simp add: y_def power_int_minus)
  qed
  have L2: "1 / 2 \<le> L" unfolding L_def u_def by (rule pow_lower) simp
  have U2: "U \<le> 2" unfolding U_def u_def by (rule pow_upper) simp
  have "(1::real) ^ 6 \<le> (1 + u) ^ 6" using u by (intro power_mono) linarith+
  then have U1: "1 \<le> U" by (simp add: U_def)
  have "(1 - u) ^ 6 \<le> (1::real) ^ 6" using u by (intro power_mono) linarith+
  then have L1: "L \<le> 1" by (simp add: L_def)
  have TL: "T * (1 / 2) \<le> T * L" using L2 T by (intro mult_left_mono) linarith+
  with t'(1) T show t0: "0 < t" by linarith
  have A0: "0 < A" using TL A'(1) T by linarith
  have TU: "T * U \<le> T * 2" using U2 T by (intro mult_left_mono) linarith+
  define q where "q = A / t"
  have q0: "0 < q" using A0 t0 by (simp add: q_def)
  have "A \<le> 4 * t" using A'(2) TU TL t'(1) by linarith
  then have q4: "q \<le> 4" using t0 by (simp add: q_def field_simps)
  have "t \<le> 4 * A" using t'(2) TU TL A'(1) by linarith
  then have q14: "1 / 4 \<le> q" using t0 by (simp add: q_def field_simps)
  have "(2::real) powi (- 300) \<le> 2 powi (- 2)" by (rule pow2_mono) simp
  moreover have "(2::real) powi (- 2) = 1 / 4" by (simp add: power_int_minus)
  ultimately have qlo: "2 powi (- 300) \<le> q" using q14 by linarith
  have "(2::real) powi 2 \<le> 2 powi 300" by (rule pow2_mono) simp
  then have qhi: "q \<le> 2 powi 300" using q4 by simp
  note vq = moderate_product [OF v qlo qhi]
  from rd_rel [OF vq(1)] obtain z where z: "\<bar>z\<bar> \<le> u" "rd (v * q) = v * q * (1 + z)"
    unfolding u_def by blast
  have "flDiv (Fin (v * A)) (Fin t) = fl (v * A / t)" using t0 by simp
  also have "v * A / t = v * q" by (simp add: q_def)
  also have "fl (v * q) = Fin (rd (v * q))" using vq(2) by (rule fl_finite) simp_all
  finally have r: "flDiv (Fin (v * A)) (Fin t) = Fin (v * q * (1 + z))" by (simp only: z(2))
  have z1: "1 - u \<le> 1 + z" "1 + z \<le> 1 + u" using z(1) by linarith+
  have up: "A * (1 + z) \<le> (1 + y) * t"
  proof -
    have "A * (1 + z) \<le> A * (1 + u)" using z1(2) A0 by (intro mult_left_mono) linarith+
    also have "\<dots> \<le> T * U * (1 + u)" using A'(2) u by (intro mult_right_mono) linarith+
    also have "\<dots> = T * (U * (1 + u))" by (simp add: mult.assoc)
    also have "\<dots> \<le> T * ((1 + y) * L)" using ff(1) T by (intro mult_left_mono) linarith+
    also have "\<dots> = (1 + y) * (T * L)" by (simp add: mult.commute mult.left_commute)
    also have "\<dots> \<le> (1 + y) * t" using t'(1) y by (intro mult_left_mono) linarith+
    finally show ?thesis .
  qed
  have lo: "(1 - y) * t \<le> A * (1 + z)"
  proof -
    have "(1 - y) * t \<le> (1 - y) * (T * U)" using t'(2) y by (intro mult_left_mono) linarith+
    also have "\<dots> = T * ((1 - y) * U)" by (simp add: mult.commute mult.left_commute)
    also have "\<dots> \<le> T * (L * (1 - u))" using ff(2) T by (intro mult_left_mono) linarith+
    also have "\<dots> = T * L * (1 - u)" by (simp add: mult.assoc)
    also have "\<dots> \<le> A * (1 - u)" using A'(1) u by (intro mult_right_mono) linarith+
    also have "\<dots> \<le> A * (1 + z)" using z1(1) A0 by (intro mult_left_mono) linarith+
    finally show ?thesis .
  qed
  have "\<bar>A * (1 + z) - t\<bar> \<le> y * t"
    using up lo by (simp add: abs_le_iff algebra_simps)
  then have "\<bar>A * (1 + z) - t\<bar> / t \<le> y"
    using t0 by (simp add: field_simps)
  moreover have "q * (1 + z) - 1 = (A * (1 + z) - t) / t"
    using t0 by (simp add: q_def field_simps)
  ultimately have e: "\<bar>q * (1 + z) - 1\<bar> \<le> y" using t0 by (simp add: abs_divide)
  have "v * q * (1 + z) - v = v * (q * (1 + z) - 1)" by (simp add: algebra_simps)
  then have "\<bar>v * q * (1 + z) - v\<bar> = \<bar>v\<bar> * \<bar>q * (1 + z) - 1\<bar>" by (simp add: abs_mult)
  also have "\<dots> \<le> \<bar>v\<bar> * y" using e by (intro mult_left_mono) simp_all
  finally have "\<bar>v * q * (1 + z) - v\<bar> \<le> 2 powi (- 49) * \<bar>v\<bar>" by (simp add: y_def mult.commute)
  with r show "\<exists>r. flDiv (Fin (v * A)) (Fin t) = Fin r \<and> \<bar>r - v\<bar> \<le> 2 powi (- 49) * \<bar>v\<bar>"
    by blast
qed

subsection \<open>Five equal samples\<close>

lemma smoothLoopFl_five:
  assumes "vals b = replicate 5 v" and "weights b = replicate 5 c"
  shows "smoothLoopFl b 0 ws tw =
     (flAdd (flAdd (flAdd (flAdd (flAdd ws
        (flMul (Fin v) (flMul (Fin c) (flPow (rd decay) 4))))
        (flMul (Fin v) (flMul (Fin c) (flPow (rd decay) 3))))
        (flMul (Fin v) (flMul (Fin c) (flPow (rd decay) 2))))
        (flMul (Fin v) (flMul (Fin c) (flPow (rd decay) 1))))
        (flMul (Fin v) (flMul (Fin c) (flPow (rd decay) 0))),
      flAdd (flAdd (flAdd (flAdd (flAdd tw
        (flMul (Fin c) (flPow (rd decay) 4)))
        (flMul (Fin c) (flPow (rd decay) 3)))
        (flMul (Fin c) (flPow (rd decay) 2)))
        (flMul (Fin c) (flPow (rd decay) 1)))
        (flMul (Fin c) (flPow (rd decay) 0)))"
  by (simp add: smoothLoopFl.simps [of b] assms Let_def)

lemma fst_smoothMetricFl: "fst (smoothMetricFl b v c) = pushBuffer b v c"
  by (simp add: smoothMetricFl_def Let_def split: prod.splits)

lemma pushAllFl_pushAll: "pushAllFl b ps = pushAll b ps"
  by (induction b ps rule: pushAll.induct) (simp_all add: fst_smoothMetricFl fst_smoothMetric)

lemma five_pushes:
  "vals (pushBuffer (pushAll (pushAll emptyBuffer ps) (replicate 4 (v, c))) v c) = replicate 5 v"
  "weights (pushBuffer (pushAll (pushAll emptyBuffer ps) (replicate 4 (v, c))) v c) = replicate 5 c"
proof -
  let ?qs = "ps @ replicate 4 (v, c)"
  have five: "replicate 4 (v, c) @ [(v, c)] = replicate 5 (v, c)"
    by (simp add: numeral_eq_Suc replicate_append_same)
  have all: "?qs @ [(v, c)] = ps @ replicate 5 (v, c)"
    using five by simp
  have "vals (pushBuffer (pushAll emptyBuffer ?qs) v c) = replicate 5 v"
    "weights (pushBuffer (pushAll emptyBuffer ?qs) v c) = replicate 5 c"
    using pushAll_shape [of "?qs @ [(v, c)]"]
    unfolding all pushAll_snoc [symmetric]
    by (simp_all add: lastN_replicate [of 5 "map fst ps" v, simplified]
        lastN_replicate [of 5 "map snd ps" c, simplified])
  then show "vals (pushBuffer (pushAll (pushAll emptyBuffer ps) (replicate 4 (v, c))) v c) = replicate 5 v"
    "weights (pushBuffer (pushAll (pushAll emptyBuffer ps) (replicate 4 (v, c))) v c) = replicate 5 c"
    by (simp_all add: pushAll_append)
qed

subsection \<open>The claim on constant input\<close>

text \<open>
  C8 (counterexample). After the pairs \<open>(10, 1)\<close> and \<open>(170, 0)\<close>, the pair \<open>(90, 1/2)\<close>
  is pushed five times in a row. The fifth call does not return 90: it returns the next
  double above it, \<open>6333186975989761 / 2 ^ 46\<close>, which prints as \<open>90.00000000000001\<close>.
  Every rounding of the run is checked: the literal \<open>0.8\<close>, its four powers, and for each
  of the five samples the weight, the product and the two sums, then the quotient.
\<close>

theorem smoothMetricFl_constant_90:
  "snd (smoothMetricFl (pushAllFl (pushAllFl emptyBuffer [(10, 1), (170, 0)])
          (replicate 4 (90, 1 / 2))) 90 (1 / 2))
     = Fin (6333186975989761 / 70368744177664)
   \<and> (90::real) < 6333186975989761 / 70368744177664"
proof -
  have d: "rd decay = 3602879701896397 / 4503599627370496"
    unfolding decay_def
    by (rule rd_certificate [where e = "-1" and n = 7205759403792794]) (simp_all add: roundEven_def power_int_minus power_divide)
  have r4: "flPow (rd decay) 4 = Fin (3689348814741911 / 9007199254740992)"
    unfolding flPow_def d
    by (rule fl_certificate [where e = "-2" and n = 7378697629483822]) (simp_all add: roundEven_def power_int_minus power_divide)
  have r3: "flPow (rd decay) 3 = Fin (4611686018427389 / 9007199254740992)"
    unfolding flPow_def d
    by (rule fl_certificate [where e = "-1" and n = 4611686018427389]) (simp_all add: roundEven_def power_int_minus power_divide)
  have r2: "flPow (rd decay) 2 = Fin (1441151880758559 / 2251799813685248)"
    unfolding flPow_def d
    by (rule fl_certificate [where e = "-1" and n = 5764607523034236]) (simp_all add: roundEven_def power_int_minus power_divide)
  have r1: "flPow (rd decay) 1 = Fin (3602879701896397 / 4503599627370496)"
    unfolding flPow_def d
    by (rule fl_certificate [where e = "-1" and n = 7205759403792794]) (simp_all add: roundEven_def power_int_minus power_divide)
  have r0: "flPow (rd decay) 0 = Fin 1"
    unfolding flPow_def using fl_finite [of 1 0] by (simp add: rd_one)
  have w0: "flMul (Fin (1 / 2)) (Fin (3689348814741911 / 9007199254740992)) = Fin (3689348814741911 / 18014398509481984)"
    unfolding flMul.simps
    by (rule fl_certificate [where e = "-3" and n = 7378697629483822]) (simp_all add: roundEven_def power_int_minus power_divide)
  have p0: "flMul (Fin 90) (Fin (3689348814741911 / 18014398509481984)) = Fin (1297036692682703 / 70368744177664)"
    unfolding flMul.simps
    by (rule fl_certificate [where e = "4" and n = 5188146770730812]) (simp_all add: roundEven_def power_int_minus power_divide)
  have s0: "flAdd (Fin 0) (Fin (1297036692682703 / 70368744177664)) = Fin (1297036692682703 / 70368744177664)"
    unfolding flAdd.simps
    by (rule fl_certificate [where e = "4" and n = 5188146770730812]) (simp_all add: roundEven_def power_int_minus power_divide)
  have t0: "flAdd (Fin 0) (Fin (3689348814741911 / 18014398509481984)) = Fin (3689348814741911 / 18014398509481984)"
    unfolding flAdd.simps
    by (rule fl_certificate [where e = "-3" and n = 7378697629483822]) (simp_all add: roundEven_def power_int_minus power_divide)
  have w1: "flMul (Fin (1 / 2)) (Fin (4611686018427389 / 9007199254740992)) = Fin (4611686018427389 / 18014398509481984)"
    unfolding flMul.simps
    by (rule fl_certificate [where e = "-2" and n = 4611686018427389]) (simp_all add: roundEven_def power_int_minus power_divide)
  have p1: "flMul (Fin 90) (Fin (4611686018427389 / 18014398509481984)) = Fin (1621295865853379 / 70368744177664)"
    unfolding flMul.simps
    by (rule fl_certificate [where e = "4" and n = 6485183463413516]) (simp_all add: roundEven_def power_int_minus power_divide)
  have s1: "flAdd (Fin (1297036692682703 / 70368744177664)) (Fin (1621295865853379 / 70368744177664)) = Fin (1459166279268041 / 35184372088832)"
    unfolding flAdd.simps
    by (rule fl_certificate [where e = "5" and n = 5836665117072164]) (simp_all add: roundEven_def power_int_minus power_divide)
  have t1: "flAdd (Fin (3689348814741911 / 18014398509481984)) (Fin (4611686018427389 / 18014398509481984)) = Fin (2075258708292325 / 4503599627370496)"
    unfolding flAdd.simps
    by (rule fl_certificate [where e = "-2" and n = 8301034833169300]) (simp_all add: roundEven_def power_int_minus power_divide)
  have w2: "flMul (Fin (1 / 2)) (Fin (1441151880758559 / 2251799813685248)) = Fin (1441151880758559 / 4503599627370496)"
    unfolding flMul.simps
    by (rule fl_certificate [where e = "-2" and n = 5764607523034236]) (simp_all add: roundEven_def power_int_minus power_divide)
  have p2: "flMul (Fin 90) (Fin (1441151880758559 / 4503599627370496)) = Fin (4053239664633447 / 140737488355328)"
    unfolding flMul.simps
    by (rule fl_certificate [where e = "4" and n = 8106479329266894]) (simp_all add: roundEven_def power_int_minus power_divide)
  have s2: "flAdd (Fin (1459166279268041 / 35184372088832)) (Fin (4053239664633447 / 140737488355328)) = Fin (2472476195426403 / 35184372088832)"
    unfolding flAdd.simps
    by (rule fl_certificate [where e = "6" and n = 4944952390852806]) (simp_all add: roundEven_def power_int_minus power_divide)
  have t2: "flAdd (Fin (2075258708292325 / 4503599627370496)) (Fin (1441151880758559 / 4503599627370496)) = Fin (879102647262721 / 1125899906842624)"
    unfolding flAdd.simps
    by (rule fl_certificate [where e = "-1" and n = 7032821178101768]) (simp_all add: roundEven_def power_int_minus power_divide)
  have w3: "flMul (Fin (1 / 2)) (Fin (3602879701896397 / 4503599627370496)) = Fin (3602879701896397 / 9007199254740992)"
    unfolding flMul.simps
    by (rule fl_certificate [where e = "-2" and n = 7205759403792794]) (simp_all add: roundEven_def power_int_minus power_divide)
  have p3: "flMul (Fin 90) (Fin (3602879701896397 / 9007199254740992)) = Fin (36)"
    unfolding flMul.simps
    by (rule fl_certificate [where e = "5" and n = 5066549580791808]) (simp_all add: roundEven_def power_int_minus power_divide)
  have s3: "flAdd (Fin (2472476195426403 / 35184372088832)) (Fin (36)) = Fin (3739113590624355 / 35184372088832)"
    unfolding flAdd.simps
    by (rule fl_certificate [where e = "6" and n = 7478227181248710]) (simp_all add: roundEven_def power_int_minus power_divide)
  have t3: "flAdd (Fin (879102647262721 / 1125899906842624)) (Fin (3602879701896397 / 9007199254740992)) = Fin (2658925219999541 / 2251799813685248)"
    unfolding flAdd.simps
    by (rule fl_certificate [where e = "0" and n = 5317850439999082]) (simp_all add: roundEven_def power_int_minus power_divide)
  have w4: "flMul (Fin (1 / 2)) (Fin (1)) = Fin (1 / 2)"
    unfolding flMul.simps
    by (rule fl_certificate [where e = "-1" and n = 4503599627370496]) (simp_all add: roundEven_def power_int_minus power_divide)
  have p4: "flMul (Fin 90) (Fin (1 / 2)) = Fin (45)"
    unfolding flMul.simps
    by (rule fl_certificate [where e = "5" and n = 6333186975989760]) (simp_all add: roundEven_def power_int_minus power_divide)
  have s4: "flAdd (Fin (3739113590624355 / 35184372088832)) (Fin (45)) = Fin (5322410334621795 / 35184372088832)"
    unfolding flAdd.simps
    by (rule fl_certificate [where e = "7" and n = 5322410334621795]) (simp_all add: roundEven_def power_int_minus power_divide)
  have t4: "flAdd (Fin (2658925219999541 / 2251799813685248)) (Fin (1 / 2)) = Fin (3784825126842165 / 2251799813685248)"
    unfolding flAdd.simps
    by (rule fl_certificate [where e = "0" and n = 7569650253684330]) (simp_all add: roundEven_def power_int_minus power_divide)
  have "flDiv (Fin (5322410334621795 / 35184372088832)) (Fin (3784825126842165 / 2251799813685248)) = fl ((5322410334621795 / 35184372088832) / (3784825126842165 / 2251799813685248))"
    by simp
  also have "\<dots> = Fin (6333186975989761 / 70368744177664)"
    by (rule fl_certificate [where e = "6" and n = 6333186975989761]) (simp_all add: roundEven_def power_int_minus power_divide)
  finally have q: "flDiv (Fin (5322410334621795 / 35184372088832)) (Fin (3784825126842165 / 2251799813685248)) = Fin (6333186975989761 / 70368744177664)" .
  define b where "b = pushBuffer (pushAll (pushAll emptyBuffer [(10, 1), (170, 0)])
    (replicate 4 (90, 1 / 2))) 90 (1 / 2)"
  note shape = five_pushes [of "[(10, 1), (170, 0)]" 90 "1 / 2", folded b_def]
  have loop: "smoothLoopFl b 0 (Fin 0) (Fin 0)
      = (Fin (5322410334621795 / 35184372088832), Fin (3784825126842165 / 2251799813685248))"
    unfolding smoothLoopFl_five [OF shape]
    by (simp only: r4 r3 r2 r1 r0 w0 w1 w2 w3 w4 p0 p1 p2 p3 p4 s0 s1 s2 s3 s4 t0 t1 t2 t3 t4)
  have "snd (smoothMetricFl (pushAllFl (pushAllFl emptyBuffer [(10, 1), (170, 0)])
          (replicate 4 (90, 1 / 2))) 90 (1 / 2))
     = Fin (6333186975989761 / 70368744177664)"
    unfolding smoothMetricFl_def pushAllFl_pushAll b_def [symmetric] Let_def loop
    by (simp only: prod.case snd_conv q jsGreater.simps) simp
  then show ?thesis by simp
qed

text \<open>
  C8 (amended). For every value \<open>v\<close> that is zero or lies between \<open>2 ^ -200\<close> and
  \<open>2 ^ 200\<close> in absolute value, and every constant confidence \<open>c\<close> between \<open>2 ^ -200\<close> and
  \<open>2 ^ 200\<close>, pushing the pair \<open>(v, c)\<close> five times in a row returns on the fifth call,
  whatever was pushed before, a finite number \<open>r\<close> with \<open>\<bar>r - v\<bar> \<le> 2 ^ -49 * \<bar>v\<bar>\<close>:
  the value \<open>v\<close> up to the rounding of the thirty operations of the loop.
\<close>

theorem smoothMetricFl_nearly_constant:
  assumes v: "v = 0 \<or> 2 powi (- 200) \<le> \<bar>v\<bar>" "\<bar>v\<bar> \<le> 2 powi 200"
    and c: "2 powi (- 200) \<le> c" "c \<le> 2 powi 200"
  shows "\<exists>r. snd (smoothMetricFl (pushAllFl (pushAllFl emptyBuffer ps) (replicate 4 (v, c))) v c)
           = Fin r \<and> \<bar>r - v\<bar> \<le> 2 powi (- 49) * \<bar>v\<bar>"
proof -
  define b where "b = pushBuffer (pushAll (pushAll emptyBuffer ps) (replicate 4 (v, c))) v c"
  note shape = five_pushes [of ps v c, folded b_def]
  obtain w4 where w4: "flMul (Fin c) (flPow (rd decay) 4) = Fin w4"
      "2 powi (- 204) \<le> w4" "w4 \<le> 2 powi 200"
    using weight_range [OF c, of 4] by auto
  obtain w3 where w3: "flMul (Fin c) (flPow (rd decay) 3) = Fin w3"
      "2 powi (- 204) \<le> w3" "w3 \<le> 2 powi 200"
    using weight_range [OF c, of 3] by auto
  obtain w2 where w2: "flMul (Fin c) (flPow (rd decay) 2) = Fin w2"
      "2 powi (- 204) \<le> w2" "w2 \<le> 2 powi 200"
    using weight_range [OF c, of 2] by auto
  obtain w1 where w1: "flMul (Fin c) (flPow (rd decay) 1) = Fin w1"
      "2 powi (- 204) \<le> w1" "w1 \<le> 2 powi 200"
    using weight_range [OF c, of 1] by auto
  obtain w0 where w0: "flMul (Fin c) (flPow (rd decay) 0) = Fin w0"
      "2 powi (- 204) \<le> w0" "w0 \<le> 2 powi 200"
    using weight_range [OF c, of 0] by auto
  have pos: "0 < (2::real) powi (- 204)" by (rule pow2_pos)
  have "(2::real) powi 201 = 2 * 2 powi 200" "(2::real) powi 202 = 2 * 2 powi 201"
    "(2::real) powi 203 = 2 * 2 powi 202"
    using pow2_Suc [of 200] pow2_Suc [of 201] pow2_Suc [of 202] by simp_all
  then have big: "(2::real) powi 203 = 8 * 2 powi 200" by linarith
  have big0: "0 \<le> (2::real) powi 203" using pow2_pos [of 203] by linarith
  have T0: "(0::real) \<le> 0" "(0::real) \<le> 2 powi 203" using big0 by simp_all
  have T1: "0 \<le> 0 + w4" "0 + w4 \<le> 2 powi 203"
    using w4 pos big pow2_pos [of 200] by linarith+
  have T2: "0 \<le> 0 + w4 + w3" "0 + w4 + w3 \<le> 2 powi 203"
    using w4 w3 pos big pow2_pos [of 200] by linarith+
  have T3: "0 \<le> 0 + w4 + w3 + w2" "0 + w4 + w3 + w2 \<le> 2 powi 203"
    using w4 w3 w2 pos big pow2_pos [of 200] by linarith+
  have T4: "0 \<le> 0 + w4 + w3 + w2 + w1" "0 + w4 + w3 + w2 + w1 \<le> 2 powi 203"
    using w4 w3 w2 w1 pos big pow2_pos [of 200] by linarith+
  have T5: "0 < 0 + w4 + w3 + w2 + w1 + w0"
    using w4 w3 w2 w1 w0 pos by linarith
  have "\<exists>A' t'. flAdd (Fin (v * 0)) (flMul (Fin v) (Fin w4)) = Fin (v * A')
      \<and> flAdd (Fin 0) (Fin w4) = Fin t'
      \<and> (0 + w4) * (1 - 2 powi (- 53)) ^ 2 \<le> A' \<and> A' \<le> (0 + w4) * (1 + 2 powi (- 53)) ^ 2
      \<and> (0 + w4) * (1 - 2 powi (- 53)) ^ 2 \<le> t' \<and> t' \<le> (0 + w4) * (1 + 2 powi (- 53)) ^ 2"
    by (rule accumulate_step [OF v w4(2,3) T0, where m = 1]) simp_all
  then obtain A1 t1 where s1: "flAdd (Fin (v * 0)) (flMul (Fin v) (Fin w4)) = Fin (v * A1)"
      "flAdd (Fin 0) (Fin w4) = Fin t1"
    and A1: "(0 + w4) * (1 - 2 powi (- 53)) ^ 2 \<le> A1" "A1 \<le> (0 + w4) * (1 + 2 powi (- 53)) ^ 2"
    and t1: "(0 + w4) * (1 - 2 powi (- 53)) ^ 2 \<le> t1" "t1 \<le> (0 + w4) * (1 + 2 powi (- 53)) ^ 2"
    by blast
  have "\<exists>A' t'. flAdd (Fin (v * A1)) (flMul (Fin v) (Fin w3)) = Fin (v * A')
      \<and> flAdd (Fin t1) (Fin w3) = Fin t'
      \<and> (0 + w4 + w3) * (1 - 2 powi (- 53)) ^ 3 \<le> A' \<and> A' \<le> (0 + w4 + w3) * (1 + 2 powi (- 53)) ^ 3
      \<and> (0 + w4 + w3) * (1 - 2 powi (- 53)) ^ 3 \<le> t' \<and> t' \<le> (0 + w4 + w3) * (1 + 2 powi (- 53)) ^ 3"
    by (rule accumulate_step [OF v w3(2,3) T1 _ _ _ A1 t1]) simp_all
  then obtain A2 t2 where s2: "flAdd (Fin (v * A1)) (flMul (Fin v) (Fin w3)) = Fin (v * A2)"
      "flAdd (Fin t1) (Fin w3) = Fin t2"
    and A2: "(0 + w4 + w3) * (1 - 2 powi (- 53)) ^ 3 \<le> A2" "A2 \<le> (0 + w4 + w3) * (1 + 2 powi (- 53)) ^ 3"
    and t2: "(0 + w4 + w3) * (1 - 2 powi (- 53)) ^ 3 \<le> t2" "t2 \<le> (0 + w4 + w3) * (1 + 2 powi (- 53)) ^ 3"
    by blast
  have "\<exists>A' t'. flAdd (Fin (v * A2)) (flMul (Fin v) (Fin w2)) = Fin (v * A')
      \<and> flAdd (Fin t2) (Fin w2) = Fin t'
      \<and> (0 + w4 + w3 + w2) * (1 - 2 powi (- 53)) ^ 4 \<le> A'
      \<and> A' \<le> (0 + w4 + w3 + w2) * (1 + 2 powi (- 53)) ^ 4
      \<and> (0 + w4 + w3 + w2) * (1 - 2 powi (- 53)) ^ 4 \<le> t'
      \<and> t' \<le> (0 + w4 + w3 + w2) * (1 + 2 powi (- 53)) ^ 4"
    by (rule accumulate_step [OF v w2(2,3) T2 _ _ _ A2 t2]) simp_all
  then obtain A3 t3 where s3: "flAdd (Fin (v * A2)) (flMul (Fin v) (Fin w2)) = Fin (v * A3)"
      "flAdd (Fin t2) (Fin w2) = Fin t3"
    and A3: "(0 + w4 + w3 + w2) * (1 - 2 powi (- 53)) ^ 4 \<le> A3"
      "A3 \<le> (0 + w4 + w3 + w2) * (1 + 2 powi (- 53)) ^ 4"
    and t3: "(0 + w4 + w3 + w2) * (1 - 2 powi (- 53)) ^ 4 \<le> t3"
      "t3 \<le> (0 + w4 + w3 + w2) * (1 + 2 powi (- 53)) ^ 4"
    by blast
  have "\<exists>A' t'. flAdd (Fin (v * A3)) (flMul (Fin v) (Fin w1)) = Fin (v * A')
      \<and> flAdd (Fin t3) (Fin w1) = Fin t'
      \<and> (0 + w4 + w3 + w2 + w1) * (1 - 2 powi (- 53)) ^ 5 \<le> A'
      \<and> A' \<le> (0 + w4 + w3 + w2 + w1) * (1 + 2 powi (- 53)) ^ 5
      \<and> (0 + w4 + w3 + w2 + w1) * (1 - 2 powi (- 53)) ^ 5 \<le> t'
      \<and> t' \<le> (0 + w4 + w3 + w2 + w1) * (1 + 2 powi (- 53)) ^ 5"
    by (rule accumulate_step [OF v w1(2,3) T3 _ _ _ A3 t3]) simp_all
  then obtain A4 t4 where s4: "flAdd (Fin (v * A3)) (flMul (Fin v) (Fin w1)) = Fin (v * A4)"
      "flAdd (Fin t3) (Fin w1) = Fin t4"
    and A4: "(0 + w4 + w3 + w2 + w1) * (1 - 2 powi (- 53)) ^ 5 \<le> A4"
      "A4 \<le> (0 + w4 + w3 + w2 + w1) * (1 + 2 powi (- 53)) ^ 5"
    and t4: "(0 + w4 + w3 + w2 + w1) * (1 - 2 powi (- 53)) ^ 5 \<le> t4"
      "t4 \<le> (0 + w4 + w3 + w2 + w1) * (1 + 2 powi (- 53)) ^ 5"
    by blast
  have "\<exists>A' t'. flAdd (Fin (v * A4)) (flMul (Fin v) (Fin w0)) = Fin (v * A')
      \<and> flAdd (Fin t4) (Fin w0) = Fin t'
      \<and> (0 + w4 + w3 + w2 + w1 + w0) * (1 - 2 powi (- 53)) ^ 6 \<le> A'
      \<and> A' \<le> (0 + w4 + w3 + w2 + w1 + w0) * (1 + 2 powi (- 53)) ^ 6
      \<and> (0 + w4 + w3 + w2 + w1 + w0) * (1 - 2 powi (- 53)) ^ 6 \<le> t'
      \<and> t' \<le> (0 + w4 + w3 + w2 + w1 + w0) * (1 + 2 powi (- 53)) ^ 6"
    by (rule accumulate_step [OF v w0(2,3) T4 _ _ _ A4 t4]) simp_all
  then obtain A5 t5 where s5: "flAdd (Fin (v * A4)) (flMul (Fin v) (Fin w0)) = Fin (v * A5)"
      "flAdd (Fin t4) (Fin w0) = Fin t5"
    and A5: "(0 + w4 + w3 + w2 + w1 + w0) * (1 - 2 powi (- 53)) ^ 6 \<le> A5"
      "A5 \<le> (0 + w4 + w3 + w2 + w1 + w0) * (1 + 2 powi (- 53)) ^ 6"
    and t5: "(0 + w4 + w3 + w2 + w1 + w0) * (1 - 2 powi (- 53)) ^ 6 \<le> t5"
      "t5 \<le> (0 + w4 + w3 + w2 + w1 + w0) * (1 + 2 powi (- 53)) ^ 6"
    by blast
  note fin = quotient_step [OF v T5 A5 t5]
  from fin(2) obtain r where r: "flDiv (Fin (v * A5)) (Fin t5) = Fin r"
      "\<bar>r - v\<bar> \<le> 2 powi (- 49) * \<bar>v\<bar>"
    by blast
  have s1': "flAdd (Fin 0) (flMul (Fin v) (Fin w4)) = Fin (v * A1)"
    using s1(1) by (simp only: mult_zero_right)
  have loop: "smoothLoopFl b 0 (Fin 0) (Fin 0) = (Fin (v * A5), Fin t5)"
    unfolding smoothLoopFl_five [OF shape]
    by (simp only: w4(1) w3(1) w2(1) w1(1) w0(1) s1' s1(2) s2 s3 s4 s5)
  have "snd (smoothMetricFl (pushAllFl (pushAllFl emptyBuffer ps) (replicate 4 (v, c))) v c) = Fin r"
    unfolding smoothMetricFl_def pushAllFl_pushAll b_def [symmetric] Let_def loop
    using fin(1) by (simp only: prod.case snd_conv r(1) jsGreater.simps if_True)
  with r(2) show ?thesis by blast
qed

theorem smoothMetricFl_nearly_constant_witness:
  "(2::real) powi (- 200) \<le> \<bar>90\<bar> \<and> \<bar>90::real\<bar> \<le> 2 powi 200
   \<and> (2::real) powi (- 200) \<le> 1 / 2 \<and> (1 / 2 :: real) \<le> 2 powi 200
   \<and> (\<exists>r. snd (smoothMetricFl (pushAllFl (pushAllFl emptyBuffer [(10, 1), (170, 0)])
          (replicate 4 (90, 1 / 2))) 90 (1 / 2)) = Fin r
        \<and> \<bar>r - 90\<bar> \<le> 2 powi (- 49) * \<bar>90\<bar>)"
  using smoothMetricFl_nearly_constant [of 90 "1 / 2" "[(10, 1), (170, 0)]"]
  by (simp add: power_int_minus)

end
